(* ===== verification/Prelude.thy ===== *)
theory Prelude
  imports Main "HOL-Library.Char_ord" "HOL-Library.List_Lexorder"
begin

text \<open>
  The shared vocabulary of the development: results of fallible Go functions, 64-bit
  integers with their wrap-around, instants and durations in nanoseconds, and the generic
  lemmas on lists that several components use.

  A Go function that returns \<open>(T, error)\<close> is modelled as \<open>'e + 'a\<close>: \<open>Inl\<close> carries the
  error, \<open>Inr\<close> the value. Go's \<open>int\<close> and \<open>int64\<close> are 64 bits wide on every platform
  the services are built for; where a sum or product could leave that range the model
  applies \<open>wrap64\<close> to it.
\<close>

named_theorems inv_intros \<open>preservation of the component invariants\<close>
named_theorems row_simps \<open>what the table primitives do to lookups\<close>

section \<open>Fallible results\<close>

fun is_ok :: "'e + 'a \<Rightarrow> bool" where
  "is_ok (Inl e) = False"
| "is_ok (Inr x) = True"

lemma is_ok_iff: "is_ok r \<longleftrightarrow> (\<exists>x. r = Inr x)"
  by (cases r) auto

section \<open>Signed 64-bit integers\<close>

definition wrap64 :: "int \<Rightarrow> int" where
  "wrap64 x = (x + 2 ^ 63) mod 2 ^ 64 - 2 ^ 63"

definition in_int64 :: "int \<Rightarrow> bool" where
  "in_int64 x \<longleftrightarrow> - (2 ^ 63) \<le> x \<and> x < 2 ^ 63"

lemma wrap64_id: "in_int64 x \<Longrightarrow> wrap64 x = x"
  by (simp add: wrap64_def in_int64_def)

lemma in_int64_wrap64: "in_int64 (wrap64 x)"
proof -
  have "0 \<le> (x + 2 ^ 63) mod 2 ^ 64" and "(x + 2 ^ 63) mod 2 ^ 64 < 2 ^ 64"
    by simp_all
  then show ?thesis by (simp add: wrap64_def in_int64_def)
qed

section \<open>Instants and durations\<close>

text \<open>
  An instant (\<open>time.Time\<close>) is the number of nanoseconds since the Unix epoch, a
  \<open>time.Duration\<close> a number of nanoseconds. The zero \<open>time.Time\<close> is the first instant
  of the year 1. A \<open>timestamptz\<close> column keeps microseconds; the driver rounds down.
\<close>

type_synonym instant = int
type_synonym duration = int

abbreviation second :: duration where "second \<equiv> 1000000000"
abbreviation minute :: duration where "minute \<equiv> 60 * second"
abbreviation hour :: duration where "hour \<equiv> 60 * minute"
abbreviation day :: duration where "day \<equiv> 24 * hour"

definition zero_time :: instant where
  "zero_time = - 62135596800 * second"

definition unix_seconds :: "instant \<Rightarrow> int" where
  "unix_seconds t = t div second"

text \<open>
  \<open>time.Unix(s, 0)\<close> stores seconds since the year 1 in an \<open>int64\<close>: the conversion
  wraps for the largest arguments.
\<close>

definition time_unix :: "int \<Rightarrow> instant" where
  "time_unix s = (wrap64 (s + 62135596800) - 62135596800) * second"

lemma time_unix_exact: "\<bar>s\<bar> < 2 ^ 62 \<Longrightarrow> time_unix s = s * second"
proof -
  assume "\<bar>s\<bar> < 2 ^ 62"
  then have "wrap64 (s + 62135596800) = s + 62135596800"
    by (intro wrap64_id) (auto simp: in_int64_def abs_if split: if_splits)
  then show ?thesis by (simp add: time_unix_def)
qed

definition db_time :: "instant \<Rightarrow> instant" where
  "db_time t = t div 1000 * 1000"

lemma db_time_le: "db_time t \<le> t"
  by (simp add: db_time_def minus_mod_eq_div_mult [symmetric])

lemma db_time_idem [simp]: "db_time (db_time t) = db_time t"
  by (simp add: db_time_def)

section \<open>Lists\<close>

lemma sum_list_filter_le:
  fixes f :: "'a \<Rightarrow> int"
  assumes "\<And>x. x \<in> set xs \<Longrightarrow> 0 \<le> f x"
  shows "(\<Sum>x\<leftarrow>filter P xs. f x) \<le> (\<Sum>x\<leftarrow>xs. f x)"
  using assms by (induction xs) (auto simp: add_increasing)

lemma sum_list_filter_mono:
  fixes f :: "'a \<Rightarrow> int"
  assumes "\<And>x. x \<in> set xs \<Longrightarrow> 0 \<le> f x" and "\<And>x. x \<in> set xs \<Longrightarrow> P x \<Longrightarrow> Q x"
  shows "(\<Sum>x\<leftarrow>filter P xs. f x) \<le> (\<Sum>x\<leftarrow>filter Q xs. f x)"
  using assms by (induction xs) (auto simp: add_increasing)

lemma distinct_map_inj: "distinct (map f xs) \<Longrightarrow> x \<in> set xs \<Longrightarrow> y \<in> set xs \<Longrightarrow> f x = f y \<Longrightarrow> x = y"
  by (auto simp: distinct_map dest: inj_onD)

lemma distinct_map_filter: "distinct (map f xs) \<Longrightarrow> distinct (map f (filter P xs))"
  by (induction xs) auto

lemma find_Some_mem: "List.find P xs = Some x \<Longrightarrow> x \<in> set xs \<and> P x"
  by (auto simp: find_Some_iff)

lemma find_unique:
  assumes "distinct (map f xs)" and "x \<in> set xs"
  shows "List.find (\<lambda>y. f y = f x) xs = Some x"
  using assms by (induction xs) auto

lemma find_None_map: "List.find (\<lambda>y. f y = k) xs = None \<longleftrightarrow> k \<notin> f ` set xs"
  by (auto simp: find_None_iff)

end
