(* ===== verification/Go_Text.thy ===== *)
theory Go_Text
  imports Prelude
begin

text \<open>
  The part of the Go standard library the services use on text. A Go \<open>string\<close> is a
  sequence of bytes, modelled as \<open>string\<close> (a list of 8-bit \<open>char\<close>s). Modelled here:
  \<open>strings.HasPrefix/HasSuffix/TrimPrefix/Cut/Split/TrimSpace/TrimRight/ToLower/Map\<close>,
  \<open>strconv.Itoa/FormatInt/Atoi/ParseInt\<close> in base ten, \<open>utf8.DecodeRune\<close> and the
  functions built on it, \<open>hex.EncodeToString\<close>, the unpadded \<open>base64\<close> encodings,
  \<open>path.Base\<close> and \<open>url.PathEscape\<close>. The Unicode case tables are a parameter
  (\<open>uni\<close>) that is consulted for text with non-ASCII bytes only.
\<close>

section \<open>Bytes\<close>

abbreviation byte :: "char \<Rightarrow> nat" where "byte c \<equiv> of_char c"

definition in_range :: "nat \<Rightarrow> nat \<Rightarrow> char \<Rightarrow> bool" where
  "in_range lo hi c \<longleftrightarrow> lo \<le> byte c \<and> byte c \<le> hi"

definition is_ascii :: "char \<Rightarrow> bool" where "is_ascii c \<longleftrightarrow> byte c < 128"
definition is_digit :: "char \<Rightarrow> bool" where "is_digit = in_range 48 57"
definition is_upper :: "char \<Rightarrow> bool" where "is_upper = in_range 65 90"
definition is_lower :: "char \<Rightarrow> bool" where "is_lower = in_range 97 122"
definition is_alnum :: "char \<Rightarrow> bool" where
  "is_alnum c \<longleftrightarrow> is_digit c \<or> is_upper c \<or> is_lower c"

definition ascii_lower :: "char \<Rightarrow> char" where
  "ascii_lower c = (if is_upper c then char_of (byte c + 32) else c)"

lemmas char_class_defs =
  in_range_def is_ascii_def is_digit_def is_upper_def is_lower_def is_alnum_def ascii_lower_def

definition to_lower :: "(string \<Rightarrow> string) \<Rightarrow> string \<Rightarrow> string" where
  "to_lower uni s = (if list_all is_ascii s then map ascii_lower s else uni s)"

text \<open>\<open>strings.EqualFold(s, t)\<close> for a \<open>t\<close> whose letters fold to ASCII letters only.\<close>

definition equal_fold_ascii :: "string \<Rightarrow> string \<Rightarrow> bool" where
  "equal_fold_ascii s t \<longleftrightarrow> map ascii_lower s = map ascii_lower t"

section \<open>Searching and cutting\<close>

definition has_prefix :: "string \<Rightarrow> string \<Rightarrow> bool" where
  "has_prefix p s \<longleftrightarrow> take (length p) s = p"

definition has_suffix :: "string \<Rightarrow> string \<Rightarrow> bool" where
  "has_suffix p s \<longleftrightarrow> has_prefix (rev p) (rev s)"

definition trim_prefix :: "string \<Rightarrow> string \<Rightarrow> string" where
  "trim_prefix p s = (if has_prefix p s then drop (length p) s else s)"

definition trim_suffix :: "string \<Rightarrow> string \<Rightarrow> string" where
  "trim_suffix p s = (if has_suffix p s then take (length s - length p) s else s)"

fun contains_sub :: "string \<Rightarrow> string \<Rightarrow> bool" where
  "contains_sub p [] = (p = [])"
| "contains_sub p (c # s) = (has_prefix p (c # s) \<or> contains_sub p s)"

fun cut_at :: "char \<Rightarrow> string \<Rightarrow> string \<times> string \<times> bool" where
  "cut_at c [] = ([], [], False)"
| "cut_at c (x # s) =
     (if x = c then ([], s, True) else (case cut_at c s of (b, a, ok) \<Rightarrow> (x # b, a, ok)))"

fun split_on :: "char \<Rightarrow> string \<Rightarrow> string list" where
  "split_on c [] = [[]]"
| "split_on c (x # s) =
     (if x = c then [] # split_on c s else (x # hd (split_on c s)) # tl (split_on c s))"

definition trim_right_char :: "char \<Rightarrow> string \<Rightarrow> string" where
  "trim_right_char c s = rev (dropWhile (\<lambda>x. x = c) (rev s))"

definition trim_left_char :: "char \<Rightarrow> string \<Rightarrow> string" where
  "trim_left_char c s = dropWhile (\<lambda>x. x = c) s"

definition replace_char :: "char \<Rightarrow> char \<Rightarrow> string \<Rightarrow> string" where
  "replace_char a b s = map (\<lambda>x. if x = a then b else x) s"

lemma has_prefix_append [simp]: "has_prefix p (p @ s)"
  by (simp add: has_prefix_def)

lemma has_prefix_iff: "has_prefix p s \<longleftrightarrow> (\<exists>t. s = p @ t)"
  by (metis append_take_drop_id has_prefix_append has_prefix_def)

lemma trim_prefix_append [simp]: "trim_prefix p (p @ s) = s"
  by (simp add: trim_prefix_def)

lemma cut_at_none: "c \<notin> set s \<Longrightarrow> cut_at c s = (s, [], False)"
  by (induction s) auto

lemma cut_at_append: "c \<notin> set a \<Longrightarrow> cut_at c (a @ c # b) = (a, b, True)"
  by (induction a) auto

lemma cut_at_True: "cut_at c s = (a, b, True) \<Longrightarrow> s = a @ c # b \<and> c \<notin> set a"
  by (induction s arbitrary: a) (auto split: if_splits prod.splits)

lemma split_on_neq_Nil [simp]: "split_on c s \<noteq> []"
  by (cases s) auto

lemma split_on_none: "c \<notin> set s \<Longrightarrow> split_on c s = [s]"
  by (induction s) auto

lemma split_on_append: "c \<notin> set a \<Longrightarrow> split_on c (a @ c # b) = a # split_on c b"
  by (induction a) auto

lemma split_on_notin: "p \<in> set (split_on c s) \<Longrightarrow> c \<notin> set p"
proof (induction s arbitrary: p)
  case Nil
  then show ?case by simp
next
  case (Cons x s)
  have "c \<notin> set (hd (split_on c s))" and "\<And>q. q \<in> set (tl (split_on c s)) \<Longrightarrow> c \<notin> set q"
    using Cons.IH by (auto dest: list.set_sel(2) [rotated] intro: list.set_sel(1))
  with Cons show ?case by (auto split: if_splits)
qed

text \<open>\<open>strings.Join\<close>, the left inverse of \<open>split_on\<close>.\<close>

fun join_with :: "char \<Rightarrow> string list \<Rightarrow> string" where
  "join_with c [] = []"
| "join_with c [p] = p"
| "join_with c (p # q # ps) = p @ c # join_with c (q # ps)"

lemma join_with_Cons: "ps \<noteq> [] \<Longrightarrow> join_with c (p # ps) = p @ c # join_with c ps"
  by (cases ps) auto

lemma join_split_on: "join_with c (split_on c s) = s"
proof (induction s)
  case Nil
  then show ?case by simp
next
  case (Cons x s)
  obtain p ps where ps: "split_on c s = p # ps"
    by (cases "split_on c s") auto
  with Cons.IH show ?case
    by (cases ps) (auto simp: join_with_Cons)
qed

lemma split_on_three: "split_on c s = [a, b, d] \<Longrightarrow> s = a @ c # b @ c # d"
  using join_split_on [of c s] by simp

section \<open>White space\<close>

text \<open>
  \<open>strings.TrimSpace\<close> removes leading and trailing code points of Unicode's white space.
  \<open>space_codes\<close> lists their UTF-8 encodings; no encoding is a prefix or a suffix of the
  encoding of another code point, so matching bytes is matching code points.
\<close>

definition space_codes :: "string list" where
  "space_codes =
     map (\<lambda>n. [char_of n]) [9, 10, 11, 12, 13, 32 :: nat] @
     map (map char_of) [[194, 133], [194, 160], [225, 154, 128 :: nat]] @
     map (\<lambda>n. map char_of [226, 128, n]) ([128..<139] @ [168, 169, 175 :: nat]) @
     map (map char_of) [[226, 129, 159], [227, 128, 128 :: nat]]"

fun strip_codes :: "string list \<Rightarrow> string \<Rightarrow> string" where
  "strip_codes codes [] = []"
| "strip_codes codes (c # s) =
     (case List.find (\<lambda>p. p \<noteq> [] \<and> has_prefix p (c # s)) codes of
        None \<Rightarrow> c # s
      | Some p \<Rightarrow> strip_codes codes (drop (length p - 1) s))"

definition trim_left_space :: "string \<Rightarrow> string" where
  "trim_left_space s = strip_codes space_codes s"

definition trim_right_space :: "string \<Rightarrow> string" where
  "trim_right_space s = rev (strip_codes (map rev space_codes) (rev s))"

definition trim_space :: "string \<Rightarrow> string" where
  "trim_space s = trim_right_space (trim_left_space s)"

definition graphic :: "char \<Rightarrow> bool" where
  "graphic = in_range 33 126"

lemma strip_codes_keep:
  assumes "\<And>p. p \<in> set codes \<Longrightarrow> p \<noteq> [] \<Longrightarrow> hd p \<noteq> c"
  shows "strip_codes codes (c # s) = c # s"
proof -
  have "List.find (\<lambda>p. p \<noteq> [] \<and> has_prefix p (c # s)) codes = None"
    unfolding find_None_iff
  proof (intro notI, elim exE conjE)
    fix p assume p: "p \<in> set codes" "p \<noteq> []" "has_prefix p (c # s)"
    then have "hd p = c" by (metis has_prefix_iff hd_append2 list.sel(1))
    with p assms show False by blast
  qed
  then show ?thesis by simp
qed

lemma space_codes_hd: "p \<in> set space_codes \<Longrightarrow> \<not> graphic (hd p) \<and> \<not> graphic (last p)"
proof -
  have "list_all (\<lambda>p. \<not> graphic (hd p) \<and> \<not> graphic (last p)) space_codes"
    by code_simp
  then show "p \<in> set space_codes \<Longrightarrow> ?thesis"
    by (simp add: list_all_iff)
qed

lemma trim_space_Nil [simp]: "trim_space [] = []"
  by (simp add: trim_space_def trim_left_space_def trim_right_space_def)

lemma trim_space_graphic:
  assumes "s \<noteq> []" and "graphic (hd s)" and "graphic (last s)"
  shows "trim_space s = s"
proof -
  obtain c t where s: "s = c # t" using assms(1) by (cases s) auto
  have left: "trim_left_space s = s"
    unfolding trim_left_space_def s
    by (rule strip_codes_keep) (use assms s space_codes_hd in auto)
  obtain d u where r: "rev s = d # u" using assms(1) by (cases "rev s") auto
  then have "last s = d" by (metis hd_rev list.sel(1))
  then have "strip_codes (map rev space_codes) (d # u) = d # u"
    using assms by (intro strip_codes_keep) (metis (no_types, lifting) \<open>last s = d\<close> hd_rev image_iff
      list.set_map space_codes_hd)
  then have "trim_right_space s = s"
    by (simp only: trim_right_space_def r) (metis r rev_rev_ident)
  with left show ?thesis by (simp add: trim_space_def)
qed

section \<open>Decimal numbers\<close>

definition digit_char :: "nat \<Rightarrow> char" where
  "digit_char n = char_of (48 + n)"

fun decimal :: "nat \<Rightarrow> string" where
  "decimal n = (if n < 10 then [digit_char n] else decimal (n div 10) @ [digit_char (n mod 10)])"

declare decimal.simps [simp del]

definition itoa :: "int \<Rightarrow> string" where
  "itoa i = (if i < 0 then CHR ''-'' # decimal (nat (- i)) else decimal (nat i))"

definition digits_value :: "string \<Rightarrow> nat" where
  "digits_value s = foldl (\<lambda>v c. v * 10 + (byte c - 48)) 0 s"

definition parse_digits :: "string \<Rightarrow> nat option" where
  "parse_digits s = (if s \<noteq> [] \<and> list_all is_digit s then Some (digits_value s) else None)"

definition check_int64 :: "int \<Rightarrow> int option" where
  "check_int64 i = (if in_int64 i then Some i else None)"

text \<open>\<open>strconv.ParseInt(s, 10, 64)\<close> and \<open>strconv.Atoi\<close>: \<open>None\<close> is the error.\<close>

definition parse_int :: "string \<Rightarrow> int option" where
  "parse_int s =
     (case s of
        [] \<Rightarrow> None
      | c # t \<Rightarrow>
          if c = CHR ''-'' then Option.bind (parse_digits t) (\<lambda>n. check_int64 (- int n))
          else if c = CHR ''+'' then Option.bind (parse_digits t) (\<lambda>n. check_int64 (int n))
          else Option.bind (parse_digits s) (\<lambda>n. check_int64 (int n)))"

lemma digit_char_class [simp]: "n < 10 \<Longrightarrow> is_digit (digit_char n) \<and> byte (digit_char n) = 48 + n"
  by (simp add: is_digit_def in_range_def digit_char_def)

lemma decimal_digits: "list_all is_digit (decimal n)"
proof (induction n rule: decimal.induct)
  case (1 n)
  then show ?case by (subst decimal.simps) auto
qed

lemma decimal_neq_Nil [simp]: "decimal n \<noteq> []"
  by (subst decimal.simps) simp

lemma digits_value_decimal: "digits_value (decimal n) = n"
proof (induction n rule: decimal.induct)
  case (1 n)
  show ?case
  proof (cases "n < 10")
    case True
    then show ?thesis by (subst decimal.simps) (simp add: digits_value_def)
  next
    case False
    with 1 have "digits_value (decimal (n div 10)) = n div 10" by simp
    with False show ?thesis
      by (subst decimal.simps) (simp add: digits_value_def)
  qed
qed

lemma parse_digits_decimal: "parse_digits (decimal n) = Some n"
  by (simp add: parse_digits_def decimal_digits digits_value_decimal)

lemma is_digit_not_sign: "is_digit c \<Longrightarrow> c \<noteq> CHR ''-'' \<and> c \<noteq> CHR ''+''"
  by (auto simp: is_digit_def in_range_def)

lemma parse_int_itoa: "in_int64 i \<Longrightarrow> parse_int (itoa i) = Some i"
proof -
  assume i: "in_int64 i"
  obtain d ds where d: "decimal (nat i) = d # ds" by (cases "decimal (nat i)") auto
  then have "is_digit d" using decimal_digits [of "nat i"] by simp
  then have "d \<noteq> CHR ''-''" "d \<noteq> CHR ''+''" using is_digit_not_sign by auto
  with i d show ?thesis
    using parse_digits_decimal [of "nat i"] parse_digits_decimal [of "nat (- i)"]
    by (auto simp: itoa_def parse_int_def check_int64_def)
qed

lemma itoa_inj: "in_int64 i \<Longrightarrow> in_int64 j \<Longrightarrow> itoa i = itoa j \<Longrightarrow> i = j"
  by (metis option.inject parse_int_itoa)

lemma itoa_chars: "c \<in> set (itoa i) \<Longrightarrow> is_digit c \<or> c = CHR ''-''"
  using decimal_digits by (auto simp: itoa_def list_all_iff split: if_splits)

lemma itoa_neq_Nil [simp]: "itoa i \<noteq> []"
  by (simp add: itoa_def)

lemma length_decimal_le: "n < 10 ^ k \<Longrightarrow> 0 < k \<Longrightarrow> length (decimal n) \<le> k"
proof (induction n arbitrary: k rule: decimal.induct)
  case (1 n)
  show ?case
  proof (cases "n < 10")
    case True
    with 1 show ?thesis by (subst decimal.simps) simp
  next
    case False
    with "1.prems" have "k \<noteq> 1" by auto
    with "1.prems"(2) obtain j where k: "k = Suc j" "0 < j"
      by (cases k) auto
    with "1.prems"(1) have "n < 10 * 10 ^ j" by simp
    then have "n div 10 < 10 ^ j" by (simp add: less_mult_imp_div_less mult.commute)
    then have "length (decimal (n div 10)) \<le> j" using "1.IH" False k(2) by blast
    with False k(1) show ?thesis by (subst decimal.simps) simp
  qed
qed

lemma length_decimal_ge: "10 ^ k \<le> n \<Longrightarrow> k < length (decimal n)"
proof (induction k arbitrary: n)
  case 0
  then show ?case by simp
next
  case (Suc k)
  have "(1::nat) \<le> 10 ^ k" by simp
  with Suc.prems have "\<not> n < 10" unfolding power_Suc by linarith
  moreover have "10 ^ k \<le> n div 10"
    using Suc.prems by (simp add: less_eq_div_iff_mult_less_eq mult.commute)
  ultimately show ?case using Suc.IH [of "n div 10"] by (subst decimal.simps) simp
qed

end
