(* ===== verification/Go_Encoding.thy ===== *)
theory Go_Encoding
  imports Go_Text
begin

text \<open>
  Encodings of the Go standard library: \<open>encoding/hex\<close>, the raw (unpadded) alphabets of
  \<open>encoding/base64\<close>, \<open>unicode/utf8\<close> with \<open>strings.Map\<close>, \<open>path.Base\<close>,
  \<open>url.PathEscape\<close>, and the character classes of the anchored regular expressions the
  services validate identifiers with.
\<close>

section \<open>Hexadecimal\<close>

definition hex_digit :: "nat \<Rightarrow> char" where
  "hex_digit n = (if n < 10 then char_of (48 + n) else char_of (87 + n))"

definition hex_encode :: "string \<Rightarrow> string" where
  "hex_encode s = concat (map (\<lambda>c. [hex_digit (byte c div 16), hex_digit (byte c mod 16)]) s)"

lemma length_hex_encode [simp]: "length (hex_encode s) = 2 * length s"
  by (induction s) (auto simp: hex_encode_def)

lemma byte_char_of: "n < 256 \<Longrightarrow> byte (char_of n) = n"
  by simp

lemma char_eq_byte: "c = d \<longleftrightarrow> byte c = byte d"
  by simp

lemma byte_hex_digit: "n < 16 \<Longrightarrow> byte (hex_digit n) = (if n < 10 then 48 + n else 87 + n)"
  unfolding hex_digit_def by (simp del: of_char_of add: byte_char_of)

lemma hex_digit_inj:
  assumes "m < 16" and "n < 16" and "hex_digit m = hex_digit n"
  shows "m = n"
proof -
  have "byte (hex_digit m) = byte (hex_digit n)" using assms(3) by simp
  then show ?thesis
    unfolding byte_hex_digit [OF assms(1)] byte_hex_digit [OF assms(2)]
    using assms(1,2) by (simp split: if_splits)
qed

lemma hex_encode_inj: "hex_encode s = hex_encode t \<Longrightarrow> s = t"
proof (induction s arbitrary: t)
  case Nil
  then show ?case by (cases t) (auto simp: hex_encode_def)
next
  case (Cons c s)
  then obtain d u where t: "t = d # u" by (cases t) (auto simp: hex_encode_def)
  have "byte c div 16 = byte d div 16" "byte c mod 16 = byte d mod 16" "hex_encode s = hex_encode u"
    using Cons.prems nat_of_char_less_256 [of c] nat_of_char_less_256 [of d]
    by (auto simp: t hex_encode_def less_mult_imp_div_less intro!: hex_digit_inj)
  then have "byte c = byte d" by (metis mult_div_mod_eq)
  with Cons.IH \<open>hex_encode s = hex_encode u\<close> show ?case by (auto simp: t)
qed

section \<open>Base64 without padding\<close>

text \<open>
  \<open>RawURLEncoding\<close> and \<open>RawStdEncoding\<close>. The decoder skips carriage returns and line
  feeds, and, not being strict, ignores the unused low bits of the last character.
\<close>

datatype b64_alphabet = Url | Std

definition b64_char :: "b64_alphabet \<Rightarrow> nat \<Rightarrow> char" where
  "b64_char a n =
     (if n < 26 then char_of (65 + n)
      else if n < 52 then char_of (71 + n)
      else if n < 62 then char_of (n - 4)
      else if n = 62 then (case a of Url \<Rightarrow> CHR ''-'' | Std \<Rightarrow> CHR ''+'')
      else (case a of Url \<Rightarrow> CHR ''_'' | Std \<Rightarrow> CHR ''/''))"

definition b64_value :: "b64_alphabet \<Rightarrow> char \<Rightarrow> nat option" where
  "b64_value a c =
     (if is_upper c then Some (byte c - 65)
      else if is_lower c then Some (byte c - 71)
      else if is_digit c then Some (byte c + 4)
      else if c = b64_char a 62 then Some 62
      else if c = b64_char a 63 then Some 63
      else None)"

fun b64_sextets :: "string \<Rightarrow> nat list" where
  "b64_sextets [] = []"
| "b64_sextets [x] = [byte x div 4, byte x mod 4 * 16]"
| "b64_sextets [x, y] = [byte x div 4, byte x mod 4 * 16 + byte y div 16, byte y mod 16 * 4]"
| "b64_sextets (x # y # z # s) =
     byte x div 4 # (byte x mod 4 * 16 + byte y div 16) #
     (byte y mod 16 * 4 + byte z div 64) # byte z mod 64 # b64_sextets s"

fun b64_bytes :: "nat list \<Rightarrow> string option" where
  "b64_bytes [] = Some []"
| "b64_bytes [a] = None"
| "b64_bytes [a, b] = Some [char_of (a * 4 + b div 16)]"
| "b64_bytes [a, b, c] = Some [char_of (a * 4 + b div 16), char_of (b mod 16 * 16 + c div 4)]"
| "b64_bytes (a # b # c # d # s) =
     map_option (\<lambda>r. char_of (a * 4 + b div 16) # char_of (b mod 16 * 16 + c div 4) #
                     char_of (c mod 4 * 64 + d) # r) (b64_bytes s)"

fun all_some :: "'a option list \<Rightarrow> 'a list option" where
  "all_some [] = Some []"
| "all_some (None # xs) = None"
| "all_some (Some x # xs) = map_option (Cons x) (all_some xs)"

definition b64_encode :: "b64_alphabet \<Rightarrow> string \<Rightarrow> string" where
  "b64_encode a s = map (b64_char a) (b64_sextets s)"

definition b64_decode :: "b64_alphabet \<Rightarrow> string \<Rightarrow> string option" where
  "b64_decode a s =
     Option.bind (all_some (map (b64_value a) (filter (\<lambda>c. byte c \<noteq> 13 \<and> byte c \<noteq> 10) s))) b64_bytes"

lemma byte_div: "byte c div 4 < 64" "byte c div 16 < 16" "byte c div 64 < 4"
  by (simp_all add: less_mult_imp_div_less)

lemma pack_mod:
  fixes m k :: nat
  shows "k < 16 \<Longrightarrow> (m * 16 + k) div 16 = m" "k < 16 \<Longrightarrow> (m * 16 + k) mod 16 = k"
    "k < 4 \<Longrightarrow> (m * 4 + k) div 4 = m" "k < 4 \<Longrightarrow> (m * 4 + k) mod 4 = k"
  by auto

lemma pack_less:
  fixes m k :: nat
  shows "k < 16 \<Longrightarrow> m mod 4 * 16 + k < 64" "k < 4 \<Longrightarrow> m mod 16 * 4 + k < 64"
    "m mod 4 * 16 < 64" "m mod 16 * 4 < 64"
proof -
  have "m mod 4 < 4" "m mod 16 < 16" by simp_all
  then show "k < 16 \<Longrightarrow> m mod 4 * 16 + k < 64" "k < 4 \<Longrightarrow> m mod 16 * 4 + k < 64"
    "m mod 4 * 16 < 64" "m mod 16 * 4 < 64" by linarith+
qed

lemma b64_sextets_less: "\<forall>n \<in> set (b64_sextets s). n < 64"
  by (induction s rule: b64_sextets.induct) (simp_all add: byte_div pack_less)

lemma b64_bytes_sextets: "b64_bytes (b64_sextets s) = Some s"
  by (induction s rule: b64_sextets.induct) (simp_all add: byte_div pack_mod)

lemma byte_b64_char:
  "n < 64 \<Longrightarrow> byte (b64_char a n) =
     (if n < 26 then 65 + n else if n < 52 then 71 + n else if n < 62 then n - 4
      else if n = 62 then (case a of Url \<Rightarrow> 45 | Std \<Rightarrow> 43)
      else (case a of Url \<Rightarrow> 95 | Std \<Rightarrow> 47))"
  by (cases a) (auto simp: b64_char_def byte_char_of simp del: of_char_of)

lemma b64_value_char:
  assumes "n < 64"
  shows "b64_value a (b64_char a n) = Some n"
proof -
  consider "n < 26" | "26 \<le> n" "n < 52" | "52 \<le> n" "n < 62" | "n = 62" | "n = 63"
    using assms by linarith
  then show ?thesis
  proof cases
    case 3
    then have "byte (b64_char a n) = n - 4" "48 \<le> n - 4" "n - 4 \<le> 57"
      using byte_b64_char [OF assms, of a] by auto
    with 3 show ?thesis
      by (simp add: b64_value_def is_upper_def is_lower_def is_digit_def in_range_def)
  next
    case 4
    then show ?thesis
      by (cases a) (simp_all add: b64_value_def b64_char_def char_class_defs)
  next
    case 5
    then show ?thesis
      by (cases a) (simp_all add: b64_value_def b64_char_def char_class_defs)
  qed (use byte_b64_char [OF assms, of a] in
      \<open>simp_all add: b64_value_def is_upper_def is_lower_def is_digit_def in_range_def\<close>)
qed

lemma b64_char_graphic: "n < 64 \<Longrightarrow> graphic (b64_char a n) \<and> b64_char a n \<noteq> CHR ''.''"
  using byte_b64_char [of n a]
  by (cases a) (auto simp: graphic_def in_range_def char_eq_byte simp del: of_char_eq_iff split: if_splits)

lemma all_some_map: "(\<And>x. x \<in> set xs \<Longrightarrow> f x = Some (g x)) \<Longrightarrow> all_some (map f xs) = Some (map g xs)"
  by (induction xs) auto

lemma b64_encode_chars: "c \<in> set (b64_encode a s) \<Longrightarrow> graphic c \<and> c \<noteq> CHR ''.''"
  using b64_sextets_less b64_char_graphic by (auto simp: b64_encode_def)

theorem b64_roundtrip: "b64_decode a (b64_encode a s) = Some s"
proof -
  have "filter (\<lambda>c. byte c \<noteq> 13 \<and> byte c \<noteq> 10) (b64_encode a s) = b64_encode a s"
    by (rule filter_True) (auto simp: graphic_def in_range_def dest!: b64_encode_chars)
  moreover have "all_some (map (b64_value a) (b64_encode a s)) = Some (map id (b64_sextets s))"
    unfolding b64_encode_def map_map
    by (rule all_some_map) (use b64_sextets_less b64_value_char in auto)
  ultimately show ?thesis by (simp add: b64_decode_def b64_bytes_sextets)
qed

lemma length_b64_encode: "length (b64_encode a s) = (length s * 4 + 2) div 3"
proof -
  have "length (b64_sextets s) = (length s * 4 + 2) div 3"
    by (induction s rule: b64_sextets.induct) auto
  then show ?thesis by (simp add: b64_encode_def)
qed

section \<open>UTF-8\<close>

text \<open>
  \<open>utf8.DecodeRune\<close>: the first code point and its width, \<open>(65533, 1)\<close> where the bytes
  are not the shortest encoding of a scalar value, \<open>(65533, 0)\<close> on the empty string.
\<close>

definition continuation :: "char \<Rightarrow> bool" where
  "continuation = in_range 128 191"

fun decode_rune :: "string \<Rightarrow> nat \<times> nat" where
  "decode_rune [] = (65533, 0)"
| "decode_rune (a # s) =
     (let n = byte a in
      if n < 128 then (n, 1)
      else if 194 \<le> n \<and> n \<le> 223 then
        (case s of
           b # _ \<Rightarrow> if continuation b then ((n - 192) * 64 + (byte b - 128), 2) else (65533, 1)
         | _ \<Rightarrow> (65533, 1))
      else if 224 \<le> n \<and> n \<le> 239 then
        (case s of
           b # c # _ \<Rightarrow>
             if in_range (if n = 224 then 160 else 128) (if n = 237 then 159 else 191) b \<and> continuation c
             then ((n - 224) * 4096 + (byte b - 128) * 64 + (byte c - 128), 3) else (65533, 1)
         | _ \<Rightarrow> (65533, 1))
      else if 240 \<le> n \<and> n \<le> 244 then
        (case s of
           b # c # d # _ \<Rightarrow>
             if in_range (if n = 240 then 144 else 128) (if n = 244 then 143 else 191) b \<and>
                continuation c \<and> continuation d
             then ((n - 240) * 262144 + (byte b - 128) * 4096 + (byte c - 128) * 64 + (byte d - 128), 4)
             else (65533, 1)
         | _ \<Rightarrow> (65533, 1))
      else (65533, 1))"

definition encode_rune :: "nat \<Rightarrow> string" where
  "encode_rune r =
     (if r < 128 then [char_of r]
      else if r < 2048 then [char_of (192 + r div 64), char_of (128 + r mod 64)]
      else if (55296 \<le> r \<and> r \<le> 57343) \<or> 1114111 < r then map char_of [239, 191, 189 :: nat]
      else if r < 65536 then
        [char_of (224 + r div 4096), char_of (128 + r div 64 mod 64), char_of (128 + r mod 64)]
      else
        [char_of (240 + r div 262144), char_of (128 + r div 4096 mod 64),
         char_of (128 + r div 64 mod 64), char_of (128 + r mod 64)])"

lemma decode_rune_width: "s \<noteq> [] \<Longrightarrow> 1 \<le> snd (decode_rune s) \<and> snd (decode_rune s) \<le> length s"
  by (cases s) (auto simp: Let_def split: list.splits)

function runes :: "string \<Rightarrow> (nat \<times> nat) list" where
  "runes s = (if s = [] then [] else decode_rune s # runes (drop (snd (decode_rune s)) s))"
  by pat_completeness auto
termination
  using decode_rune_width by (relation "measure length") (auto simp: Suc_le_eq)

declare runes.simps [simp del]

lemma runes_Nil [simp]: "runes [] = []"
  by (subst runes.simps) simp

lemma runes_Cons: "runes (a # s) = decode_rune (a # s) # runes (drop (snd (decode_rune (a # s)) - 1) s)"
  using decode_rune_width [of "a # s"]
  by (subst runes.simps) (simp add: drop_Cons' del: decode_rune.simps)

text \<open>\<open>utf8.Valid\<close> and \<open>strings.Map\<close> (for a mapping that drops no code point).\<close>

definition utf8_valid :: "string \<Rightarrow> bool" where
  "utf8_valid s \<longleftrightarrow> list_all (\<lambda>r. r \<noteq> (65533, 1)) (runes s)"

definition map_runes :: "(nat \<Rightarrow> nat) \<Rightarrow> string \<Rightarrow> string" where
  "map_runes f s = concat (map (\<lambda>r. encode_rune (f (fst r))) (runes s))"

text \<open>
  \<open>utf8.DecodeLastRune\<close>, of which the width is used: the last byte that does not continue
  an encoding, among the last four, must start one that ends at the end of the string.
\<close>

definition last_rune_width :: "string \<Rightarrow> nat" where
  "last_rune_width s =
     (if s = [] then 0
      else
        let back = length (takeWhile continuation (take 3 (rev s)));
            k = back + 1 in
        if k \<le> length s \<and> \<not> continuation (s ! (length s - k)) \<and>
           snd (decode_rune (drop (length s - k) s)) = k
        then k else 1)"

lemma last_rune_width_pos: "s \<noteq> [] \<Longrightarrow> 1 \<le> last_rune_width s \<and> last_rune_width s \<le> length s"
  by (cases s) (auto simp: last_rune_width_def Let_def Suc_le_eq)

section \<open>Paths and URLs\<close>

definition after_last :: "char \<Rightarrow> string \<Rightarrow> string" where
  "after_last c s = rev (takeWhile (\<lambda>x. x \<noteq> c) (rev s))"

definition path_base :: "string \<Rightarrow> string" where
  "path_base p =
     (if p = [] then ''.''
      else let t = trim_right_char CHR ''/'' p in
        if after_last CHR ''/'' t = [] then ''/'' else after_last CHR ''/'' t)"

definition path_unescaped :: "char \<Rightarrow> bool" where
  "path_unescaped c \<longleftrightarrow> is_alnum c \<or> c \<in> set ''-_.~$&+=:@''"

definition hex_upper :: "nat \<Rightarrow> char" where
  "hex_upper n = (if n < 10 then char_of (48 + n) else char_of (55 + n))"

definition path_escape :: "string \<Rightarrow> string" where
  "path_escape s =
     concat (map (\<lambda>c. if path_unescaped c then [c]
                      else [CHR ''%'', hex_upper (byte c div 16), hex_upper (byte c mod 16)]) s)"

lemma after_last_notin: "c \<notin> set (after_last c s)"
  by (auto simp: after_last_def dest: set_takeWhileD)

lemma after_last_self: "c \<notin> set s \<Longrightarrow> after_last c s = s"
proof -
  assume "c \<notin> set s"
  then have *: "takeWhile (\<lambda>x. x \<noteq> c) (rev s) = rev s"
    by (subst takeWhile_eq_all_conv) auto
  show ?thesis unfolding after_last_def * by simp
qed

lemma path_base_neq_Nil: "path_base p \<noteq> []"
  by (simp add: path_base_def Let_def)

lemma path_base_slash: "CHR ''/'' \<in> set (path_base p) \<Longrightarrow> path_base p = ''/''"
  using after_last_notin by (auto simp: path_base_def Let_def split: if_splits)

section \<open>Identifier patterns\<close>

text \<open>
  Matchers for the anchored patterns. All classes are ASCII, so matching code points is
  matching bytes.
\<close>

definition party_char :: "char \<Rightarrow> bool" where
  "party_char c \<longleftrightarrow> is_alnum c \<or> c \<in> set ''._-''"

definition slug_char :: "char \<Rightarrow> bool" where
  "slug_char c \<longleftrightarrow> is_lower c \<or> is_digit c \<or> c = CHR ''-''"

text \<open>\<open>[A-Za-z0-9][A-Za-z0-9._-]{0,127}\<close>\<close>

definition match_party :: "string \<Rightarrow> bool" where
  "match_party s \<longleftrightarrow>
     (case s of [] \<Rightarrow> False | c # t \<Rightarrow> is_alnum c \<and> length t \<le> 127 \<and> list_all party_char t)"

text \<open>\<open>[a-z][a-z0-9-]{m,n}\<close>\<close>

definition match_slug :: "nat \<Rightarrow> nat \<Rightarrow> string \<Rightarrow> bool" where
  "match_slug m n s \<longleftrightarrow>
     (case s of [] \<Rightarrow> False
      | c # t \<Rightarrow> is_lower c \<and> m \<le> length t \<and> length t \<le> n \<and> list_all slug_char t)"

text \<open>Dotted sequences of \<open>lo\<close> to \<open>hi\<close> segments \<open>[a-z][a-z0-9-]{0,62}\<close>.\<close>

definition match_dotted :: "nat \<Rightarrow> nat \<Rightarrow> string \<Rightarrow> bool" where
  "match_dotted lo hi s \<longleftrightarrow>
     (let ps = split_on CHR ''.'' s in
      lo \<le> length ps \<and> length ps \<le> hi \<and> list_all (match_slug 0 62) ps)"

lemma match_dotted_mono: "match_dotted lo hi s \<Longrightarrow> lo' \<le> lo \<Longrightarrow> hi \<le> hi' \<Longrightarrow> match_dotted lo' hi' s"
  by (auto simp: match_dotted_def Let_def)

lemma match_party_neq_Nil: "match_party s \<Longrightarrow> s \<noteq> []"
  by (auto simp: match_party_def)

lemma alnum_graphic: "is_alnum c \<Longrightarrow> graphic c"
  by (auto simp: char_class_defs graphic_def)

lemma party_char_graphic: "party_char c \<Longrightarrow> graphic c"
  using alnum_graphic by (auto simp: party_char_def graphic_def in_range_def)

lemma match_party_ascii: "match_party s \<Longrightarrow> list_all graphic s"
  using alnum_graphic party_char_graphic
  by (auto simp: match_party_def list_all_iff split: list.splits)

end
