(* ===== verification/Iam_Store.thy ===== *)
theory Iam_Store
  imports Go_Encoding
begin

text \<open>
  \<open>apps/iam/internal/store/postgres\<close>: the tables of IAM and the statements on them, one
  function per method of \<open>Store\<close>. A table is the list of its rows; \<open>t\<close> is \<open>now()\<close> of the
  database; \<open>nid\<close> is the identifier the database generates. \<open>inet\<close> parses an address to its
  canonical form, and a statement given one that does not parse fails. A failed statement, for
  whatever reason, is \<open>None\<close>; whether it fails for a reason of its own (a connection, an
  identifier that is no UUID) is a flag of the operation that runs it.
\<close>

section \<open>Rows\<close>

record owner =
  ow_id :: string
  ow_username :: string
  ow_normalized :: string
  ow_display :: string
  ow_password :: string
  ow_totp_cipher :: string
  ow_totp_nonce :: string
  ow_active :: bool

record bootstrap_token =
  bt_hash :: string
  bt_expires :: instant
  bt_consumed :: "instant option"

record pending_setup =
  su_id :: string
  su_token :: string
  su_username :: string
  su_normalized :: string
  su_display :: string
  su_password :: string
  su_totp_cipher :: string
  su_totp_nonce :: string
  su_expires :: instant

record session_row =
  sn_id :: string
  sn_owner :: string
  sn_token :: string
  sn_csrf :: string
  sn_methods :: "string list"
  sn_authenticated :: instant
  sn_created :: instant
  sn_seen :: instant
  sn_idle :: instant
  sn_absolute :: instant
  sn_revoked :: "instant option"
  sn_ip :: string
  sn_agent :: string

record api_key =
  ak_id :: string
  ak_owner :: string
  ak_name :: string
  ak_kind :: string
  ak_token :: string
  ak_scopes :: "string list"
  ak_expires :: "instant option"
  ak_revoked :: "instant option"
  ak_created :: instant
  ak_used :: "instant option"

record share =
  sh_id :: string
  sh_owner :: string
  sh_token :: string
  sh_type :: string
  sh_service :: string
  sh_resource_type :: string
  sh_resource :: string
  sh_actions :: "string list"
  sh_expires :: instant
  sh_max :: "int option"
  sh_uses :: int
  sh_revoked :: "instant option"
  sh_created :: instant

record passkey =
  wk_id :: string
  wk_owner :: string
  wk_name :: string
  wk_cipher :: string
  wk_nonce :: string
  wk_created :: instant
  wk_used :: "instant option"

record ceremony =
  ce_token :: string
  ce_owner :: "string option"
  ce_kind :: string
  ce_cipher :: string
  ce_nonce :: string
  ce_expires :: instant

record audit_event =
  au_type :: string
  au_outcome :: string
  au_ip :: string
  au_details :: "(string \<times> string) list"
  au_created :: instant

record iam_db =
  ia_owners :: "owner list"
  ia_bootstrap :: "bootstrap_token list"
  ia_setups :: "pending_setup list"
  ia_sessions :: "session_row list"
  ia_keys :: "api_key list"
  ia_shares :: "share list"
  ia_audit :: "audit_event list"
  ia_passkeys :: "passkey list"
  ia_ceremonies :: "ceremony list"

definition empty_iam :: iam_db where
  "empty_iam = \<lparr>ia_owners = [], ia_bootstrap = [], ia_setups = [], ia_sessions = [], ia_keys = [], ia_shares = [],
     ia_audit = [], ia_passkeys = [], ia_ceremonies = []\<rparr>"

type_synonym inet = "string \<Rightarrow> string option"

section \<open>Owner and set-up\<close>

definition owner_exists :: "iam_db \<Rightarrow> bool" where
  "owner_exists d = list_ex ow_active (ia_owners d)"

definition get_owner_by_username :: "string \<Rightarrow> iam_db \<Rightarrow> owner option" where
  "get_owner_by_username u d = List.find (\<lambda>o'. ow_normalized o' = u \<and> ow_active o') (ia_owners d)"

definition active_owner :: "string \<Rightarrow> iam_db \<Rightarrow> owner option" where
  "active_owner oid d = List.find (\<lambda>o'. ow_id o' = oid \<and> ow_active o') (ia_owners d)"

definition insert_bootstrap :: "instant \<Rightarrow> string \<Rightarrow> iam_db \<Rightarrow> iam_db" where
  "insert_bootstrap t h d =
     (if h \<in> bt_hash ` set (ia_bootstrap d) then d
      else d\<lparr>ia_bootstrap := ia_bootstrap d @ [\<lparr>bt_hash = h, bt_expires = t + 168 * hour, bt_consumed = None\<rparr>]\<rparr>)"

definition validate_bootstrap_token :: "instant \<Rightarrow> string \<Rightarrow> iam_db \<Rightarrow> bool" where
  "validate_bootstrap_token t h d \<longleftrightarrow>
     list_ex (\<lambda>b. bt_hash b = h \<and> bt_consumed b = None \<and> bt_expires b > t) (ia_bootstrap d) \<and> \<not> owner_exists d"

definition insert_pending_setup :: "pending_setup \<Rightarrow> iam_db \<Rightarrow> iam_db option" where
  "insert_pending_setup s d =
     (if su_id s \<in> su_id ` set (ia_setups d) \<or> su_token s \<notin> bt_hash ` set (ia_bootstrap d) then None
      else Some (d\<lparr>ia_setups := ia_setups d @ [s]\<rparr>))"

definition get_pending_setup :: "instant \<Rightarrow> string \<Rightarrow> iam_db \<Rightarrow> pending_setup option" where
  "get_pending_setup t sid d = List.find (\<lambda>s. su_id s = sid \<and> su_expires s > t) (ia_setups d)"

definition username_char :: "char \<Rightarrow> bool" where
  "username_char c \<longleftrightarrow> is_alnum c \<or> c \<in> set ''_.-''"

definition match_username :: "string \<Rightarrow> bool" where
  "match_username s \<longleftrightarrow> 3 \<le> length s \<and> length s \<le> 64 \<and> list_all username_char s"

definition create_owner :: "string \<Rightarrow> pending_setup \<Rightarrow> iam_db \<Rightarrow> (owner \<times> iam_db) option" where
  "create_owner nid s d =
     (let o' = \<lparr>ow_id = nid, ow_username = su_username s, ow_normalized = su_normalized s, ow_display = su_display s,
                ow_password = su_password s, ow_totp_cipher = su_totp_cipher s, ow_totp_nonce = su_totp_nonce s,
                ow_active = True\<rparr> in
      if nid \<in> ow_id ` set (ia_owners d) \<or> su_username s \<in> ow_username ` set (ia_owners d) \<or>
         su_normalized s \<in> ow_normalized ` set (ia_owners d) \<or> \<not> match_username (su_username s)
      then None else Some (o', d\<lparr>ia_owners := ia_owners d @ [o']\<rparr>))"

definition consume_bootstrap_token :: "instant \<Rightarrow> string \<Rightarrow> iam_db \<Rightarrow> iam_db" where
  "consume_bootstrap_token t h d =
     d\<lparr>ia_bootstrap := map (\<lambda>b. if bt_hash b = h \<and> bt_consumed b = None then b\<lparr>bt_consumed := Some t\<rparr> else b)
         (ia_bootstrap d)\<rparr>"

definition delete_pending_setup :: "string \<Rightarrow> iam_db \<Rightarrow> iam_db" where
  "delete_pending_setup sid d = d\<lparr>ia_setups := filter (\<lambda>s. su_id s \<noteq> sid) (ia_setups d)\<rparr>"

section \<open>Sessions\<close>

definition create_session_row ::
  "inet \<Rightarrow> instant \<Rightarrow> string \<Rightarrow> string \<Rightarrow> string \<Rightarrow> string \<Rightarrow> string list \<Rightarrow> instant \<Rightarrow> duration \<Rightarrow> duration \<Rightarrow>
   string \<Rightarrow> string \<Rightarrow> iam_db \<Rightarrow> iam_db option" where
  "create_session_row inet t nid oid token csrf methods now idle absolute ip agent d =
     (case inet ip of
        None \<Rightarrow> None
      | Some addr \<Rightarrow>
          if nid \<in> sn_id ` set (ia_sessions d) \<or> token \<in> sn_token ` set (ia_sessions d) \<or>
             oid \<notin> ow_id ` set (ia_owners d)
          then None
          else Some (d\<lparr>ia_sessions := ia_sessions d @
            [\<lparr>sn_id = nid, sn_owner = oid, sn_token = token, sn_csrf = csrf, sn_methods = methods,
              sn_authenticated = db_time now, sn_created = t, sn_seen = db_time now,
              sn_idle = db_time (now + idle), sn_absolute = db_time (now + absolute), sn_revoked = None,
              sn_ip = addr, sn_agent = agent\<rparr>]\<rparr>))"

definition session_live :: "instant \<Rightarrow> iam_db \<Rightarrow> session_row \<Rightarrow> bool" where
  "session_live t d s \<longleftrightarrow> sn_revoked s = None \<and> sn_idle s > t \<and> sn_absolute s > t \<and> active_owner (sn_owner s) d \<noteq> None"

text \<open>The sliding window: thirty days from the last use, never past the absolute end.\<close>

definition touch_session :: "instant \<Rightarrow> session_row \<Rightarrow> session_row" where
  "touch_session t s = s\<lparr>sn_seen := t, sn_idle := min (t + 30 * day) (sn_absolute s)\<rparr>"

definition authenticate_session ::
  "instant \<Rightarrow> string \<Rightarrow> iam_db \<Rightarrow> (string \<times> string \<times> string \<times> string) option \<times> iam_db" where
  "authenticate_session t h d =
     (case List.find (\<lambda>s. sn_token s = h \<and> session_live t d s) (ia_sessions d) of
        None \<Rightarrow> (None, d)
      | Some s \<Rightarrow>
          (case active_owner (sn_owner s) d of
             None \<Rightarrow> (None, d)
           | Some o' \<Rightarrow>
               (Some (ow_id o', ow_username o', ow_display o', sn_id s),
                d\<lparr>ia_sessions := map (\<lambda>x. if sn_token x = h \<and> session_live t d x then touch_session t x else x)
                    (ia_sessions d)\<rparr>)))"

definition validate_csrf_row :: "instant \<Rightarrow> string \<Rightarrow> string \<Rightarrow> iam_db \<Rightarrow> bool" where
  "validate_csrf_row t h c d = list_ex (\<lambda>s. sn_token s = h \<and> sn_csrf s = c \<and> session_live t d s) (ia_sessions d)"

definition revoke_sessions_where :: "instant \<Rightarrow> (session_row \<Rightarrow> bool) \<Rightarrow> iam_db \<Rightarrow> nat \<times> iam_db" where
  "revoke_sessions_where t P d =
     (length (filter (\<lambda>s. P s \<and> sn_revoked s = None) (ia_sessions d)),
      d\<lparr>ia_sessions := map (\<lambda>s. if P s \<and> sn_revoked s = None then s\<lparr>sn_revoked := Some t\<rparr> else s) (ia_sessions d)\<rparr>)"

definition revoke_session :: "instant \<Rightarrow> string \<Rightarrow> iam_db \<Rightarrow> iam_db" where
  "revoke_session t h d = snd (revoke_sessions_where t (\<lambda>s. sn_token s = h) d)"

definition revoke_session_by_id :: "instant \<Rightarrow> string \<Rightarrow> string \<Rightarrow> iam_db \<Rightarrow> bool \<times> iam_db" where
  "revoke_session_by_id t oid sid d =
     (case revoke_sessions_where t (\<lambda>s. sn_id s = sid \<and> sn_owner s = oid) d of (n, d') \<Rightarrow> (n > 0, d'))"

definition revoke_other_sessions :: "instant \<Rightarrow> string \<Rightarrow> string \<Rightarrow> iam_db \<Rightarrow> nat \<times> iam_db" where
  "revoke_other_sessions t oid sid d = revoke_sessions_where t (\<lambda>s. sn_owner s = oid \<and> sn_id s \<noteq> sid) d"

definition list_sessions :: "string \<Rightarrow> iam_db \<Rightarrow> session_row list" where
  "list_sessions oid d = rev (sort_key sn_created (filter (\<lambda>s. sn_owner s = oid) (ia_sessions d)))"

section \<open>API keys\<close>

definition create_api_key_row ::
  "instant \<Rightarrow> string \<Rightarrow> string \<Rightarrow> string \<Rightarrow> string \<Rightarrow> string \<Rightarrow> string list \<Rightarrow> instant option \<Rightarrow> iam_db \<Rightarrow> iam_db option" where
  "create_api_key_row t nid oid name kind token scopes expires d =
     (if nid \<in> ak_id ` set (ia_keys d) \<or> token \<in> ak_token ` set (ia_keys d) \<or> oid \<notin> ow_id ` set (ia_owners d) \<or>
         kind \<notin> {''agent'', ''device'', ''service''} \<or>
         list_ex (\<lambda>k. ak_owner k = oid \<and> ak_name k = name \<and> ak_revoked k = None) (ia_keys d)
      then None
      else Some (d\<lparr>ia_keys := ia_keys d @
        [\<lparr>ak_id = nid, ak_owner = oid, ak_name = name, ak_kind = kind, ak_token = token, ak_scopes = scopes,
          ak_expires = map_option db_time expires, ak_revoked = None, ak_created = t, ak_used = None\<rparr>]\<rparr>))"

definition revoke_api_key_row :: "instant \<Rightarrow> string \<Rightarrow> string \<Rightarrow> iam_db \<Rightarrow> bool \<times> iam_db" where
  "revoke_api_key_row t oid kid d =
     (let P = (\<lambda>k. ak_id k = kid \<and> ak_owner k = oid \<and> ak_revoked k = None) in
      (list_ex P (ia_keys d), d\<lparr>ia_keys := map (\<lambda>k. if P k then k\<lparr>ak_revoked := Some t\<rparr> else k) (ia_keys d)\<rparr>))"

definition api_key_live :: "instant \<Rightarrow> iam_db \<Rightarrow> api_key \<Rightarrow> bool" where
  "api_key_live t d k \<longleftrightarrow> ak_revoked k = None \<and> (case ak_expires k of None \<Rightarrow> True | Some e \<Rightarrow> e > t) \<and>
     active_owner (ak_owner k) d \<noteq> None"

definition authenticate_api_key :: "instant \<Rightarrow> string \<Rightarrow> iam_db \<Rightarrow> api_key option \<times> iam_db" where
  "authenticate_api_key t h d =
     (let P = (\<lambda>k. ak_token k = h \<and> api_key_live t d k) in
      (List.find P (ia_keys d), d\<lparr>ia_keys := map (\<lambda>k. if P k then k\<lparr>ak_used := Some t\<rparr> else k) (ia_keys d)\<rparr>))"

definition list_api_keys :: "string \<Rightarrow> iam_db \<Rightarrow> api_key list" where
  "list_api_keys oid d = rev (sort_key ak_created (filter (\<lambda>k. ak_owner k = oid) (ia_keys d)))"

section \<open>Shares\<close>

text \<open>\<open>max_uses\<close> is a 32-bit column. That of \<open>use_count\<close> would overflow after as many redemptions.\<close>

definition create_share_row ::
  "instant \<Rightarrow> string \<Rightarrow> string \<Rightarrow> string \<Rightarrow> string \<Rightarrow> string \<Rightarrow> string \<Rightarrow> string \<Rightarrow> string list \<Rightarrow> instant \<Rightarrow> int option \<Rightarrow>
   iam_db \<Rightarrow> iam_db option" where
  "create_share_row t nid oid token ty service rtype resource actions expires max_uses d =
     (if nid \<in> sh_id ` set (ia_shares d) \<or> token \<in> sh_token ` set (ia_shares d) \<or> oid \<notin> ow_id ` set (ia_owners d) \<or>
         ty \<notin> {''service'', ''resource''} \<or> db_time expires \<le> t \<or>
         (case max_uses of None \<Rightarrow> False | Some m \<Rightarrow> m < - (2 ^ 31) \<or> 2 ^ 31 \<le> m)
      then None
      else Some (d\<lparr>ia_shares := ia_shares d @
        [\<lparr>sh_id = nid, sh_owner = oid, sh_token = token, sh_type = ty, sh_service = service, sh_resource_type = rtype,
          sh_resource = resource, sh_actions = actions, sh_expires = db_time expires, sh_max = max_uses, sh_uses = 0,
          sh_revoked = None, sh_created = t\<rparr>]\<rparr>))"

definition revoke_share_row :: "instant \<Rightarrow> string \<Rightarrow> string \<Rightarrow> iam_db \<Rightarrow> bool \<times> iam_db" where
  "revoke_share_row t oid sid d =
     (let P = (\<lambda>s. sh_id s = sid \<and> sh_owner s = oid \<and> sh_revoked s = None) in
      (list_ex P (ia_shares d), d\<lparr>ia_shares := map (\<lambda>s. if P s then s\<lparr>sh_revoked := Some t\<rparr> else s) (ia_shares d)\<rparr>))"

definition share_live :: "instant \<Rightarrow> share \<Rightarrow> bool" where
  "share_live t s \<longleftrightarrow> sh_revoked s = None \<and> sh_expires s > t \<and> (case sh_max s of None \<Rightarrow> True | Some m \<Rightarrow> sh_uses s < m)"

definition redeem_share_row :: "instant \<Rightarrow> string \<Rightarrow> iam_db \<Rightarrow> share option" where
  "redeem_share_row t h d = List.find (\<lambda>s. sh_token s = h \<and> share_live t s) (ia_shares d)"

definition increment_share_use :: "string \<Rightarrow> iam_db \<Rightarrow> iam_db" where
  "increment_share_use sid d =
     d\<lparr>ia_shares := map (\<lambda>s. if sh_id s = sid then s\<lparr>sh_uses := sh_uses s + 1\<rparr> else s) (ia_shares d)\<rparr>"

definition list_shares :: "string \<Rightarrow> iam_db \<Rightarrow> share list" where
  "list_shares oid d = rev (sort_key sh_created (filter (\<lambda>s. sh_owner s = oid) (ia_shares d)))"

section \<open>Audit\<close>

definition record_audit :: "inet \<Rightarrow> instant \<Rightarrow> string \<Rightarrow> string \<Rightarrow> string \<Rightarrow> (string \<times> string) list \<Rightarrow> iam_db \<Rightarrow> iam_db" where
  "record_audit inet t ty outcome ip details d =
     (case inet ip of
        None \<Rightarrow> d
      | Some addr \<Rightarrow>
          d\<lparr>ia_audit := ia_audit d @
            [\<lparr>au_type = ty, au_outcome = outcome, au_ip = addr, au_details = details, au_created = t\<rparr>]\<rparr>)"

text \<open>\<open>NULLIF($2,'')::inet\<close>: the empty address compares with nothing, an unparsable one fails.\<close>

definition login_failures :: "inet \<Rightarrow> instant \<Rightarrow> string \<Rightarrow> string \<Rightarrow> iam_db \<Rightarrow> nat option" where
  "login_failures inet t name_hash ip d =
     (let count = (\<lambda>addr. length (filter (\<lambda>a. au_type a = ''owner.login'' \<and> au_outcome a = ''denied'' \<and>
                     au_created a > t - 15 * minute \<and>
                     (map_of (au_details a) ''username_hash'' = Some name_hash \<or> Some (au_ip a) = addr)) (ia_audit d))) in
      if ip = [] then Some (count None)
      else case inet ip of None \<Rightarrow> None | Some addr \<Rightarrow> Some (count (Some addr)))"

end
