(* ===== verification/Webauthn.thy ===== *)
theory Webauthn
  imports Go_Encoding
begin

text \<open>
  What IAM uses of \<open>github.com/go-webauthn/webauthn\<close>. Its values are opaque but for the
  identifier of a credential; \<open>webauthn\<close> is one configured instance. The two \<open>wa_begin\<close>
  functions take the random challenge and answer the options for the browser with the data to
  keep until the ceremony is finished. The finishing functions take the time, the account, that
  data and the body of the request. \<open>FinishDiscoverableLogin\<close> is in two parts, as it calls back:
  \<open>wa_assertion\<close> is the raw identifier and the user handle it calls the handler with (\<open>None\<close>
  where it fails before), \<open>wa_verify_login\<close> what it answers for the account the handler gives.
\<close>

type_synonym wa_session = string

record wa_credential =
  wc_id :: string
  wc_data :: string

record wa_account =
  wa_id :: string
  wa_name :: string
  wa_display :: string
  wa_credentials :: "wa_credential list"

record webauthn =
  wa_begin_registration :: "wa_account \<Rightarrow> string \<Rightarrow> (string \<times> wa_session) option"
  wa_finish_registration :: "instant \<Rightarrow> wa_account \<Rightarrow> wa_session \<Rightarrow> string \<Rightarrow> wa_credential option"
  wa_begin_login :: "string \<Rightarrow> (string \<times> wa_session) option"
  wa_assertion :: "wa_session \<Rightarrow> string \<Rightarrow> (string \<times> string) option"
  wa_verify_login :: "instant \<Rightarrow> wa_account \<Rightarrow> wa_session \<Rightarrow> string \<Rightarrow> wa_credential option"

end
