(* ===== verification/Credentials.thy ===== *)
theory Credentials
  imports Webauthn "HOL-Library.Word" "HOL-Library.Signed_Division"
begin

text \<open>
  The text formats and algorithms of \<open>apps/iam/internal/humanauth/service.go\<close> that need no
  database: the password record, base32 (\<open>encoding/base32\<close>, unpadded) and the time-based
  one-time codes. \<open>iam_lib\<close> holds what the service calls without implementing it: SHA-256,
  HMAC-SHA1, AES-GCM under the service's key, Argon2id, the Unicode case tables, PostgreSQL's
  \<open>inet\<close> and \<open>uuid\<close> parsers (to canonical form), whether \<open>net.ParseIP\<close> accepts a text, and
  the JSON text of the WebAuthn library's two stored types.
\<close>

record iam_lib =
  il_sha256 :: "string \<Rightarrow> string"
  il_hmac_sha1 :: "string \<Rightarrow> string \<Rightarrow> string"
  il_argon :: "string \<Rightarrow> string \<Rightarrow> nat \<Rightarrow> nat \<Rightarrow> nat \<Rightarrow> nat \<Rightarrow> string option"
  il_seal :: "string \<Rightarrow> string \<Rightarrow> string"
  il_open :: "string \<Rightarrow> string \<Rightarrow> string option"
  il_lower :: "string \<Rightarrow> string"
  il_upper :: "string \<Rightarrow> string"
  il_inet :: "string \<Rightarrow> string option"
  il_parse_ip :: "string \<Rightarrow> bool"
  il_uuid :: "string \<Rightarrow> string option"
  il_credential_text :: "wa_credential \<Rightarrow> string option"
  il_credential_of :: "string \<Rightarrow> wa_credential option"
  il_session_text :: "wa_session \<Rightarrow> string option"
  il_session_of :: "string \<Rightarrow> wa_session option"

text \<open>
  The documented behaviour of the first five: \<open>argon2.IDKey\<close> (\<open>None\<close> is its panic on a
  zero cost) returns as many bytes as asked for, what \<open>Seal\<close> made \<open>Open\<close> opens, and
  HMAC-SHA1 is twenty bytes long.
\<close>

definition argon_law :: "iam_lib \<Rightarrow> bool" where
  "argon_law L \<longleftrightarrow> (\<forall>pw salt. \<exists>k. il_argon L pw salt 3 65536 2 32 = Some k \<and> length k = 32)"

definition seal_law :: "iam_lib \<Rightarrow> bool" where
  "seal_law L \<longleftrightarrow> (\<forall>n p. il_open L n (il_seal L n p) = Some p)"

definition hmac_law :: "iam_lib \<Rightarrow> bool" where
  "hmac_law L \<longleftrightarrow> (\<forall>k m. length (il_hmac_sha1 L k m) = 20)"

section \<open>Base32 without padding\<close>

definition b32_char :: "nat \<Rightarrow> char" where
  "b32_char n = (if n < 26 then char_of (65 + n) else char_of (24 + n))"

definition b32_value :: "char \<Rightarrow> nat option" where
  "b32_value c = (if is_upper c then Some (byte c - 65)
                  else if in_range 50 55 c then Some (byte c - 24) else None)"

fun b32_quintets :: "string \<Rightarrow> nat list" where
  "b32_quintets [] = []"
| "b32_quintets [v] = [byte v div 8, byte v mod 8 * 4]"
| "b32_quintets [v, w] =
     [byte v div 8, byte v mod 8 * 4 + byte w div 64, byte w div 2 mod 32, byte w mod 2 * 16]"
| "b32_quintets [v, w, x] =
     [byte v div 8, byte v mod 8 * 4 + byte w div 64, byte w div 2 mod 32, byte w mod 2 * 16 + byte x div 16,
      byte x mod 16 * 2]"
| "b32_quintets [v, w, x, y] =
     [byte v div 8, byte v mod 8 * 4 + byte w div 64, byte w div 2 mod 32, byte w mod 2 * 16 + byte x div 16,
      byte x mod 16 * 2 + byte y div 128, byte y div 4 mod 32, byte y mod 4 * 8]"
| "b32_quintets (v # w # x # y # z # s) =
     byte v div 8 # (byte v mod 8 * 4 + byte w div 64) # byte w div 2 mod 32 # (byte w mod 2 * 16 + byte x div 16) #
     (byte x mod 16 * 2 + byte y div 128) # byte y div 4 mod 32 # (byte y mod 4 * 8 + byte z div 32) #
     byte z mod 32 # b32_quintets s"

text \<open>The decoder drops a last group of one, three or six characters without an error.\<close>

definition b32_byte :: "nat \<Rightarrow> nat list \<Rightarrow> char" where
  "b32_byte i q = char_of
     (if i = 0 then q ! 0 * 8 + q ! 1 div 4
      else if i = 1 then q ! 1 mod 4 * 64 + q ! 2 * 2 + q ! 3 div 16
      else if i = 2 then q ! 3 mod 16 * 16 + q ! 4 div 2
      else if i = 3 then q ! 4 mod 2 * 128 + q ! 5 * 4 + q ! 6 div 8
      else q ! 6 mod 8 * 32 + q ! 7)"

fun b32_bytes :: "nat list \<Rightarrow> string" where
  "b32_bytes (a # b # c # d # e # f # g # h # s) =
     map (\<lambda>i. b32_byte i [a, b, c, d, e, f, g, h]) [0, 1, 2, 3, 4] @ b32_bytes s"
| "b32_bytes q = map (\<lambda>i. b32_byte i q)
     (if length q = 7 then [0, 1, 2, 3] else if length q = 5 then [0, 1, 2] else if length q = 4 then [0, 1]
      else if length q = 2 then [0] else [])"

definition b32_encode :: "string \<Rightarrow> string" where
  "b32_encode s = map b32_char (b32_quintets s)"

definition b32_decode :: "string \<Rightarrow> string option" where
  "b32_decode s =
     map_option b32_bytes (all_some (map b32_value (filter (\<lambda>c. byte c \<noteq> 13 \<and> byte c \<noteq> 10) s)))"

lemma b32_quintets_less: "\<forall>n \<in> set (b32_quintets s). n < 32"
proof -
  have "byte c div 8 < 32" "byte c div 64 < 4" "byte c div 16 < 16" "byte c div 128 < 2" "byte c div 32 < 8"
    for c :: char by (simp_all add: less_mult_imp_div_less)
  moreover have "m mod 8 * 4 + k < 32" if "k < 4" for m k :: nat using that mod_less_divisor [of 8 m] by linarith
  moreover have "m mod 2 * 16 + k < 32" if "k < 16" for m k :: nat using that mod_less_divisor [of 2 m] by linarith
  moreover have "m mod 16 * 2 + k < 32" if "k < 2" for m k :: nat using that mod_less_divisor [of 16 m] by linarith
  moreover have "m mod 4 * 8 + k < 32" if "k < 8" for m k :: nat using that mod_less_divisor [of 4 m] by linarith
  moreover have "m mod 8 * 4 < 32" "m mod 2 * 16 < 32" "m mod 16 * 2 < 32" "m mod 4 * 8 < 32" for m :: nat
    using mod_less_divisor [of 8 m] mod_less_divisor [of 2 m] mod_less_divisor [of 16 m] mod_less_divisor [of 4 m]
    by linarith+
  ultimately show ?thesis
    by (induction s rule: b32_quintets.induct) (simp_all del: mod_mult_self1 mod_mult_self2)
qed

lemma b32_unpack:
  fixes m k :: nat
  shows "k < 4 \<Longrightarrow> (m * 4 + k) div 4 = m" "k < 4 \<Longrightarrow> (m * 4 + k) mod 4 = k"
    "k < 16 \<Longrightarrow> (m * 16 + k) div 16 = m" "k < 16 \<Longrightarrow> (m * 16 + k) mod 16 = k"
    "k < 2 \<Longrightarrow> (m * 2 + k) div 2 = m" "k < 2 \<Longrightarrow> (m * 2 + k) mod 2 = k"
    "k < 8 \<Longrightarrow> (m * 8 + k) div 8 = m" "k < 8 \<Longrightarrow> (m * 8 + k) mod 8 = k"
  by auto

lemma b32_join:
  "byte c div 64 * 64 + byte c div 2 mod 32 * 2 + byte c mod 2 = byte c"
  "byte c div 128 * 128 + byte c div 4 mod 32 * 4 + byte c mod 4 = byte c"
proof -
  have "n div (b * 32) * (b * 32) + n div b mod 32 * b + n mod b = n" for n b :: nat
  proof -
    have "n div (b * 32) * 32 + n div b mod 32 = n div b"
      unfolding div_mult2_eq by (rule div_mult_mod_eq)
    then have "n div (b * 32) * 32 * b + n div b mod 32 * b = n div b * b"
      by (metis add_mult_distrib)
    then have "n div (b * 32) * (b * 32) + n div b mod 32 * b = n div b * b"
      by (simp only: mult.assoc mult.commute [of b])
    then show ?thesis by simp
  qed
  from this [of "byte c" 2] this [of "byte c" 4]
  show "byte c div 64 * 64 + byte c div 2 mod 32 * 2 + byte c mod 2 = byte c"
    "byte c div 128 * 128 + byte c div 4 mod 32 * 4 + byte c mod 4 = byte c" by simp_all
qed

lemma b32_small: "byte c div 64 < 4" "byte c div 16 < 16" "byte c div 128 < 2" "byte c div 32 < 8"
  by (simp_all add: less_mult_imp_div_less)

lemma b32_bytes_quintets: "b32_bytes (b32_quintets s) = s"
  by (induction s rule: b32_quintets.induct)
    (simp_all add: b32_byte_def b32_unpack b32_small b32_join)

lemma byte_b32_char: "n < 32 \<Longrightarrow> byte (b32_char n) = (if n < 26 then 65 + n else 24 + n)"
  by (auto simp: b32_char_def byte_char_of simp del: of_char_of)

lemma b32_value_char: "n < 32 \<Longrightarrow> b32_value (b32_char n) = Some n"
  using byte_b32_char [of n] by (auto simp: b32_value_def is_upper_def in_range_def)

lemma b32_encode_chars:
  assumes "c \<in> set (b32_encode s)"
  shows "is_upper c \<or> is_digit c"
proof -
  from assms obtain n where n: "n < 32" "c = b32_char n"
    using b32_quintets_less [of s] by (auto simp: b32_encode_def)
  then show ?thesis
    using byte_b32_char [OF n(1)] by (cases "n < 26") (simp_all add: is_upper_def is_digit_def in_range_def)
qed

lemma b32_roundtrip: "b32_decode (b32_encode s) = Some s"
proof -
  have "filter (\<lambda>c. byte c \<noteq> 13 \<and> byte c \<noteq> 10) (b32_encode s) = b32_encode s"
    by (rule filter_True) (auto simp: is_upper_def is_digit_def in_range_def dest!: b32_encode_chars)
  moreover have "all_some (map b32_value (b32_encode s)) = Some (map id (b32_quintets s))"
    unfolding b32_encode_def map_map
    by (rule all_some_map) (use b32_quintets_less b32_value_char in auto)
  ultimately show ?thesis by (simp add: b32_decode_def b32_bytes_quintets)
qed

section \<open>Passwords\<close>

definition ascii_upper :: "char \<Rightarrow> char" where
  "ascii_upper c = (if is_lower c then char_of (byte c - 32) else c)"

definition to_upper :: "(string \<Rightarrow> string) \<Rightarrow> string \<Rightarrow> string" where
  "to_upper uni s = (if list_all is_ascii s then map ascii_upper s else uni s)"

text \<open>\<open>None\<close> is the panic of \<open>argon2.IDKey\<close>; \<open>salt\<close> are the sixteen random bytes.\<close>

definition hash_password :: "iam_lib \<Rightarrow> string \<Rightarrow> string \<Rightarrow> string option" where
  "hash_password L password salt =
     map_option (\<lambda>key. ''$argon2id$v=19$m='' @ itoa 65536 @ '',t='' @ itoa 3 @ '',p='' @ itoa 2 @ ''$'' @
         b64_encode Std salt @ ''$'' @ b64_encode Std key)
       (il_argon L password salt 3 65536 2 32)"

text \<open>
  \<open>fmt.Sscanf(s, "m=%d,t=%d,p=%d", ...)\<close>: a number may be preceded by white space other than
  a line feed and by a sign; what follows the last number is not looked at.
\<close>

definition scan_int :: "string \<Rightarrow> (int \<times> string) option" where
  "scan_int s =
     (let t = strip_codes (filter (\<lambda>p. p \<noteq> [CHR 0x0A]) space_codes) s;
          sign = (case t of c # _ \<Rightarrow> if c = CHR ''-'' \<or> c = CHR ''+'' then [c] else [] | [] \<Rightarrow> []);
          ds = takeWhile is_digit (drop (length sign) t) in
      map_option (\<lambda>i. (i, drop (length sign + length ds) t)) (parse_int (sign @ ds)))"

definition scan_literal :: "string \<Rightarrow> string \<Rightarrow> string option" where
  "scan_literal p s = (if has_prefix p s then Some (drop (length p) s) else None)"

definition scan_costs :: "string \<Rightarrow> (int \<times> int \<times> int) option" where
  "scan_costs s =
     Option.bind (scan_literal ''m='' s) (\<lambda>s. Option.bind (scan_int s) (\<lambda>(m, s).
     Option.bind (scan_literal '',t='' s) (\<lambda>s. Option.bind (scan_int s) (\<lambda>(t, s).
     Option.bind (scan_literal '',p='' s) (\<lambda>s. Option.bind (scan_int s) (\<lambda>(p, s). Some (m, t, p)))))))"

definition verify_password :: "iam_lib \<Rightarrow> string \<Rightarrow> string \<Rightarrow> bool option" where
  "verify_password L password encoded =
     (let parts = split_on CHR ''$'' encoded in
      if length parts \<noteq> 6 \<or> parts ! 1 \<noteq> ''argon2id'' then Some False
      else case scan_costs (parts ! 3) of
        None \<Rightarrow> Some False
      | Some (m, t, p) \<Rightarrow>
          (case b64_decode Std (parts ! 4) of
             None \<Rightarrow> Some False
           | Some salt \<Rightarrow>
               (case b64_decode Std (parts ! 5) of
                  None \<Rightarrow> Some False
                | Some expected \<Rightarrow>
                    map_option (\<lambda>key. key = expected)
                      (il_argon L password salt (nat (t mod 2 ^ 32)) (nat (m mod 2 ^ 32)) (nat (p mod 2 ^ 8))
                        (nat (int (length expected) mod 2 ^ 32))))))"

lemma scan_int_itoa:
  assumes "0 \<le> i" "in_int64 i" and rest: "rest = [] \<or> \<not> is_digit (hd rest)"
  shows "scan_int (itoa i @ rest) = Some (i, rest)"
proof -
  have digits: "list_all is_digit (itoa i)"
    using assms(1) decimal_digits by (simp add: itoa_def)
  obtain c t where ct: "itoa i = c # t" by (cases "itoa i") (use itoa_neq_Nil in auto)
  have c: "is_digit c" "graphic c" using digits by (simp_all add: ct is_digit_def graphic_def in_range_def)
  have "strip_codes (filter (\<lambda>p. p \<noteq> [CHR 0x0A]) space_codes) (c # t @ rest) = c # t @ rest"
    by (rule strip_codes_keep) (use space_codes_hd c in auto)
  moreover have "takeWhile is_digit (itoa i @ rest) = itoa i"
    using digits rest by (cases rest) (auto simp: list_all_iff takeWhile_append2)
  ultimately show ?thesis
    using is_digit_not_sign [OF c(1)] parse_int_itoa [OF assms(2)] by (simp add: scan_int_def ct)
qed

definition costs_text :: string where
  "costs_text = ''m='' @ itoa 65536 @ '',t='' @ itoa 3 @ '',p='' @ itoa 2"

lemma scan_costs_text: "scan_costs costs_text = Some (65536, 3, 2)"
proof -
  have "in_int64 65536" "in_int64 3" "in_int64 2" by (simp_all add: in_int64_def)
  moreover have "\<not> is_digit CHR '',''" by (simp add: is_digit_def in_range_def)
  ultimately show ?thesis
    using scan_int_itoa [of 2 "[]"] by (simp add: scan_costs_def costs_text_def scan_literal_def scan_int_itoa has_prefix_iff)
qed

lemma costs_text_no_dollar: "CHR ''$'' \<notin> set costs_text"
proof -
  have "CHR ''$'' \<notin> set (itoa i)" for i
    using itoa_chars [of "CHR ''$''" i] by (auto simp: is_digit_def in_range_def)
  then show ?thesis by (simp add: costs_text_def)
qed

lemma b64_std_no_dollar: "CHR ''$'' \<notin> set (b64_encode Std s)"
proof
  assume "CHR ''$'' \<in> set (b64_encode Std s)"
  then obtain n where n: "n < 64" "b64_char Std n = CHR ''$''"
    using b64_sextets_less [of s] by (auto simp: b64_encode_def)
  then have "byte (b64_char Std n) = 36" by simp
  then show False using byte_b64_char [OF n(1), of Std] n(1) by (simp split: if_splits)
qed

lemma hash_password_parts:
  assumes "hash_password L password salt = Some encoded"
  obtains key where "il_argon L password salt 3 65536 2 32 = Some key"
    "split_on CHR ''$'' encoded = [[], ''argon2id'', ''v=19'', costs_text, b64_encode Std salt, b64_encode Std key]"
proof -
  from assms obtain key where key: "il_argon L password salt 3 65536 2 32 = Some key"
    and enc: "encoded = [] @ CHR ''$'' # ''argon2id'' @ CHR ''$'' # ''v=19'' @ CHR ''$'' # costs_text @ CHR ''$'' #
         b64_encode Std salt @ CHR ''$'' # b64_encode Std key"
    by (auto simp: hash_password_def costs_text_def)
  have "split_on CHR ''$'' encoded =
      [[], ''argon2id'', ''v=19'', costs_text, b64_encode Std salt, b64_encode Std key]"
    unfolding enc using b64_std_no_dollar costs_text_no_dollar
    by (subst split_on_append, simp)+ (simp add: split_on_none)
  with key that show thesis by blast
qed

text \<open>A stored hash accepts exactly the passwords that derive the same key under its salt.\<close>

lemma verify_hash_password:
  assumes "hash_password L password salt = Some encoded" and "argon_law L"
  shows "verify_password L attempt encoded =
    Some (il_argon L attempt salt 3 65536 2 32 = il_argon L password salt 3 65536 2 32)"
proof -
  from assms(1) obtain key where key: "il_argon L password salt 3 65536 2 32 = Some key"
    and parts: "split_on CHR ''$'' encoded =
      [[], ''argon2id'', ''v=19'', costs_text, b64_encode Std salt, b64_encode Std key]"
    by (elim hash_password_parts)
  obtain k where k: "il_argon L attempt salt 3 65536 2 32 = Some k" using assms(2) by (auto simp: argon_law_def)
  have "length key = 32" using assms(2) key by (metis argon_law_def option.inject)
  then show ?thesis
    by (simp add: verify_password_def Let_def parts scan_costs_text b64_roundtrip k key)
qed

lemma hash_password_total: "argon_law L \<Longrightarrow> \<exists>e. hash_password L password salt = Some e"
  unfolding hash_password_def argon_law_def by (metis option.simps(9))

section \<open>One-time codes\<close>

text \<open>
  \<open>binary.BigEndian.PutUint64\<close> and \<open>Uint32\<close>, and the \<open>%06d\<close> of a non-negative number. The
  mask keeps the sign bit out, so the conversion to \<open>int\<close> is exact.
\<close>

unbundle bit_operations_syntax

definition put_be64 :: "64 word \<Rightarrow> string" where
  "put_be64 w = map (\<lambda>i. char_of (unat (drop_bit (8 * i) w AND 255))) [7, 6, 5, 4, 3, 2, 1, 0]"

definition get_be32 :: "string \<Rightarrow> 32 word" where
  "get_be32 s = foldl (\<lambda>w c. push_bit 8 w OR word_of_nat (byte c)) 0 s"

definition pad6 :: "nat \<Rightarrow> string" where
  "pad6 n = replicate (6 - length (decimal n)) CHR ''0'' @ decimal n"

definition hotp :: "iam_lib \<Rightarrow> string \<Rightarrow> 64 word \<Rightarrow> string" where
  "hotp L key counter =
     (let hash = il_hmac_sha1 L key (put_be64 counter);
          offset = byte (last hash) mod 16;
          value = get_be32 (take 4 (drop offset hash)) AND 0x7fffffff in
      pad6 (unat value mod 1000000))"

text \<open>\<open>uint64(now.Unix() / 30)\<close>: Go's division rounds towards zero.\<close>

definition totp_counter :: "instant \<Rightarrow> 64 word" where
  "totp_counter now = word_of_int (unix_seconds now sdiv 30)"

definition validate_totp :: "iam_lib \<Rightarrow> string \<Rightarrow> string \<Rightarrow> instant \<Rightarrow> bool" where
  "validate_totp L secret code now =
     (if length code \<noteq> 6 then False
      else case b32_decode (to_upper (il_upper L) secret) of
        None \<Rightarrow> False
      | Some key \<Rightarrow> list_ex (\<lambda>offset. hotp L key (totp_counter now + offset) = code) [- 1, 0, 1])"

lemma pad6_digits: "n < 10 ^ 6 \<Longrightarrow> length (pad6 n) = 6 \<and> list_all is_digit (pad6 n)"
  using length_decimal_le [of n 6] decimal_digits [of n]
  by (auto simp: pad6_def list_all_iff is_digit_def in_range_def)

lemma hotp_digits: "length (hotp L key c) = 6 \<and> list_all is_digit (hotp L key c)"
  unfolding hotp_def Let_def by (rule pad6_digits) simp

lemma to_upper_b32: "to_upper uni (b32_encode s) = b32_encode s"
proof -
  have "is_ascii c \<and> ascii_upper c = c" if "c \<in> set (b32_encode s)" for c
    using b32_encode_chars [OF that] by (auto simp: char_class_defs ascii_upper_def)
  then show ?thesis by (auto simp: to_upper_def list_all_iff intro: map_idI)
qed

lemma validate_totp_encoded:
  "validate_totp L (b32_encode key) code now \<longleftrightarrow>
     code \<in> {hotp L key (totp_counter now - 1), hotp L key (totp_counter now), hotp L key (totp_counter now + 1)}"
  using hotp_digits by (auto simp: validate_totp_def to_upper_b32 b32_roundtrip)

lemma sdiv_nonneg: "0 \<le> (a :: int) \<Longrightarrow> 0 < b \<Longrightarrow> a sdiv b = a div b"
  by (simp add: signed_divide_int_def sgn_if)

text \<open>The counters of two instants less than thirty seconds apart differ by one at most.\<close>

lemma totp_counter_near:
  assumes "0 \<le> t" "0 \<le> u" "\<bar>t - u\<bar> < 30 * second"
  shows "totp_counter u \<in> {totp_counter t - 1, totp_counter t, totp_counter t + 1}"
proof -
  let ?a = "t div (30 * second)" and ?b = "u div (30 * second)"
  have counter: "totp_counter x = word_of_int (x div (30 * second))" if "0 \<le> x" for x
    using that by (simp add: totp_counter_def unix_seconds_def sdiv_nonneg zdiv_zmult2_eq [symmetric])
  have b: "x div 30000000000 * 30000000000 \<le> x \<and> x < x div 30000000000 * 30000000000 + 30000000000" for x :: int
    using div_mult_mod_eq [of x 30000000000] pos_mod_bound [of 30000000000 x] pos_mod_sign [of 30000000000 x]
    by linarith
  have "?a = ?b - 1 \<or> ?a = ?b \<or> ?a = ?b + 1"
    using assms(3) b [of t] b [of u] by simp linarith
  then show ?thesis unfolding counter [OF assms(1)] counter [OF assms(2)] by auto
qed

end
