(* ===== verification/Http.thy ===== *)
theory Http
  imports Go_Encoding
begin

text \<open>
  What the handlers use of \<open>net/http\<close>: a request with its header and cookie lookups, and a
  response as status, headers in the order they were set, and the value handed to
  \<open>writeJSON\<close>. The JSON text of a response is not modelled, the encoded value is.
\<close>

record request =
  http_method :: string
  url_path :: string
  header :: "string \<Rightarrow> string"
  cookie :: "string \<rightharpoonup> string"
  query :: "string \<Rightarrow> string"
  remote_addr :: string
  content_length :: int

definition empty_request :: request where
  "empty_request = \<lparr>http_method = ''GET'', url_path = ''/'', header = (\<lambda>_. []), cookie = Map.empty,
     query = (\<lambda>_. []), remote_addr = [], content_length = 0\<rparr>"

record 'b response =
  status :: nat
  headers :: "(string \<times> string) list"
  body :: "'b option"

definition json_headers :: "(string \<times> string) list" where
  "json_headers = [(''Content-Type'', ''application/json'')]"

definition response_header :: "'b response \<Rightarrow> string \<Rightarrow> string option" where
  "response_header r k = map_of (rev (headers r)) k"

text \<open>A security-relevant summary of a response: it was accepted (2xx).\<close>

definition accepted :: "'b response \<Rightarrow> bool" where
  "accepted r \<longleftrightarrow> 200 \<le> status r \<and> status r < 300"

end
