(* ===== verification/Identity.thy ===== *)
theory Identity
  imports Http
begin

text \<open>
  \<open>packages/go-sdk/identity\<close>: the claims of a HomeHub access token, the verifier every
  service uses, the bearer-token header and the authentication middleware, and the parser
  of the key set IAM publishes.

  The text encoding of JSON and Ed25519 are parameters, bundled in \<open>jwt_lib\<close>; what a
  property relies on is a named hypothesis (\<open>json_law\<close>, \<open>sign_law\<close>).
\<close>

section \<open>Claims\<close>

definition issuer_name :: string where "issuer_name = ''homehub-iam''"
definition system_root :: string where "system_root = ''system.root''"
definition max_token_bytes :: nat where "max_token_bytes = 8192"
definition clock_skew :: duration where "clock_skew = 15 * second"

record claims =
  tc_iss :: string
  tc_aud :: string
  tc_sub :: string
  tc_act :: "string option"
  tc_azp :: string
  tc_realm :: string
  tc_permissions :: "string list"
  tc_sid :: string
  tc_jti :: string
  tc_delegation :: string
  tc_amr :: "string list"
  tc_auth_time :: int
  tc_iat :: int
  tc_nbf :: int
  tc_exp :: int

definition match_principal :: "string \<Rightarrow> bool" where
  "match_principal s \<longleftrightarrow>
     (has_prefix ''human:'' s \<and> match_party (trim_prefix ''human:'' s)) \<or>
     (has_prefix ''share:'' s \<and> match_party (trim_prefix ''share:'' s))"

definition match_permission :: "string \<Rightarrow> bool" where
  "match_permission s \<longleftrightarrow> s = ''*'' \<or> match_dotted 1 3 s"

definition match_audience :: "string \<Rightarrow> bool" where
  "match_audience s \<longleftrightarrow> has_prefix ''homehub-'' s \<and> match_slug 0 54 (trim_prefix ''homehub-'' s)"

definition effective_actor :: "claims \<Rightarrow> string" where
  "effective_actor c = (case tc_act c of Some a \<Rightarrow> a | None \<Rightarrow> tc_sub c)"

fun has_permission_in :: "string list \<Rightarrow> string \<Rightarrow> bool" where
  "has_permission_in [] expected = False"
| "has_permission_in (p # ps) expected = (if p = expected then True else has_permission_in ps expected)"

definition has_permission :: "claims \<Rightarrow> string \<Rightarrow> bool" where
  "has_permission c expected = has_permission_in (tc_permissions c) expected"

definition allows :: "claims \<Rightarrow> string \<Rightarrow> bool" where
  "allows c expected \<longleftrightarrow> has_permission c expected \<or> has_permission c system_root"

lemma has_permission_iff: "has_permission c p \<longleftrightarrow> p \<in> set (tc_permissions c)"
proof -
  have "has_permission_in ps p \<longleftrightarrow> p \<in> set ps" for ps by (induction ps) auto
  then show ?thesis by (simp add: has_permission_def)
qed

lemma allows_iff: "allows c p \<longleftrightarrow> p \<in> set (tc_permissions c) \<or> system_root \<in> set (tc_permissions c)"
  by (simp add: allows_def has_permission_iff)

section \<open>The verifier\<close>

record jose_header =
  jh_alg :: string
  jh_typ :: string
  jh_kid :: string

record jwt_lib =
  lib_header :: "string \<Rightarrow> jose_header option"
  lib_claims :: "string \<Rightarrow> claims option"
  lib_put_header :: "jose_header \<Rightarrow> string"
  lib_put_claims :: "claims \<Rightarrow> string"
  lib_public :: "string \<Rightarrow> string"
  lib_sign :: "string \<Rightarrow> string \<Rightarrow> string"
  lib_verify :: "string \<Rightarrow> string \<Rightarrow> string \<Rightarrow> bool"

datatype identity_error =
    Invalid_verifier_configuration
  | Invalid_ttl_ceiling
  | Unnamed_key
  | Invalid_token
  | Unsupported_token
  | Unknown_key
  | Invalid_signature
  | Invalid_claims
  | Missing_bearer

record verifier =
  vf_keys :: "(string \<times> string) list"
  vf_audience :: string
  vf_max_ttl :: duration

definition new_verifier ::
  "(string \<times> string) list \<Rightarrow> string \<Rightarrow> duration \<Rightarrow> identity_error + verifier" where
  "new_verifier keys audience max_ttl =
     (if keys = [] \<or> \<not> match_audience audience then Inl Invalid_verifier_configuration
      else if max_ttl < 30 * second \<or> max_ttl > 15 * minute then Inl Invalid_ttl_ceiling
      else if list_ex (\<lambda>(kid, pk). trim_space kid = [] \<or> length pk \<noteq> 32) keys then Inl Unnamed_key
      else Inr \<lparr>vf_keys = keys, vf_audience = audience, vf_max_ttl = max_ttl\<rparr>)"

text \<open>\<open>Claims.valid\<close>. \<open>expires.Sub(issuedAt)\<close> saturates; no ceiling is near the limit.\<close>

definition claims_valid :: "claims \<Rightarrow> string \<Rightarrow> duration \<Rightarrow> instant \<Rightarrow> bool" where
  "claims_valid c audience max_ttl now \<longleftrightarrow>
     (let issued = time_unix (tc_iat c);
          expires = time_unix (tc_exp c);
          not_before = (if tc_nbf c = 0 then issued else time_unix (tc_nbf c)) in
      if tc_iss c \<noteq> issuer_name \<or> tc_aud c \<noteq> audience \<or> tc_realm c = [] \<or>
         \<not> match_principal (tc_sub c) \<or> tc_azp c = [] \<or> tc_jti c = [] \<or>
         tc_permissions c = [] \<or> \<not> expires > now \<or> issued > now + clock_skew \<or>
         not_before > now + clock_skew \<or> expires < issued \<or> expires - issued > max_ttl
      then False
      else if (case tc_act c of Some a \<Rightarrow> \<not> match_principal a | None \<Rightarrow> False) then False
      else list_all (\<lambda>p. p = system_root \<or> match_permission p) (tc_permissions c))"

definition verify :: "jwt_lib \<Rightarrow> verifier \<Rightarrow> instant \<Rightarrow> string \<Rightarrow> identity_error + claims" where
  "verify L v now token =
     (if length token = 0 \<or> length token > max_token_bytes then Inl Invalid_token
      else case split_on CHR ''.'' token of
        [h, p, s] \<Rightarrow>
          (case Option.bind (b64_decode Url h) (lib_header L) of
             None \<Rightarrow> Inl Unsupported_token
           | Some jh \<Rightarrow>
               if jh_alg jh \<noteq> ''EdDSA'' \<or> jh_typ jh \<noteq> ''at+jwt'' \<or> jh_kid jh = [] then Inl Unsupported_token
               else case map_of (vf_keys v) (jh_kid jh) of
                 None \<Rightarrow> Inl Unknown_key
               | Some pk \<Rightarrow>
                   (case b64_decode Url s of
                      None \<Rightarrow> Inl Invalid_signature
                    | Some sig \<Rightarrow>
                        if length sig \<noteq> 64 \<or> \<not> lib_verify L pk (h @ ''.'' @ p) sig
                        then Inl Invalid_signature
                        else case b64_decode Url p of
                          None \<Rightarrow> Inl Invalid_token
                        | Some payload \<Rightarrow>
                            (case lib_claims L payload of
                               None \<Rightarrow> Inl Invalid_claims
                             | Some c \<Rightarrow>
                                 if \<not> claims_valid c (vf_audience v) (vf_max_ttl v) now
                                 then Inl Invalid_claims else Inr c)))
      | _ \<Rightarrow> Inl Invalid_token)"

section \<open>Bearer tokens and the middleware\<close>

definition bearer_token :: "request \<Rightarrow> identity_error + string" where
  "bearer_token r =
     (case cut_at CHR '' '' (trim_space (header r ''Authorization'')) of
        (scheme, token, ok) \<Rightarrow>
          if \<not> ok \<or> \<not> equal_fold_ascii scheme ''Bearer'' \<or> trim_space token = [] \<or>
             list_ex (\<lambda>c. byte c \<in> set [32, 9, 13, 10]) token
          then Inl Missing_bearer else Inr token)"

text \<open>
  \<open>Verifier.Authenticate\<close>: the claims handed to the next handler, or the status and code
  of the refusal. \<open>requiredAny\<close> empty means any valid token.
\<close>

definition authenticate ::
  "(string \<Rightarrow> identity_error + claims) \<Rightarrow> string list \<Rightarrow> request \<Rightarrow> (nat \<times> string) + claims" where
  "authenticate vfy required_any r =
     (case bearer_token r of
        Inl _ \<Rightarrow> Inl (401, ''invalid_token'')
      | Inr token \<Rightarrow>
          (case vfy token of
             Inl _ \<Rightarrow> Inl (401, ''invalid_token'')
           | Inr c \<Rightarrow>
               if required_any \<noteq> [] \<and> \<not> list_ex (allows c) required_any
               then Inl (403, ''insufficient_permission'')
               else Inr c))"

section \<open>The published key set\<close>

record jwk =
  jwk_kty :: string
  jwk_crv :: string
  jwk_use :: string
  jwk_alg :: string
  jwk_kid :: string
  jwk_x :: string

datatype jwks_error = Invalid_jwks | Unsupported_jwk | Invalid_jwk | Duplicate_jwk

fun parse_jwks_loop :: "(string \<times> string) list \<Rightarrow> jwk list \<Rightarrow> jwks_error + (string \<times> string) list" where
  "parse_jwks_loop keys [] = Inr keys"
| "parse_jwks_loop keys (k # ks) =
     (if jwk_kty k \<noteq> ''OKP'' \<or> jwk_crv k \<noteq> ''Ed25519'' \<or> jwk_use k \<noteq> ''sig'' \<or>
         jwk_alg k \<noteq> ''EdDSA'' \<or> jwk_kid k = [] \<or> jwk_x k = [] then Inl Unsupported_jwk
      else case b64_decode Url (jwk_x k) of
        None \<Rightarrow> Inl Invalid_jwk
      | Some x \<Rightarrow>
          if length x \<noteq> 32 then Inl Invalid_jwk
          else if map_of keys (jwk_kid k) \<noteq> None then Inl Duplicate_jwk
          else parse_jwks_loop (keys @ [(jwk_kid k, x)]) ks)"

text \<open>\<open>ParseJWKSet\<close>, on the decoded document (\<open>None\<close> where the JSON does not decode).\<close>

definition parse_jwks :: "jwk list option \<Rightarrow> jwks_error + (string \<times> string) list" where
  "parse_jwks document =
     (case document of
        None \<Rightarrow> Inl Invalid_jwks
      | Some ks \<Rightarrow> if ks = [] then Inl Invalid_jwks else parse_jwks_loop [] ks)"

section \<open>What verification guarantees\<close>

definition sign_law :: "jwt_lib \<Rightarrow> bool" where
  "sign_law L \<longleftrightarrow>
     (\<forall>k m. lib_verify L (lib_public L k) m (lib_sign L k m) \<and> length (lib_sign L k m) = 64)"

lemma claims_validD:
  assumes "claims_valid c audience max_ttl now"
  shows "tc_iss c = issuer_name" "tc_aud c = audience" "match_principal (tc_sub c)"
    "tc_permissions c \<noteq> []" "now < time_unix (tc_exp c)" "time_unix (tc_iat c) \<le> now + clock_skew"
    "time_unix (tc_exp c) - time_unix (tc_iat c) \<le> max_ttl"
    "\<And>p. p \<in> set (tc_permissions c) \<Longrightarrow> p = system_root \<or> match_permission p"
    "\<And>a. tc_act c = Some a \<Longrightarrow> match_principal a"
  using assms by (auto simp: claims_valid_def Let_def list_all_iff split: if_splits)

lemma verify_InrE:
  assumes "verify L v now token = Inr c"
  obtains h p s jh pk sig payload where
    "split_on CHR ''.'' token = [h, p, s]" "length token \<le> max_token_bytes"
    "Option.bind (b64_decode Url h) (lib_header L) = Some jh"
    "jh_alg jh = ''EdDSA''" "jh_typ jh = ''at+jwt''"
    "map_of (vf_keys v) (jh_kid jh) = Some pk"
    "b64_decode Url s = Some sig" "length sig = 64" "lib_verify L pk (h @ ''.'' @ p) sig"
    "b64_decode Url p = Some payload" "lib_claims L payload = Some c"
    "claims_valid c (vf_audience v) (vf_max_ttl v) now"
  using assms unfolding verify_def by (auto split: if_splits list.splits option.splits)

lemma verify_valid:
  "verify L v now token = Inr c \<Longrightarrow> claims_valid c (vf_audience v) (vf_max_ttl v) now"
  by (elim verify_InrE)

lemma new_verifier_audience: "new_verifier keys aud ttl = Inr v \<Longrightarrow> match_audience (vf_audience v)"
  by (auto simp: new_verifier_def split: if_splits)

lemma bearer_token_graphic:
  assumes "header r ''Authorization'' = ''Bearer '' @ t" and "t \<noteq> []" and "list_all graphic t"
  shows "bearer_token r = Inr t"
proof -
  have g: "graphic (hd t)" "graphic (last t)" using assms by (auto simp: list_all_iff)
  have "trim_space (''Bearer '' @ t) = ''Bearer '' @ t"
    using assms(2) g by (intro trim_space_graphic) (auto simp: graphic_def in_range_def)
  moreover have "cut_at CHR '' '' (''Bearer'' @ CHR '' '' # t) = (''Bearer'', t, True)"
    by (rule cut_at_append) simp
  moreover have "trim_space t = t" using assms(2) g by (intro trim_space_graphic)
  moreover have "\<not> list_ex (\<lambda>c. byte c \<in> set [32, 9, 13, 10]) t"
    using assms(3) by (auto simp: list_all_iff list_ex_iff graphic_def in_range_def)
  ultimately show ?thesis using assms
    by (simp add: bearer_token_def equal_fold_ascii_def)
qed

lemma authenticate_Inr_iff:
  "authenticate vfy req r = Inr c \<longleftrightarrow>
     (\<exists>token. bearer_token r = Inr token \<and> vfy token = Inr c \<and> (req = [] \<or> list_ex (allows c) req))"
  by (auto simp: authenticate_def split: sum.splits)

lemma authenticate_cases:
  "authenticate vfy req r \<in>
     {Inl (401, ''invalid_token''), Inl (403, ''insufficient_permission'')} \<union> range Inr"
  by (auto simp: authenticate_def split: sum.splits)

lemma parse_jwks_step:
  "parse_jwks_loop keys (k # ks) = Inr out \<Longrightarrow>
   \<exists>x. jwk_kid k \<noteq> [] \<and> length x = 32 \<and> map_of keys (jwk_kid k) = None \<and>
     parse_jwks_loop (keys @ [(jwk_kid k, x)]) ks = Inr out"
  by (simp only: parse_jwks_loop.simps split: if_split_asm option.split_asm sum.split_asm) blast+

lemma parse_jwks_loop_sound:
  assumes "parse_jwks_loop keys ks = Inr out" and "distinct (map fst keys)"
    and "\<forall>(k, x) \<in> set keys. k \<noteq> [] \<and> length x = 32"
  shows "distinct (map fst out) \<and> (\<forall>(k, x) \<in> set out. k \<noteq> [] \<and> length x = 32) \<and>
         map fst out = map fst keys @ map jwk_kid ks"
  using assms
proof (induction ks arbitrary: keys)
  case Nil
  then show ?case by simp
next
  case (Cons k ks)
  obtain x where x: "jwk_kid k \<noteq> []" "length x = 32" "map_of keys (jwk_kid k) = None"
    "parse_jwks_loop (keys @ [(jwk_kid k, x)]) ks = Inr out"
    using parse_jwks_step [OF Cons.prems(1)] by blast
  from x(3) have "jwk_kid k \<notin> fst ` set keys" by (simp add: map_of_eq_None_iff)
  with Cons.prems(2) have "distinct (map fst (keys @ [(jwk_kid k, x)]))" by simp
  moreover have "\<forall>(k, x) \<in> set (keys @ [(jwk_kid k, x)]). k \<noteq> [] \<and> length x = 32"
    using Cons.prems(3) x(1,2) by simp
  ultimately have "distinct (map fst out) \<and> (\<forall>(k, x) \<in> set out. k \<noteq> [] \<and> length x = 32) \<and>
      map fst out = map fst (keys @ [(jwk_kid k, x)]) @ map jwk_kid ks"
    by (rule Cons.IH [OF x(4)])
  then show ?case
    unfolding map_append list.map fst_conv append_assoc append_Cons append_Nil .
qed

text \<open>
  A token verified at two instants was verified within a window of the verifier's
  ceiling plus the clock skew: no token, however it was made, stays usable longer.
\<close>

theorem verify_window:
  assumes "verify L v t1 token = Inr c" and "verify L v t2 token = Inr c"
  shows "\<bar>t1 - t2\<bar> < vf_max_ttl v + clock_skew"
  using claims_validD(5-7) [OF verify_valid [OF assms(1)]]
    claims_validD(5-7) [OF verify_valid [OF assms(2)]] by linarith

end
