(* ===== verification/Token.thy ===== *)
theory Token
  imports Identity
begin

text \<open>
  \<open>apps/iam/internal/token/signer.go\<close>: the signer of access tokens. \<open>issue\<close> takes the
  clock and the sixteen random bytes of the token id as arguments.
\<close>

section \<open>Requests and the signer\<close>

definition match_issue_audience :: "string \<Rightarrow> bool" where
  "match_issue_audience s \<longleftrightarrow> s = ''homehub'' \<or>
     (has_prefix ''homehub-'' s \<and> match_slug 0 54 (trim_prefix ''homehub-'' s))"

definition match_scope :: "string \<Rightarrow> bool" where
  "match_scope s \<longleftrightarrow> s = ''*'' \<or> match_dotted 2 3 s"

record signer =
  sg_kid :: string
  sg_key :: string
  sg_ttl :: duration

record issue_request =
  rq_audience :: string
  rq_subject :: string
  rq_actor :: string
  rq_azp :: string
  rq_realm :: string
  rq_permissions :: "string list"
  rq_sid :: string
  rq_delegation :: string
  rq_amr :: "string list"
  rq_auth_at :: instant

datatype issue_error =
    Invalid_signer_configuration
  | Invalid_token_request
  | Invalid_token_subject
  | Invalid_token_actor
  | Invalid_scope string

definition new_signer :: "string \<Rightarrow> string \<Rightarrow> duration \<Rightarrow> issue_error + signer" where
  "new_signer kid key ttl =
     (if \<not> match_party kid \<or> length key \<noteq> 64 \<or> ttl < 30 * second \<or> ttl > 15 * minute
      then Inl Invalid_signer_configuration
      else Inr \<lparr>sg_kid = kid, sg_key = key, sg_ttl = ttl\<rparr>)"

definition verification_keys :: "jwt_lib \<Rightarrow> signer \<Rightarrow> (string \<times> string) list" where
  "verification_keys L sg = [(sg_kid sg, lib_public L (sg_key sg))]"

definition jwk_set :: "jwt_lib \<Rightarrow> signer \<Rightarrow> jwk list" where
  "jwk_set L sg =
     [\<lparr>jwk_kty = ''OKP'', jwk_crv = ''Ed25519'', jwk_use = ''sig'', jwk_alg = ''EdDSA'',
       jwk_kid = sg_kid sg, jwk_x = b64_encode Url (lib_public L (sg_key sg))\<rparr>]"

text \<open>The loop over the requested permissions: checks each, keeps the first occurrences.\<close>

fun collect_scopes :: "string list \<Rightarrow> string list \<Rightarrow> issue_error + string list" where
  "collect_scopes acc [] = Inr acc"
| "collect_scopes acc (v # vs) =
     (if \<not> match_scope v then Inl (Invalid_scope v)
      else if v \<in> set acc then collect_scopes acc vs
      else collect_scopes (acc @ [v]) vs)"

definition token_header :: "signer \<Rightarrow> jose_header" where
  "token_header sg = \<lparr>jh_alg = ''EdDSA'', jh_typ = ''at+jwt'', jh_kid = sg_kid sg\<rparr>"

definition build_claims ::
  "signer \<Rightarrow> instant \<Rightarrow> string \<Rightarrow> issue_request \<Rightarrow> string list \<Rightarrow> claims" where
  "build_claims sg now rnd rq permissions =
     \<lparr>tc_iss = issuer_name, tc_aud = rq_audience rq, tc_sub = rq_subject rq,
      tc_act = (if rq_actor rq \<noteq> [] \<and> rq_actor rq \<noteq> rq_subject rq then Some (rq_actor rq) else None),
      tc_azp = rq_azp rq, tc_realm = rq_realm rq, tc_permissions = permissions,
      tc_sid = rq_sid rq, tc_jti = hex_encode rnd, tc_delegation = rq_delegation rq,
      tc_amr = rq_amr rq,
      tc_auth_time = (if rq_auth_at rq = zero_time then 0 else unix_seconds (rq_auth_at rq)),
      tc_iat = unix_seconds now, tc_nbf = unix_seconds (now - 5 * second),
      tc_exp = unix_seconds (now + sg_ttl sg)\<rparr>"

definition issue ::
  "jwt_lib \<Rightarrow> signer option \<Rightarrow> instant \<Rightarrow> string \<Rightarrow> issue_request \<Rightarrow> issue_error + (string \<times> claims)" where
  "issue L signer now rnd rq =
     (case signer of
        None \<Rightarrow> Inl Invalid_token_request
      | Some sg \<Rightarrow>
          if \<not> match_issue_audience (rq_audience rq) \<or> rq_azp rq = [] \<or> rq_realm rq = [] \<or>
             rq_permissions rq = []
          then Inl Invalid_token_request
          else if \<not> match_principal (rq_subject rq) then Inl Invalid_token_subject
          else if rq_actor rq \<noteq> [] \<and> \<not> match_principal (rq_actor rq) then Inl Invalid_token_actor
          else case collect_scopes [] (rq_permissions rq) of
            Inl e \<Rightarrow> Inl e
          | Inr permissions \<Rightarrow>
              let c = build_claims sg now rnd rq permissions;
                  unsigned = b64_encode Url (lib_put_header L (token_header sg)) @ ''.'' @
                             b64_encode Url (lib_put_claims L c)
              in Inr (unsigned @ ''.'' @ b64_encode Url (lib_sign L (sg_key sg) unsigned), c))"

section \<open>Properties of the scope loop\<close>

lemma collect_scopes_Inr:
  assumes "collect_scopes acc vs = Inr out" and "distinct acc"
  shows "distinct out \<and> set out = set acc \<union> set vs \<and> (\<forall>v \<in> set vs. match_scope v)"
  using assms
proof (induction vs arbitrary: acc)
  case Nil
  then show ?case by simp
next
  case (Cons v vs)
  then show ?case by (cases "v \<in> set acc") (fastforce split: if_split_asm)+
qed

lemma collect_scopes_ok: "\<forall>v \<in> set vs. match_scope v \<Longrightarrow> \<exists>out. collect_scopes acc vs = Inr out"
  by (induction vs arbitrary: acc) auto

lemma collect_scopes_Inl: "collect_scopes acc vs = Inl e \<Longrightarrow> \<exists>v \<in> set vs. \<not> match_scope v \<and> e = Invalid_scope v"
  by (induction acc vs rule: collect_scopes.induct) (auto split: if_splits)

lemma match_scope_permission: "match_scope s \<Longrightarrow> match_permission s"
  by (auto simp: match_scope_def match_permission_def intro: match_dotted_mono)

lemma issue_InrE:
  assumes "issue L sgo now rnd rq = Inr (tok, c)"
  obtains sg permissions where
    "sgo = Some sg" "match_issue_audience (rq_audience rq)" "rq_azp rq \<noteq> []" "rq_realm rq \<noteq> []"
    "rq_permissions rq \<noteq> []" "match_principal (rq_subject rq)"
    "rq_actor rq = [] \<or> match_principal (rq_actor rq)"
    "collect_scopes [] (rq_permissions rq) = Inr permissions"
    "c = build_claims sg now rnd rq permissions"
    "tok = (let unsigned = b64_encode Url (lib_put_header L (token_header sg)) @ ''.'' @
                           b64_encode Url (lib_put_claims L c)
            in unsigned @ ''.'' @ b64_encode Url (lib_sign L (sg_key sg) unsigned))"
  using assms unfolding issue_def
  by (auto split: option.splits if_splits sum.splits simp: Let_def)

section \<open>What the signer and the verifier promise each other\<close>

lemma unix_seconds_add: "unix_seconds (t + k * second) = unix_seconds t + k"
  by (simp add: unix_seconds_def add.commute)

lemma unix_seconds_bounds: "unix_seconds t * second \<le> t" "t < (unix_seconds t + 1) * second"
proof -
  have "t = t div second * second + t mod second" by simp
  moreover have "0 \<le> t mod second" "t mod second < second" by simp_all
  ultimately show "unix_seconds t * second \<le> t" "t < (unix_seconds t + 1) * second"
    by (simp_all add: unix_seconds_def algebra_simps)
qed

text \<open>The hypotheses on the time of use: the token is neither in the future nor expired.\<close>

definition usable_at :: "signer \<Rightarrow> instant \<Rightarrow> instant \<Rightarrow> bool" where
  "usable_at sg issued used \<longleftrightarrow>
     0 \<le> issued \<and> issued < 2 ^ 61 * second \<and> issued \<le> used + clock_skew \<and>
     used < issued + sg_ttl sg - second"

text \<open>
  The signer's time to live is a whole number of seconds in the service (two minutes).
  With a fractional one the rounded \<open>exp - iat\<close> could exceed the ceiling by a second.
\<close>

lemma build_claims_valid:
  assumes perms: "permissions \<noteq> []" "\<forall>p \<in> set permissions. match_scope p"
    and rq: "rq_azp rq \<noteq> []" "rq_realm rq \<noteq> []" "match_principal (rq_subject rq)"
      "rq_actor rq = [] \<or> match_principal (rq_actor rq)" "rnd \<noteq> []"
    and ttl: "sg_ttl sg = k * second" "0 \<le> k" "k \<le> 2 ^ 32" "sg_ttl sg \<le> max_ttl"
    and time: "usable_at sg now used"
  shows "claims_valid (build_claims sg now rnd rq permissions) (rq_audience rq) max_ttl used"
proof -
  let ?iat = "unix_seconds now"
  have iat: "0 \<le> ?iat" "?iat < 2 ^ 61"
    using time unix_seconds_bounds [of now] by (auto simp: usable_at_def unix_seconds_def)
  have exp_at: "unix_seconds (now + sg_ttl sg) = ?iat + k"
    using unix_seconds_add [of now k] ttl(1) by simp
  have nbf: "unix_seconds (now - 5 * second) = ?iat - 5"
    using unix_seconds_add [of now "-5"] by simp
  have ti: "time_unix ?iat = ?iat * second" "time_unix (?iat + k) = (?iat + k) * second"
    "time_unix (?iat - 5) = (?iat - 5) * second"
    using iat ttl(2,3) by (intro time_unix_exact; simp)+
  have use: "?iat * second \<le> used + clock_skew" "used < (?iat + k) * second"
    using time ttl(1) unix_seconds_bounds [of now] by (auto simp: usable_at_def algebra_simps)
  have jti: "hex_encode rnd \<noteq> []"
    using rq(5) length_hex_encode [of rnd] by (metis length_0_conv mult_is_0 zero_neq_numeral)
  have ps: "list_all (\<lambda>p. p = system_root \<or> match_permission p) permissions"
    using perms(2) match_scope_permission by (auto simp: list_all_iff)
  let ?c = "build_claims sg now rnd rq permissions"
  have f: "tc_iss ?c = issuer_name" "tc_aud ?c = rq_audience rq" "tc_realm ?c = rq_realm rq"
    "tc_sub ?c = rq_subject rq" "tc_azp ?c = rq_azp rq" "tc_jti ?c = hex_encode rnd"
    "tc_permissions ?c = permissions" "tc_iat ?c = ?iat" "tc_exp ?c = ?iat + k" "tc_nbf ?c = ?iat - 5"
    using exp_at nbf by (simp_all add: build_claims_def)
  have act: "(case tc_act ?c of Some a \<Rightarrow> \<not> match_principal a | None \<Rightarrow> False) = False"
    using rq(4) by (auto simp: build_claims_def)
  have diff: "(?iat + k) * second - ?iat * second = sg_ttl sg" using ttl(1) by (simp add: algebra_simps)
  show ?thesis
    unfolding claims_valid_def Let_def f act ti diff
    using perms(1) rq(1-3) jti ps use ttl by (simp add: clock_skew_def)
qed

text \<open>The text the token is made of has no dot, so splitting finds the three parts again.\<close>

lemma split_token:
  "split_on CHR ''.'' (b64_encode Url h @ ''.'' @ b64_encode Url p @ ''.'' @ b64_encode Url s) =
     [b64_encode Url h, b64_encode Url p, b64_encode Url s]"
proof -
  have "CHR ''.'' \<notin> set (b64_encode Url x)" for x using b64_encode_chars by blast
  then show ?thesis by (simp add: split_on_append split_on_none)
qed

definition codec_ok :: "jwt_lib \<Rightarrow> jose_header \<Rightarrow> claims \<Rightarrow> bool" where
  "codec_ok L jh c \<longleftrightarrow>
     lib_header L (lib_put_header L jh) = Some jh \<and> lib_claims L (lib_put_claims L c) = Some c"

lemma issued_verifies:
  assumes issued: "issue L (Some sg) now rnd rq = Inr (tok, c)"
    and lib: "sign_law L" "codec_ok L (token_header sg) c"
    and vf: "map_of (vf_keys v) (sg_kid sg) = Some (lib_public L (sg_key sg))" "vf_audience v = rq_audience rq"
    and ttl: "sg_ttl sg = k * second" "0 \<le> k" "k \<le> 2 ^ 32" "sg_ttl sg \<le> vf_max_ttl v"
    and kid: "sg_kid sg \<noteq> []" and rnd: "rnd \<noteq> []" and size: "length tok \<le> max_token_bytes"
    and time: "usable_at sg now used"
  shows "verify L v used tok = Inr c"
proof -
  from issued obtain permissions where i:
    "rq_azp rq \<noteq> []" "rq_realm rq \<noteq> []" "rq_permissions rq \<noteq> []" "match_principal (rq_subject rq)"
    "rq_actor rq = [] \<or> match_principal (rq_actor rq)"
    "collect_scopes [] (rq_permissions rq) = Inr permissions"
    "c = build_claims sg now rnd rq permissions"
    and tok: "tok = (let unsigned = b64_encode Url (lib_put_header L (token_header sg)) @ ''.'' @
                           b64_encode Url (lib_put_claims L c)
            in unsigned @ ''.'' @ b64_encode Url (lib_sign L (sg_key sg) unsigned))"
    by (elim issue_InrE) auto
  let ?h = "b64_encode Url (lib_put_header L (token_header sg))"
  let ?p = "b64_encode Url (lib_put_claims L c)"
  let ?s = "lib_sign L (sg_key sg) (?h @ ''.'' @ ?p)"
  have perms: "set permissions = set (rq_permissions rq)" "\<forall>p \<in> set (rq_permissions rq). match_scope p"
    using collect_scopes_Inr [OF i(6)] by auto
  with i(3) have "permissions \<noteq> []" by auto
  with perms have "claims_valid c (rq_audience rq) (vf_max_ttl v) used"
    unfolding i(7) by (intro build_claims_valid [OF _ _ i(1,2,4,5) rnd ttl time]) auto
  moreover have "tok = ?h @ ''.'' @ ?p @ ''.'' @ b64_encode Url ?s"
    using tok by (simp add: Let_def)
  moreover from this have "split_on CHR ''.'' tok = [?h, ?p, b64_encode Url ?s]"
    using split_token by simp
  moreover have "length tok \<noteq> 0" using calculation(2) by simp
  ultimately show ?thesis
    using lib vf kid size
    by (simp add: verify_def b64_roundtrip sign_law_def codec_ok_def token_header_def not_less)
qed

text \<open>
  C36. What a token grants is exactly what was asked for: \<open>issue\<close> succeeds if
  and only if the request is well formed, and then the permissions are the requested ones
  without repetition, the audience and subject are the requested ones, and a signer whose
  time to live is a whole number of seconds stamps exactly that lifetime.
\<close>

theorem issue_exact:
  assumes "sg_ttl sg = k * second"
  shows "(case issue L (Some sg) now rnd rq of
            Inr (tok, c) \<Rightarrow>
              set (tc_permissions c) = set (rq_permissions rq) \<and> distinct (tc_permissions c) \<and>
              tc_aud c = rq_audience rq \<and> tc_sub c = rq_subject rq \<and> tc_exp c - tc_iat c = k
          | Inl _ \<Rightarrow> True) \<and>
         (is_ok (issue L (Some sg) now rnd rq) \<longleftrightarrow>
            match_issue_audience (rq_audience rq) \<and> rq_azp rq \<noteq> [] \<and> rq_realm rq \<noteq> [] \<and>
            rq_permissions rq \<noteq> [] \<and> match_principal (rq_subject rq) \<and>
            (rq_actor rq = [] \<or> match_principal (rq_actor rq)) \<and>
            (\<forall>p \<in> set (rq_permissions rq). match_scope p))"
proof -
  have ok: "is_ok (issue L (Some sg) now rnd rq) \<longleftrightarrow>
      match_issue_audience (rq_audience rq) \<and> rq_azp rq \<noteq> [] \<and> rq_realm rq \<noteq> [] \<and>
      rq_permissions rq \<noteq> [] \<and> match_principal (rq_subject rq) \<and>
      (rq_actor rq = [] \<or> match_principal (rq_actor rq)) \<and>
      (\<exists>ps. collect_scopes [] (rq_permissions rq) = Inr ps)"
    by (cases "collect_scopes [] (rq_permissions rq)") (auto simp: issue_def Let_def)
  have scopes: "(\<exists>ps. collect_scopes [] vs = Inr ps) \<longleftrightarrow> (\<forall>p \<in> set vs. match_scope p)" for vs
    using collect_scopes_ok collect_scopes_Inr [of "[]" vs] by auto
  have exp: "unix_seconds (now + sg_ttl sg) - unix_seconds now = k"
    using unix_seconds_add [of now k] assms by simp
  have "set (tc_permissions c) = set (rq_permissions rq) \<and> distinct (tc_permissions c) \<and>
      tc_aud c = rq_audience rq \<and> tc_sub c = rq_subject rq \<and> tc_exp c - tc_iat c = k"
    if "issue L (Some sg) now rnd rq = Inr (tok, c)" for tok c
    using that
  proof (elim issue_InrE)
    fix sg' permissions
    assume sg: "Some sg = Some sg'"
      and ps: "collect_scopes [] (rq_permissions rq) = Inr permissions"
      and c: "c = build_claims sg' now rnd rq permissions"
    show ?thesis using collect_scopes_Inr [OF ps] exp sg by (simp add: c build_claims_def)
  qed
  then show ?thesis unfolding ok scopes by (auto split: sum.split)
qed

lemma issued_token_graphic:
  assumes "issue L (Some sg) now rnd rq = Inr (tok, c)"
  shows "tok \<noteq> [] \<and> list_all graphic tok"
proof -
  have "list_all graphic (b64_encode Url s)" for s
    using b64_encode_chars by (auto simp: list_all_iff)
  moreover have "graphic CHR ''.''" by (simp add: graphic_def in_range_def)
  ultimately show ?thesis
    using assms by (elim issue_InrE) (simp add: Let_def)
qed

lemma default_audience: "\<not> match_audience ''homehub''"
  by (simp add: match_audience_def has_prefix_def)

text \<open>
  The audience IAM falls back to when none is asked for is one no verifier
  accepts: whatever keys, clock and ceiling a service configures, a token addressed to
  \<open>homehub\<close> does not verify.
\<close>

theorem default_audience_rejected:
  assumes "new_verifier keys audience max_ttl = Inr v" and "verify L v now token = Inr c"
  shows "tc_aud c \<noteq> ''homehub''"
  using new_verifier_audience [OF assms(1)] claims_validD(2) [OF verify_valid [OF assms(2)]]
    default_audience by auto


lemma issued_authenticates:
  assumes "issue L (Some sg) now rnd rq = Inr (tok, c)"
    and "sign_law L" and "codec_ok L (token_header sg) c"
    and "map_of (vf_keys v) (sg_kid sg) = Some (lib_public L (sg_key sg))"
    and "vf_audience v = rq_audience rq"
    and "sg_ttl sg = k * second" and "0 \<le> k" and "k \<le> 2 ^ 32" and "sg_ttl sg \<le> vf_max_ttl v"
    and "sg_kid sg \<noteq> []" and "rnd \<noteq> []" and "length tok \<le> max_token_bytes"
    and "usable_at sg now used"
    and bearer: "header r ''Authorization'' = ''Bearer '' @ tok"
  shows "authenticate (verify L v used) required r =
    (if required = [] \<or> system_root \<in> set (rq_permissions rq) \<or>
        set required \<inter> set (rq_permissions rq) \<noteq> {}
     then Inr c else Inl (403, ''insufficient_permission''))"
proof -
  have v: "verify L v used tok = Inr c" using assms(1-13) by (rule issued_verifies)
  have b: "bearer_token r = Inr tok"
    using bearer issued_token_graphic [OF assms(1)] by (intro bearer_token_graphic) auto
  have ps: "set (tc_permissions c) = set (rq_permissions rq)"
    using assms(1) collect_scopes_Inr by (elim issue_InrE) (force simp: build_claims_def)
  show ?thesis
    by (auto simp: authenticate_def b v allows_iff list_ex_iff ps)
qed

text \<open>
  C26. End to end: a request that carries a token IAM issued passes a service's
  middleware with the issued claims exactly when one of the required permissions, or
  \<open>system.root\<close>, was among those requested; otherwise it is refused with 403.
\<close>

theorem issued_token_authenticates:
  assumes "issue L (Some sg) now rnd rq = Inr (tok, c)"
    and "sign_law L" and "codec_ok L (token_header sg) c"
    and "map_of (vf_keys v) (sg_kid sg) = Some (lib_public L (sg_key sg))"
    and "vf_audience v = rq_audience rq"
    and "sg_ttl sg = k * second" and "0 \<le> k" and "k \<le> 2 ^ 32" and "sg_ttl sg \<le> vf_max_ttl v"
    and "sg_kid sg \<noteq> []" and "rnd \<noteq> []" and "length tok \<le> max_token_bytes"
    and "usable_at sg now used"
    and bearer: "header r ''Authorization'' = ''Bearer '' @ tok"
  shows "authenticate (verify L v used) required r =
    (if required = [] \<or> system_root \<in> set (rq_permissions rq) \<or>
        set required \<inter> set (rq_permissions rq) \<noteq> {}
     then Inr c else Inl (403, ''insufficient_permission''))"
  using assms by (rule issued_authenticates)

section \<open>A concrete issuer and verifier\<close>

text \<open>
  An instance of the parameters on which the properties above are exercised: the codec
  knows one header and one set of claims, and a signature is a 64-byte digest of the public
  key and the message that anyone could compute.
\<close>

definition ex_signer :: signer where
  "ex_signer = \<lparr>sg_kid = ''k1'', sg_key = replicate 64 CHR ''s'', sg_ttl = 120 * second\<rparr>"

definition ex_request :: issue_request where
  "ex_request = \<lparr>rq_audience = ''homehub-drop'', rq_subject = ''human:luna'', rq_actor = [],
     rq_azp = ''key-1'', rq_realm = ''homehub'', rq_permissions = [''drop.item.create''],
     rq_sid = [], rq_delegation = [], rq_amr = [''api_key''], rq_auth_at = 1000 * second\<rparr>"

definition ex_now :: instant where "ex_now = 1000 * second"
definition ex_rnd :: string where "ex_rnd = replicate 16 CHR ''r''"

definition ex_claims :: claims where
  "ex_claims = build_claims ex_signer ex_now ex_rnd ex_request [''drop.item.create'']"

definition ex_digest :: "string \<Rightarrow> string \<Rightarrow> string" where
  "ex_digest pk m = take 64 (pk @ m @ replicate 64 CHR ''0'')"

definition ex_lib :: jwt_lib where
  "ex_lib = \<lparr>lib_header = (\<lambda>s. if s = ''h'' then Some (token_header ex_signer) else None),
     lib_claims = (\<lambda>s. if s = ''c'' then Some ex_claims else None),
     lib_put_header = (\<lambda>_. ''h''), lib_put_claims = (\<lambda>_. ''c''),
     lib_public = take 32, lib_sign = (\<lambda>k. ex_digest (take 32 k)),
     lib_verify = (\<lambda>pk m s. s = ex_digest pk m)\<rparr>"

definition ex_verifier :: verifier where
  "ex_verifier = \<lparr>vf_keys = verification_keys ex_lib ex_signer, vf_audience = ''homehub-drop'',
     vf_max_ttl = 120 * second\<rparr>"

definition ex_token :: string where
  "ex_token = (let unsigned = b64_encode Url ''h'' @ ''.'' @ b64_encode Url ''c''
     in unsigned @ ''.'' @ b64_encode Url (ex_digest (take 32 (sg_key ex_signer)) unsigned))"

lemma ex_scopes: "match_scope ''drop.item.create''"
  by (simp add: match_scope_def match_dotted_def match_slug_def slug_char_def char_class_defs)

lemma ex_principal: "match_principal ''human:luna''"
  by (simp add: match_principal_def has_prefix_def trim_prefix_def match_party_def party_char_def
      char_class_defs)

lemma ex_audience: "match_audience ''homehub-drop''"
  by (simp add: match_audience_def has_prefix_def trim_prefix_def match_slug_def slug_char_def
      char_class_defs)

lemma ex_issue: "issue ex_lib (Some ex_signer) ex_now ex_rnd ex_request = Inr (ex_token, ex_claims)"
  using ex_scopes ex_principal ex_audience
  by (simp add: issue_def ex_request_def match_issue_audience_def match_audience_def
      ex_token_def ex_claims_def ex_lib_def Let_def)

lemma ex_laws: "sign_law ex_lib" "codec_ok ex_lib (token_header ex_signer) ex_claims"
  by (auto simp: sign_law_def codec_ok_def ex_lib_def ex_digest_def min_def)

lemma ex_trust:
  "map_of (vf_keys ex_verifier) (sg_kid ex_signer) = Some (lib_public ex_lib (sg_key ex_signer))"
  "vf_audience ex_verifier = rq_audience ex_request"
  by (simp_all add: ex_verifier_def verification_keys_def ex_request_def)

lemma ex_ttl: "sg_ttl ex_signer = 120 * second" "(0::int) \<le> 120" "(120::int) \<le> 2 ^ 32"
  "sg_ttl ex_signer \<le> vf_max_ttl ex_verifier" "sg_kid ex_signer \<noteq> []" "ex_rnd \<noteq> []"
  by (simp_all add: ex_signer_def ex_verifier_def ex_rnd_def)

lemma ex_size: "length ex_token \<le> max_token_bytes"
  by (simp add: ex_token_def Let_def length_b64_encode ex_digest_def max_token_bytes_def)

lemma ex_usable: "usable_at ex_signer ex_now (1050 * second)"
  by (simp add: usable_at_def ex_now_def ex_signer_def clock_skew_def)

lemmas ex_facts = ex_issue ex_laws ex_trust ex_ttl(1-4) ex_ttl(5,6) ex_size ex_usable

lemma ex_verify: "verify ex_lib ex_verifier (1050 * second) ex_token = Inr ex_claims"
  by (rule issued_verifies [OF ex_facts])

lemma ex_new_verifier:
  "new_verifier (verification_keys ex_lib ex_signer) ''homehub-drop'' (120 * second) = Inr ex_verifier"
  using ex_audience
  by (simp add: new_verifier_def ex_verifier_def verification_keys_def ex_lib_def ex_signer_def
      trim_space_graphic graphic_def in_range_def)


theorem verify_window_witness:
  "\<bar>(1050 * second :: int) - 1050 * second\<bar> < vf_max_ttl ex_verifier + clock_skew"
  by (rule verify_window [OF ex_verify ex_verify])

theorem issue_exact_witness:
  "is_ok (issue ex_lib (Some ex_signer) ex_now ex_rnd ex_request) \<and>
   set (tc_permissions ex_claims) = {''drop.item.create''}"
  using issue_exact [OF ex_ttl(1), where L = ex_lib and now = ex_now and rnd = ex_rnd and rq = ex_request]
  by (simp add: ex_issue) (simp add: ex_request_def)

theorem default_audience_rejected_witness: "tc_aud ex_claims \<noteq> ''homehub''"
  by (rule default_audience_rejected [OF ex_new_verifier ex_verify])

definition ex_http :: request where
  "ex_http = empty_request\<lparr>header := (\<lambda>k. if k = ''Authorization'' then ''Bearer '' @ ex_token else [])\<rparr>"

theorem issued_token_authenticates_witness:
  "authenticate (verify ex_lib ex_verifier (1050 * second)) [''drop.item.list''] ex_http =
     Inl (403, ''insufficient_permission'')"
  by (subst issued_token_authenticates [OF ex_facts])
    (simp_all add: ex_http_def ex_request_def system_root_def)

end
