(* ===== verification/Humanauth.thy ===== *)
theory Humanauth
  imports Iam_Store Credentials Token
begin

text \<open>
  \<open>apps/iam/internal/humanauth/service.go\<close>: set-up of the owner, login, sessions, API keys and
  shares over the tables of \<open>Iam_Store\<close>. An operation takes the database and returns its
  result with the database it leaves. \<open>Panics\<close> is a run-time panic of the handling goroutine.
  A transaction either leaves the state its statements computed or the one it started from.
\<close>

section \<open>Results, the environment of a call and the service\<close>

datatype iam_error =
    ErrInvalidCredentials | ErrInvalidBootstrap | ErrSetupUnavailable | ErrInvalidTOTP | ErrRateLimited
  | ErrInvalidSession | ErrInvalidCSRF | ErrForbidden | ErrInvalidShare | ErrInvalidAPIKey | ErrPasskey | ErrOther

datatype 'a outcome = Returns 'a | Fails iam_error | Panics

datatype iam_stmt =
    St_failures | St_owner | St_bootstrap | St_pending | St_begin | St_get_setup | St_exists | St_setup_writes
  | St_session | St_commit | St_audit | St_auth | St_csrf | St_revoke | St_list | St_key | St_share | St_use
  | St_passkey_owner | St_passkeys | St_passkey | St_sweep | St_ceremony | St_take

text \<open>
  What a call meets: the service's clock and the database's, the random bytes of its \<open>i\<close>-th
  read of \<open>n\<close> bytes (\<open>crypto/rand.Read\<close> does not fail), the identifier the database
  generates, which statements fail for a reason of their own, and whether a commit that
  reports a failure took place.
\<close>

record iam_env =
  ie_now :: instant
  ie_db :: instant
  ie_rnd :: "nat \<Rightarrow> nat \<Rightarrow> string"
  ie_id :: string
  ie_fails :: "iam_stmt \<Rightarrow> bool"
  ie_lost :: bool

record principal =
  pr_id :: string
  pr_username :: string
  pr_display :: string
  pr_kind :: string
  pr_session :: string

record session =
  se_principal :: principal
  se_token :: string
  se_csrf :: string

record setup_info =
  st_id :: string
  st_secret :: string
  st_uri :: string
  st_expires :: instant

record token_response =
  tr_access :: string
  tr_type :: string
  tr_expires :: int
  tr_audience :: string
  tr_permissions :: "string list"

record iam_service =
  sv_dummy :: string
  sv_signer :: "signer option"
  sv_passkeys :: "webauthn option"

abbreviation setup_ttl :: duration where "setup_ttl \<equiv> 15 * minute"
abbreviation session_idle_ttl :: duration where "session_idle_ttl \<equiv> 30 * day"
abbreviation session_absolute_ttl :: duration where "session_absolute_ttl \<equiv> 180 * day"

definition random_secret :: "iam_env \<Rightarrow> nat \<Rightarrow> nat \<Rightarrow> string" where
  "random_secret E i n = hex_encode (ie_rnd E i n)"

definition audit :: "iam_lib \<Rightarrow> iam_env \<Rightarrow> string \<Rightarrow> string \<Rightarrow> string \<Rightarrow> (string \<times> string) list \<Rightarrow> iam_db \<Rightarrow> iam_db" where
  "audit L E ty result ip details d =
     (if ie_fails E St_audit then d else record_audit (il_inet L) (ie_db E) ty result ip details d)"

definition commit :: "iam_env \<Rightarrow> 'a \<Rightarrow> iam_db \<Rightarrow> iam_db \<Rightarrow> 'a outcome \<times> iam_db" where
  "commit E x d d' = (if ie_fails E St_commit then (Fails ErrOther, if ie_lost E then d' else d) else (Returns x, d'))"

section \<open>Opening the service\<close>

definition read_key :: "string option \<Rightarrow> string option" where
  "read_key contents =
     Option.bind contents (\<lambda>c. Option.bind (b64_decode Std (trim_space c)) (\<lambda>key. if length key \<noteq> 32 then None else Some key))"

definition ensure_bootstrap :: "iam_lib \<Rightarrow> iam_env \<Rightarrow> string option \<Rightarrow> iam_db \<Rightarrow> unit outcome \<times> iam_db" where
  "ensure_bootstrap L E contents d =
     (case contents of
        None \<Rightarrow> (Returns (), d)
      | Some c \<Rightarrow>
          if trim_space c = [] then (Returns (), d)
          else if ie_fails E St_bootstrap then (Fails ErrOther, d)
          else (Returns (), insert_bootstrap (ie_db E) (il_sha256 L (trim_space c)) d))"

text \<open>
  \<open>Open\<close>: \<open>pool_ok\<close> is whether the database URL parses and the pool is made, \<open>passkeys\<close> what
  \<open>webauthn.New\<close> answers (\<open>None\<close> inside where it fails), \<open>None\<close> where no relying party is
  configured.
\<close>

definition open_service ::
  "iam_lib \<Rightarrow> iam_env \<Rightarrow> string option \<Rightarrow> bool \<Rightarrow> webauthn option option \<Rightarrow> string option \<Rightarrow> signer option \<Rightarrow> iam_db \<Rightarrow>
   iam_service outcome \<times> iam_db" where
  "open_service L E key_file pool_ok passkeys token_file signer d =
     (case read_key key_file of
        None \<Rightarrow> (Fails ErrOther, d)
      | Some _ \<Rightarrow>
          if \<not> pool_ok then (Fails ErrOther, d)
          else if passkeys = Some None then (Fails ErrOther, d)
          else case hash_password L ''homehub-dummy-password-never-valid'' (ie_rnd E 0 16) of
            None \<Rightarrow> (Panics, d)
          | Some dummy \<Rightarrow>
              (case ensure_bootstrap L E token_file d of
                 (Returns _, d') \<Rightarrow> (Returns \<lparr>sv_dummy = dummy, sv_signer = signer, sv_passkeys = Option.bind passkeys id\<rparr>, d')
               | (Fails e, d') \<Rightarrow> (Fails e, d')
               | (Panics, d') \<Rightarrow> (Panics, d')))"

section \<open>Sessions\<close>

text \<open>\<open>createSessionTx\<close>: the first two random reads of its callers are the two tokens.\<close>

definition create_session_tx ::
  "iam_lib \<Rightarrow> iam_env \<Rightarrow> string \<Rightarrow> string \<Rightarrow> string \<Rightarrow> string \<Rightarrow> string list \<Rightarrow> string \<Rightarrow> string \<Rightarrow> iam_db \<Rightarrow>
   (session \<times> iam_db) option" where
  "create_session_tx L E oid username display kind methods ip agent d =
     (let token = random_secret E 0 32; csrf = random_secret E 1 32 in
      if ie_fails E St_session then None
      else map_option (\<lambda>d'. (\<lparr>se_principal = \<lparr>pr_id = oid, pr_username = username, pr_display = display, pr_kind = kind,
                               pr_session = []\<rparr>, se_token = token, se_csrf = csrf\<rparr>, d'))
        (create_session_row (il_inet L) (ie_db E) (ie_id E) oid (il_sha256 L token) (il_sha256 L csrf) methods
           (ie_now E) session_idle_ttl session_absolute_ttl ip (il_sha256 L agent) d))"

definition create_session ::
  "iam_lib \<Rightarrow> iam_env \<Rightarrow> string \<Rightarrow> string \<Rightarrow> string \<Rightarrow> string \<Rightarrow> string list \<Rightarrow> string \<Rightarrow> string \<Rightarrow> iam_db \<Rightarrow>
   session outcome \<times> iam_db" where
  "create_session L E oid username display kind methods ip agent d =
     (if ie_fails E St_begin then (Fails ErrOther, d)
      else case create_session_tx L E oid username display kind methods ip agent d of
        None \<Rightarrow> (Fails ErrOther, d)
      | Some (s, d') \<Rightarrow> commit E s d d')"

definition authenticate_token :: "iam_lib \<Rightarrow> iam_env \<Rightarrow> string \<Rightarrow> iam_db \<Rightarrow> principal outcome \<times> iam_db" where
  "authenticate_token L E token d =
     (if length token < 32 \<or> ie_fails E St_auth then (Fails ErrInvalidSession, d)
      else case authenticate_session (ie_db E) (il_sha256 L token) d of
        (None, d') \<Rightarrow> (Fails ErrInvalidSession, d')
      | (Some (oid, username, display, sid), d') \<Rightarrow>
          (Returns \<lparr>pr_id = oid, pr_username = username, pr_display = display, pr_kind = ''human'', pr_session = sid\<rparr>, d'))"

definition validate_csrf :: "iam_lib \<Rightarrow> iam_env \<Rightarrow> string \<Rightarrow> string \<Rightarrow> iam_db \<Rightarrow> bool" where
  "validate_csrf L E token csrf d \<longleftrightarrow>
     32 \<le> length token \<and> 32 \<le> length csrf \<and> \<not> ie_fails E St_csrf \<and>
     validate_csrf_row (ie_db E) (il_sha256 L token) (il_sha256 L csrf) d"

definition logout :: "iam_lib \<Rightarrow> iam_env \<Rightarrow> string \<Rightarrow> iam_db \<Rightarrow> unit outcome \<times> iam_db" where
  "logout L E token d =
     (if ie_fails E St_revoke then (Fails ErrOther, d)
      else (Returns (), revoke_session (ie_db E) (il_sha256 L token) d))"

text \<open>\<open>ListSessions\<close>, \<open>RevokeSessionByID\<close> and \<open>RevokeOtherSessions\<close>: the store's, for the principal.\<close>

definition list_own_sessions :: "iam_env \<Rightarrow> principal \<Rightarrow> iam_db \<Rightarrow> session_row list outcome" where
  "list_own_sessions E p d = (if ie_fails E St_list then Fails ErrOther else Returns (list_sessions (pr_id p) d))"

definition revoke_own_session :: "iam_env \<Rightarrow> principal \<Rightarrow> string \<Rightarrow> iam_db \<Rightarrow> bool outcome \<times> iam_db" where
  "revoke_own_session E p sid d =
     (if ie_fails E St_revoke then (Fails ErrOther, d)
      else case revoke_session_by_id (ie_db E) (pr_id p) sid d of (b, d') \<Rightarrow> (Returns b, d'))"

definition revoke_others :: "iam_env \<Rightarrow> principal \<Rightarrow> string \<Rightarrow> iam_db \<Rightarrow> nat outcome \<times> iam_db" where
  "revoke_others E p current d =
     (if ie_fails E St_revoke then (Fails ErrOther, d)
      else case revoke_other_sessions (ie_db E) (pr_id p) current d of (n, d') \<Rightarrow> (Returns n, d'))"

section \<open>Setting up the owner\<close>

definition setup_required :: "iam_env \<Rightarrow> iam_db \<Rightarrow> bool outcome" where
  "setup_required E d = (if ie_fails E St_exists then Fails ErrOther else Returns (\<not> owner_exists d))"

text \<open>\<open>url.QueryEscape\<close>.\<close>

definition query_escape :: "string \<Rightarrow> string" where
  "query_escape s =
     concat (map (\<lambda>c. if is_alnum c \<or> c \<in> set ''-_.~'' then [c] else if c = CHR '' '' then ''+''
                      else [CHR ''%'', hex_upper (byte c div 16), hex_upper (byte c mod 16)]) s)"

definition provisioning_uri :: "string \<Rightarrow> string \<Rightarrow> string" where
  "provisioning_uri username secret =
     ''otpauth://totp/'' @ path_escape (''HomeHub:'' @ username) @ ''?secret='' @ query_escape secret @
     ''&issuer=HomeHub&algorithm=SHA1&digits=6&period=30''"

definition begin_setup ::
  "iam_lib \<Rightarrow> iam_env \<Rightarrow> string \<Rightarrow> string \<Rightarrow> string \<Rightarrow> string \<Rightarrow> iam_db \<Rightarrow> setup_info outcome \<times> iam_db" where
  "begin_setup L E bootstrap username display password d =
     (let u = trim_space username;
          n = (if trim_space display = [] then u else trim_space display);
          digest = il_sha256 L (trim_space bootstrap) in
      if \<not> match_username u \<or> length password < 12 \<or> length password > 256 then (Fails ErrInvalidBootstrap, d)
      else if length n > 128 then (Fails ErrInvalidBootstrap, d)
      else if ie_fails E St_bootstrap \<or> \<not> validate_bootstrap_token (ie_db E) digest d
      then (Fails ErrInvalidBootstrap, d)
      else case hash_password L password (ie_rnd E 0 16) of
        None \<Rightarrow> (Panics, d)
      | Some h \<Rightarrow>
          let secret = b32_encode (ie_rnd E 1 20); nonce = ie_rnd E 2 12; expires = ie_now E + setup_ttl in
          if ie_fails E St_pending then (Fails ErrOther, d)
          else case insert_pending_setup
              \<lparr>su_id = ie_id E, su_token = digest, su_username = u, su_normalized = to_lower (il_lower L) u,
               su_display = n, su_password = h, su_totp_cipher = il_seal L nonce secret, su_totp_nonce = nonce,
               su_expires = db_time expires\<rparr> d of
            None \<Rightarrow> (Fails ErrOther, d)
          | Some d' \<Rightarrow>
              (Returns \<lparr>st_id = ie_id E, st_secret = secret, st_uri = provisioning_uri u secret, st_expires = expires\<rparr>, d'))"

text \<open>
  \<open>ConfirmSetup\<close>. \<open>OwnerExists\<close> asks outside the transaction, which holds an advisory lock from
  its start, so no other set-up is between its own question and its commit.
\<close>

definition confirm_setup ::
  "iam_lib \<Rightarrow> iam_env \<Rightarrow> string \<Rightarrow> string \<Rightarrow> string \<Rightarrow> string \<Rightarrow> iam_db \<Rightarrow> session outcome \<times> iam_db" where
  "confirm_setup L E sid code ip agent d =
     (if ie_fails E St_begin \<or> ie_fails E St_get_setup then (Fails ErrOther, d)
      else case get_pending_setup (ie_db E) sid d of
        None \<Rightarrow> (Fails ErrSetupUnavailable, d)
      | Some s \<Rightarrow>
          (case il_open L (su_totp_nonce s) (su_totp_cipher s) of
             None \<Rightarrow> (Fails ErrOther, d)
           | Some secret \<Rightarrow>
               if \<not> validate_totp L secret code (ie_now E) then (Fails ErrInvalidTOTP, d)
               else if ie_fails E St_exists then (Fails ErrOther, d)
               else if owner_exists d then (Fails ErrSetupUnavailable, d)
               else if ie_fails E St_setup_writes then (Fails ErrOther, d)
               else case create_owner (ie_id E) s d of
                 None \<Rightarrow> (Fails ErrOther, d)
               | Some (o', d1) \<Rightarrow>
                   let d2 = delete_pending_setup sid (consume_bootstrap_token (ie_db E) (su_token s) d1) in
                   (case create_session_tx L E (ow_id o') (ow_username o') (ow_display o') ''human'' [''password'', ''otp'']
                           ip agent d2 of
                      None \<Rightarrow> (Fails ErrOther, d)
                    | Some (session, d3) \<Rightarrow>
                        (case commit E session d d3 of
                           (Returns x, d4) \<Rightarrow> (Returns x, audit L E ''owner.setup'' ''success'' ip [] d4)
                         | (r, d4) \<Rightarrow> (r, d4)))))"

section \<open>Login\<close>

definition login ::
  "iam_lib \<Rightarrow> iam_service \<Rightarrow> iam_env \<Rightarrow> string \<Rightarrow> string \<Rightarrow> string \<Rightarrow> string \<Rightarrow> string \<Rightarrow> iam_db \<Rightarrow>
   session outcome \<times> iam_db" where
  "login L S E username password code ip agent d =
     (let normalized = to_lower (il_lower L) (trim_space username);
          name_hash = hex_encode (il_sha256 L normalized) in
      if ie_fails E St_failures then (Fails ErrOther, d)
      else case login_failures (il_inet L) (ie_db E) name_hash ip d of
        None \<Rightarrow> (Fails ErrOther, d)
      | Some failures \<Rightarrow>
          if failures \<ge> 5 then (Fails ErrRateLimited, d)
          else
            let found = (if ie_fails E St_owner then None else get_owner_by_username normalized d);
                stored = (case found of None \<Rightarrow> sv_dummy S | Some o' \<Rightarrow> ow_password o');
                denied = (Fails ErrInvalidCredentials,
                          audit L E ''owner.login'' ''denied'' ip [(''username_hash'', name_hash)] d) in
            (case verify_password L password stored of
               None \<Rightarrow> (Panics, d)
             | Some False \<Rightarrow> denied
             | Some True \<Rightarrow>
                 (case found of
                    None \<Rightarrow> denied
                  | Some o' \<Rightarrow>
                      (case il_open L (ow_totp_nonce o') (ow_totp_cipher o') of
                         None \<Rightarrow> (Fails ErrOther, d)
                       | Some secret \<Rightarrow>
                           if \<not> validate_totp L secret code (ie_now E) then denied
                           else (case create_session L E (ow_id o') (ow_username o') (ow_display o') ''human''
                                        [''password'', ''otp''] ip agent d of
                                   (Returns s, d') \<Rightarrow> (Returns s, audit L E ''owner.login'' ''success'' ip [] d')
                                 | (r, d') \<Rightarrow> (r, d'))))))"

section \<open>API keys\<close>

definition key_scope_ok :: "string \<Rightarrow> bool" where
  "key_scope_ok s \<longleftrightarrow> s = ''*'' \<or> CHR ''.'' \<in> set s"

definition create_api_key ::
  "iam_lib \<Rightarrow> iam_env \<Rightarrow> principal \<Rightarrow> string \<Rightarrow> string \<Rightarrow> string list \<Rightarrow> instant option \<Rightarrow> iam_db \<Rightarrow>
   (string \<times> string) outcome \<times> iam_db" where
  "create_api_key L E p name kind scopes expires d =
     (let n = trim_space name; token = ''hh_'' @ kind @ ''_'' @ random_secret E 0 32 in
      if n = [] \<or> length n > 128 then (Fails ErrInvalidAPIKey, d)
      else if kind \<noteq> ''agent'' \<and> kind \<noteq> ''device'' \<and> kind \<noteq> ''service'' then (Fails ErrInvalidAPIKey, d)
      else if scopes = [] then (Fails ErrInvalidAPIKey, d)
      else if \<not> list_all key_scope_ok scopes then (Fails ErrInvalidAPIKey, d)
      else if ie_fails E St_key then (Fails ErrOther, d)
      else case create_api_key_row (ie_db E) (ie_id E) (pr_id p) n kind (il_sha256 L token) scopes expires d of
        None \<Rightarrow> (Fails ErrOther, d)
      | Some d' \<Rightarrow>
          (Returns (ie_id E, token),
           audit L E ''api_key.create'' ''success'' [] [(''key_id'', ie_id E), (''kind'', kind), (''name'', n)] d'))"

definition list_own_api_keys :: "iam_env \<Rightarrow> principal \<Rightarrow> iam_db \<Rightarrow> api_key list outcome" where
  "list_own_api_keys E p d = (if ie_fails E St_list then Fails ErrOther else Returns (list_api_keys (pr_id p) d))"

definition revoke_api_key :: "iam_lib \<Rightarrow> iam_env \<Rightarrow> principal \<Rightarrow> string \<Rightarrow> iam_db \<Rightarrow> bool outcome \<times> iam_db" where
  "revoke_api_key L E p kid d =
     (if ie_fails E St_revoke then (Fails ErrOther, d)
      else case revoke_api_key_row (ie_db E) (pr_id p) kid d of
        (revoked, d') \<Rightarrow>
          (Returns revoked,
           if revoked then audit L E ''api_key.revoke'' ''success'' [] [(''key_id'', kid)] d' else d'))"

definition authenticate_key :: "iam_env \<Rightarrow> string \<Rightarrow> iam_db \<Rightarrow> api_key outcome \<times> iam_db" where
  "authenticate_key E hash d =
     (if ie_fails E St_auth then (Fails ErrOther, d)
      else case authenticate_api_key (ie_db E) hash d of
        (None, d') \<Rightarrow> (Fails ErrInvalidAPIKey, d')
      | (Some k, d') \<Rightarrow> (Returns k, d'))"

section \<open>Shares\<close>

record share_input =
  si_type :: string
  si_service :: string
  si_resource_type :: string
  si_resource :: string
  si_actions :: "string list"
  si_expires :: instant
  si_max :: "int option"

definition create_share ::
  "iam_lib \<Rightarrow> iam_env \<Rightarrow> principal \<Rightarrow> share_input \<Rightarrow> iam_db \<Rightarrow> (string \<times> string) outcome \<times> iam_db" where
  "create_share L E p i d =
     (if si_service i = [] \<or> si_actions i = [] \<or> si_expires i \<le> ie_now E then (Fails ErrInvalidShare, d)
      else if si_expires i > ie_now E + 365 * day then (Fails ErrInvalidShare, d)
      else if si_type i \<noteq> ''service'' \<and> si_type i \<noteq> ''resource'' then (Fails ErrInvalidShare, d)
      else if ie_fails E St_share then (Fails ErrOther, d)
      else
        let token = random_secret E 0 32 in
        (case create_share_row (ie_db E) (ie_id E) (pr_id p) (il_sha256 L token) (si_type i) (si_service i)
            (si_resource_type i) (si_resource i) (si_actions i) (si_expires i) (si_max i) d of
           None \<Rightarrow> (Fails ErrOther, d)
         | Some d' \<Rightarrow>
             (Returns (ie_id E, token),
              audit L E ''share.create'' ''success'' []
                [(''share_id'', ie_id E), (''share_type'', si_type i), (''service_id'', si_service i)] d')))"

definition list_own_shares :: "iam_env \<Rightarrow> principal \<Rightarrow> iam_db \<Rightarrow> share list outcome" where
  "list_own_shares E p d = (if ie_fails E St_list then Fails ErrOther else Returns (list_shares (pr_id p) d))"

definition revoke_share :: "iam_lib \<Rightarrow> iam_env \<Rightarrow> principal \<Rightarrow> string \<Rightarrow> iam_db \<Rightarrow> bool outcome \<times> iam_db" where
  "revoke_share L E p sid d =
     (if ie_fails E St_revoke then (Fails ErrOther, d)
      else case revoke_share_row (ie_db E) (pr_id p) sid d of
        (revoked, d') \<Rightarrow>
          (Returns revoked,
           if revoked then audit L E ''share.revoke'' ''success'' [] [(''share_id'', sid)] d' else d'))"

text \<open>
  \<open>store.CreateSession\<close> queries through the transaction it is given; a method call on a nil
  interface is a panic. \<open>createShareSession\<close> gives it \<open>nil\<close>.
\<close>

datatype transaction = Tx

definition store_create_session ::
  "iam_lib \<Rightarrow> iam_env \<Rightarrow> transaction option \<Rightarrow> string \<Rightarrow> string \<Rightarrow> string \<Rightarrow> string list \<Rightarrow> instant \<Rightarrow> duration \<Rightarrow> duration \<Rightarrow>
   string \<Rightarrow> string \<Rightarrow> iam_db \<Rightarrow> string outcome \<times> iam_db" where
  "store_create_session L E tx oid token csrf methods now idle absolute ip agent d =
     (case tx of
        None \<Rightarrow> (Panics, d)
      | Some Tx \<Rightarrow>
          if ie_fails E St_session then (Fails ErrOther, d)
          else case create_session_row (il_inet L) (ie_db E) (ie_id E) oid token csrf methods now idle absolute ip agent d of
            None \<Rightarrow> (Fails ErrOther, d)
          | Some d' \<Rightarrow> (Returns (ie_id E), d'))"

definition create_share_session ::
  "iam_lib \<Rightarrow> iam_env \<Rightarrow> share \<Rightarrow> string \<Rightarrow> string \<Rightarrow> iam_db \<Rightarrow> session outcome \<times> iam_db" where
  "create_share_session L E s ip agent d =
     (let token = random_secret E 0 32; csrf = random_secret E 1 32;
          ttl = (if sh_expires s \<noteq> zero_time \<and> sh_expires s - ie_now E < 24 * hour then sh_expires s - ie_now E
                 else 24 * hour) in
      (case store_create_session L E None (sh_owner s) (il_sha256 L token) (il_sha256 L csrf) [''share''] (ie_now E)
              ttl ttl ip (il_sha256 L agent) d of
         (Returns _, d') \<Rightarrow>
           (Returns \<lparr>se_principal = \<lparr>pr_id = sh_owner s, pr_username = ''share'', pr_display = ''Shared Access'',
                       pr_kind = ''guest'', pr_session = []\<rparr>, se_token = token, se_csrf = csrf\<rparr>, d')
       | (Fails e, d') \<Rightarrow> (Fails e, d')
       | (Panics, d') \<Rightarrow> (Panics, d')))"

definition redeem_share ::
  "iam_lib \<Rightarrow> iam_env \<Rightarrow> string \<Rightarrow> string \<Rightarrow> string \<Rightarrow> iam_db \<Rightarrow> session outcome \<times> iam_db" where
  "redeem_share L E token ip agent d =
     (if length token < 32 then (Fails ErrInvalidShare, d)
      else if ie_fails E St_share then (Fails ErrInvalidShare, d)
      else case redeem_share_row (ie_db E) (il_sha256 L token) d of
        None \<Rightarrow> (Fails ErrInvalidShare, d)
      | Some s \<Rightarrow>
          let d1 = (if ie_fails E St_use then d else increment_share_use (sh_id s) d);
              d2 = audit L E ''share.redeem'' ''success'' ip [(''share_id'', sh_id s), (''share_type'', sh_type s)] d1
          in create_share_session L E s ip agent d2)"

section \<open>Access tokens\<close>

definition response_of :: "string \<Rightarrow> (issue_error + (string \<times> claims)) \<Rightarrow> token_response option" where
  "response_of audience r =
     (case r of
        Inl _ \<Rightarrow> None
      | Inr (encoded, c) \<Rightarrow>
          Some \<lparr>tr_access = encoded, tr_type = ''Bearer'', tr_expires = wrap64 (tc_exp c - tc_iat c),
                tr_audience = audience, tr_permissions = tc_permissions c\<rparr>)"

definition jwt_request :: "instant \<Rightarrow> string \<Rightarrow> principal \<Rightarrow> string list \<Rightarrow> issue_request" where
  "jwt_request now audience p scopes =
     \<lparr>rq_audience = audience, rq_subject = ''human:'' @ pr_id p, rq_actor = [], rq_azp = pr_session p,
      rq_realm = ''homehub'', rq_permissions = scopes, rq_sid = pr_session p, rq_delegation = [],
      rq_amr = [''session''], rq_auth_at = now\<rparr>"

definition issue_jwt ::
  "jwt_lib \<Rightarrow> iam_service \<Rightarrow> iam_env \<Rightarrow> principal \<Rightarrow> string \<Rightarrow> string list \<Rightarrow> token_response option" where
  "issue_jwt J S E p audience scopes =
     (let a = (if audience = [] then ''homehub'' else audience) in
      response_of a (issue J (sv_signer S) (ie_now E) (ie_rnd E 0 16) (jwt_request (ie_now E) a p scopes)))"

definition key_request :: "instant \<Rightarrow> string \<Rightarrow> api_key \<Rightarrow> issue_request" where
  "key_request now audience k =
     \<lparr>rq_audience = audience, rq_subject = ''human:'' @ ak_owner k, rq_actor = [], rq_azp = ak_id k,
      rq_realm = ''homehub'', rq_permissions = ak_scopes k, rq_sid = [], rq_delegation = [],
      rq_amr = [''api_key''], rq_auth_at = now\<rparr>"

definition issue_api_key_jwt ::
  "jwt_lib \<Rightarrow> iam_service \<Rightarrow> iam_env \<Rightarrow> api_key \<Rightarrow> string \<Rightarrow> token_response option" where
  "issue_api_key_jwt J S E k audience =
     (let a = (if audience = [] then ''homehub'' else audience) in
      response_of a (issue J (sv_signer S) (ie_now E) (ie_rnd E 0 16) (key_request (ie_now E) a k)))"

definition share_request :: "instant \<Rightarrow> string \<Rightarrow> share \<Rightarrow> issue_request" where
  "share_request now audience s =
     \<lparr>rq_audience = audience, rq_subject = ''share:'' @ sh_id s, rq_actor = [], rq_azp = sh_id s,
      rq_realm = ''homehub'', rq_permissions = sh_actions s, rq_sid = [], rq_delegation = [],
      rq_amr = [''share''], rq_auth_at = now\<rparr>"

definition issue_share_jwt ::
  "jwt_lib \<Rightarrow> iam_service \<Rightarrow> iam_env \<Rightarrow> share \<Rightarrow> string \<Rightarrow> token_response option" where
  "issue_share_jwt J S E s audience =
     (let a = (if audience = [] then ''homehub-'' @ sh_service s else audience) in
      response_of a (issue J (sv_signer S) (ie_now E) (ie_rnd E 0 16) (share_request (ie_now E) a s)))"

end
