(* ===== verification/Passkeys.thy ===== *)
theory Passkeys
  imports Humanauth
begin

text \<open>
  \<open>apps/iam/internal/humanauth/passkey.go\<close>: registering a passkey and logging in with one. Both
  are ceremonies of two requests; between them the library's data is kept encrypted under the
  digest of a token that the caller brings back. The statements on the two tables come first.
\<close>

section \<open>Statements\<close>

definition sweep_ceremonies :: "instant \<Rightarrow> iam_db \<Rightarrow> iam_db" where
  "sweep_ceremonies t d = d\<lparr>ia_ceremonies := filter (\<lambda>c. \<not> ce_expires c \<le> t) (ia_ceremonies d)\<rparr>"

definition insert_ceremony :: "ceremony \<Rightarrow> iam_db \<Rightarrow> iam_db option" where
  "insert_ceremony c d =
     (if ce_token c \<in> ce_token ` set (ia_ceremonies d) \<or>
         (case ce_owner c of None \<Rightarrow> False | Some oid \<Rightarrow> oid \<notin> ow_id ` set (ia_owners d))
      then None else Some (d\<lparr>ia_ceremonies := ia_ceremonies d @ [c]\<rparr>))"

text \<open>\<open>DELETE \<dots> RETURNING\<close>; the empty owner stands for \<open>owner_id IS NULL\<close>.\<close>

definition ceremony_live :: "instant \<Rightarrow> string \<Rightarrow> string \<Rightarrow> string \<Rightarrow> ceremony \<Rightarrow> bool" where
  "ceremony_live t kind oid h c \<longleftrightarrow> ce_token c = h \<and> ce_kind c = kind \<and>
     ce_owner c = (if oid = [] then None else Some oid) \<and> ce_expires c > t"

definition take_ceremony :: "instant \<Rightarrow> string \<Rightarrow> string \<Rightarrow> string \<Rightarrow> iam_db \<Rightarrow> (string \<times> string) option \<times> iam_db" where
  "take_ceremony t kind oid h d =
     (map_option (\<lambda>c. (ce_cipher c, ce_nonce c)) (List.find (ceremony_live t kind oid h) (ia_ceremonies d)),
      d\<lparr>ia_ceremonies := filter (\<lambda>c. \<not> ceremony_live t kind oid h c) (ia_ceremonies d)\<rparr>)"

definition insert_passkey :: "passkey \<Rightarrow> iam_db \<Rightarrow> iam_db option" where
  "insert_passkey k d =
     (if wk_id k \<in> wk_id ` set (ia_passkeys d) \<or> wk_owner k \<notin> ow_id ` set (ia_owners d) then None
      else Some (d\<lparr>ia_passkeys := ia_passkeys d @ [k]\<rparr>))"

definition update_passkey :: "instant \<Rightarrow> string \<Rightarrow> string \<Rightarrow> string \<Rightarrow> string \<Rightarrow> iam_db \<Rightarrow> nat \<times> iam_db" where
  "update_passkey t cid cipher nonce oid d =
     (let P = (\<lambda>k. wk_id k = cid \<and> wk_owner k = oid) in
      (length (filter P (ia_passkeys d)),
       d\<lparr>ia_passkeys := map (\<lambda>k. if P k then k\<lparr>wk_cipher := cipher, wk_nonce := nonce, wk_used := Some t\<rparr> else k)
           (ia_passkeys d)\<rparr>))"

definition delete_passkey_row :: "string \<Rightarrow> string \<Rightarrow> iam_db \<Rightarrow> nat \<times> iam_db" where
  "delete_passkey_row cid oid d =
     (let P = (\<lambda>k. wk_id k = cid \<and> wk_owner k = oid) in
      (length (filter P (ia_passkeys d)), d\<lparr>ia_passkeys := filter (\<lambda>k. \<not> P k) (ia_passkeys d)\<rparr>))"

section \<open>Accounts\<close>

record webauthn_user =
  wu_principal :: principal
  wu_credentials :: "wa_credential list"

definition webauthn_name :: "webauthn_user \<Rightarrow> string" where
  "webauthn_name u = (if pr_username (wu_principal u) \<noteq> [] then pr_username (wu_principal u) else pr_display (wu_principal u))"

text \<open>The methods of the interface \<open>webauthn.User\<close>.\<close>

definition account_of :: "webauthn_user \<Rightarrow> wa_account" where
  "account_of u = \<lparr>wa_id = pr_id (wu_principal u), wa_name = webauthn_name u, wa_display = pr_display (wu_principal u),
     wa_credentials = wu_credentials u\<rparr>"

definition read_passkey :: "iam_lib \<Rightarrow> passkey \<Rightarrow> wa_credential option" where
  "read_passkey L k = Option.bind (il_open L (wk_nonce k) (wk_cipher k)) (il_credential_of L)"

definition load_webauthn_user :: "iam_lib \<Rightarrow> iam_env \<Rightarrow> string \<Rightarrow> iam_db \<Rightarrow> webauthn_user outcome" where
  "load_webauthn_user L E oid d =
     (if ie_fails E St_passkey_owner then Fails ErrOther
      else case il_uuid L oid of
        None \<Rightarrow> Fails ErrOther
      | Some uid \<Rightarrow>
          (case active_owner uid d of
             None \<Rightarrow> Fails ErrInvalidCredentials
           | Some o' \<Rightarrow>
               if ie_fails E St_passkeys then Fails ErrOther
               else case all_some (map (read_passkey L) (filter (\<lambda>k. wk_owner k = ow_id o') (ia_passkeys d))) of
                 None \<Rightarrow> Fails ErrOther
               | Some cs \<Rightarrow> Returns \<lparr>wu_principal = \<lparr>pr_id = ow_id o', pr_username = ow_username o',
                   pr_display = ow_display o', pr_kind = ''human'', pr_session = []\<rparr>, wu_credentials = cs\<rparr>))"

section \<open>Ceremonies\<close>

abbreviation passkey_ceremony_ttl :: duration where "passkey_ceremony_ttl \<equiv> 5 * minute"

definition store_ceremony :: "iam_lib \<Rightarrow> iam_env \<Rightarrow> string \<Rightarrow> string \<Rightarrow> wa_session \<Rightarrow> iam_db \<Rightarrow> string outcome \<times> iam_db" where
  "store_ceremony L E kind oid sd d =
     (case il_session_text L sd of
        None \<Rightarrow> (Fails ErrOther, d)
      | Some encoded \<Rightarrow>
          let nonce = ie_rnd E 0 12; token = random_secret E 1 32;
              d1 = (if ie_fails E St_sweep then d else sweep_ceremonies (ie_db E) d) in
          if ie_fails E St_ceremony then (Fails ErrOther, d1)
          else case insert_ceremony \<lparr>ce_token = il_sha256 L token, ce_owner = (if oid = [] then None else Some oid),
              ce_kind = kind, ce_cipher = il_seal L nonce encoded, ce_nonce = nonce,
              ce_expires = db_time (ie_now E + passkey_ceremony_ttl)\<rparr> d1 of
            None \<Rightarrow> (Fails ErrOther, d1)
          | Some d2 \<Rightarrow> (Returns token, d2))"

text \<open>\<open>takePasskeyCeremony\<close>: the row is gone even where its data cannot be read.\<close>

definition take_passkey_ceremony ::
  "iam_lib \<Rightarrow> iam_env \<Rightarrow> string \<Rightarrow> string \<Rightarrow> string \<Rightarrow> iam_db \<Rightarrow> wa_session outcome \<times> iam_db" where
  "take_passkey_ceremony L E kind oid token d =
     (if length token < 32 then (Fails ErrPasskey, d)
      else if ie_fails E St_take then (Fails ErrOther, d)
      else case take_ceremony (ie_db E) kind oid (il_sha256 L token) d of
        (None, d1) \<Rightarrow> (Fails ErrPasskey, d1)
      | (Some (cipher, nonce), d1) \<Rightarrow>
          (case Option.bind (il_open L nonce cipher) (il_session_of L) of
             None \<Rightarrow> (Fails ErrPasskey, d1)
           | Some sd \<Rightarrow> (Returns sd, d1)))"

section \<open>Registration\<close>

definition begin_passkey_registration ::
  "iam_lib \<Rightarrow> iam_service \<Rightarrow> iam_env \<Rightarrow> principal \<Rightarrow> iam_db \<Rightarrow> (string \<times> string) outcome \<times> iam_db" where
  "begin_passkey_registration L S E p d =
     (case sv_passkeys S of
        None \<Rightarrow> (Fails ErrForbidden, d)
      | Some w \<Rightarrow>
          if pr_kind p \<noteq> ''human'' then (Fails ErrForbidden, d)
          else case load_webauthn_user L E (pr_id p) d of
            Fails e \<Rightarrow> (Fails e, d)
          | Panics \<Rightarrow> (Panics, d)
          | Returns u \<Rightarrow>
              (case wa_begin_registration w (account_of u) (ie_rnd E 2 32) of
                 None \<Rightarrow> (Fails ErrOther, d)
               | Some (options, sd) \<Rightarrow>
                   (case store_ceremony L E ''registration'' (pr_id p) sd d of
                      (Returns token, d') \<Rightarrow> (Returns (options, token), d')
                    | (Fails e, d') \<Rightarrow> (Fails e, d')
                    | (Panics, d') \<Rightarrow> (Panics, d'))))"

definition default_passkey_name :: string where "default_passkey_name = ''Bitwarden Passkey''"

text \<open>The end of \<open>FinishPasskeyRegistration\<close>, from the credential the library accepted.\<close>

definition save_passkey ::
  "iam_lib \<Rightarrow> iam_env \<Rightarrow> principal \<Rightarrow> string \<Rightarrow> wa_credential \<Rightarrow> iam_db \<Rightarrow> unit outcome \<times> iam_db" where
  "save_passkey L E p name c d =
     (case il_credential_text L c of
        None \<Rightarrow> (Fails ErrOther, d)
      | Some encoded \<Rightarrow>
          let nonce = ie_rnd E 0 12;
              n = (if trim_space name = [] then default_passkey_name else trim_space name) in
          if length n > 80 then (Fails ErrPasskey, d)
          else if ie_fails E St_passkey then (Fails ErrPasskey, d)
          else case insert_passkey \<lparr>wk_id = wc_id c, wk_owner = pr_id p, wk_name = n, wk_cipher = il_seal L nonce encoded,
              wk_nonce = nonce, wk_created = ie_db E, wk_used = None\<rparr> d of
            None \<Rightarrow> (Fails ErrPasskey, d)
          | Some d' \<Rightarrow> (Returns (), audit L E ''passkey.register'' ''success'' [] [] d'))"

definition finish_passkey_registration ::
  "iam_lib \<Rightarrow> iam_service \<Rightarrow> iam_env \<Rightarrow> principal \<Rightarrow> string \<Rightarrow> string \<Rightarrow> string \<Rightarrow> iam_db \<Rightarrow> unit outcome \<times> iam_db" where
  "finish_passkey_registration L S E p token name raw d =
     (case sv_passkeys S of
        None \<Rightarrow> (Fails ErrForbidden, d)
      | Some w \<Rightarrow>
          if pr_kind p \<noteq> ''human'' then (Fails ErrForbidden, d)
          else case take_passkey_ceremony L E ''registration'' (pr_id p) token d of
            (Fails e, d1) \<Rightarrow> (Fails e, d1)
          | (Panics, d1) \<Rightarrow> (Panics, d1)
          | (Returns sd, d1) \<Rightarrow>
              (case load_webauthn_user L E (pr_id p) d1 of
                 Fails e \<Rightarrow> (Fails e, d1)
               | Panics \<Rightarrow> (Panics, d1)
               | Returns u \<Rightarrow>
                   (case wa_finish_registration w (ie_now E) (account_of u) sd raw of
                      None \<Rightarrow> (Fails ErrPasskey, d1)
                    | Some c \<Rightarrow> save_passkey L E p name c d1)))"

section \<open>Login\<close>

definition begin_passkey_login ::
  "iam_lib \<Rightarrow> iam_service \<Rightarrow> iam_env \<Rightarrow> iam_db \<Rightarrow> (string \<times> string) outcome \<times> iam_db" where
  "begin_passkey_login L S E d =
     (case sv_passkeys S of
        None \<Rightarrow> (Fails ErrPasskey, d)
      | Some w \<Rightarrow>
          (case wa_begin_login w (ie_rnd E 2 32) of
             None \<Rightarrow> (Fails ErrOther, d)
           | Some (options, sd) \<Rightarrow>
               (case store_ceremony L E ''login'' [] sd d of
                  (Returns token, d') \<Rightarrow> (Returns (options, token), d')
                | (Fails e, d') \<Rightarrow> (Fails e, d')
                | (Panics, d') \<Rightarrow> (Panics, d'))))"

text \<open>The handler the library calls back: the account of the user handle, if it holds the credential.\<close>

definition select_user :: "iam_lib \<Rightarrow> iam_env \<Rightarrow> string \<Rightarrow> string \<Rightarrow> iam_db \<Rightarrow> webauthn_user option" where
  "select_user L E raw_id handle d =
     (case load_webauthn_user L E handle d of
        Returns u \<Rightarrow> if list_ex (\<lambda>c. wc_id c = raw_id) (wu_credentials u) then Some u else None
      | _ \<Rightarrow> None)"

definition check_assertion ::
  "iam_lib \<Rightarrow> webauthn \<Rightarrow> iam_env \<Rightarrow> wa_session \<Rightarrow> string \<Rightarrow> iam_db \<Rightarrow> (webauthn_user \<times> wa_credential) option" where
  "check_assertion L w E sd raw d =
     Option.bind (wa_assertion w sd raw) (\<lambda>(raw_id, handle).
       Option.bind (select_user L E raw_id handle d) (\<lambda>u.
         map_option (Pair u) (wa_verify_login w (ie_now E) (account_of u) sd raw)))"

text \<open>The transaction that ends a login: the new state of the credential and the session.\<close>

definition passkey_session ::
  "iam_lib \<Rightarrow> iam_env \<Rightarrow> webauthn_user \<Rightarrow> wa_credential \<Rightarrow> string \<Rightarrow> string \<Rightarrow> iam_db \<Rightarrow> session outcome \<times> iam_db" where
  "passkey_session L E u c ip agent d =
     (case il_credential_text L c of
        None \<Rightarrow> (Fails ErrOther, d)
      | Some encoded \<Rightarrow>
          let nonce = ie_rnd E 0 12; p = wu_principal u in
          if ie_fails E St_begin then (Fails ErrOther, d)
          else if ie_fails E St_passkey then (Fails ErrInvalidCredentials, d)
          else case update_passkey (ie_db E) (wc_id c) (il_seal L nonce encoded) nonce (pr_id p) d of
            (n, d1) \<Rightarrow>
              if n \<noteq> 1 then (Fails ErrInvalidCredentials, d)
              else case create_session_tx L E (pr_id p) (pr_username p) (pr_display p) ''human'' [''passkey''] ip agent d1 of
                None \<Rightarrow> (Fails ErrOther, d)
              | Some (s, d2) \<Rightarrow>
                  (case commit E s d d2 of
                     (Returns s', d3) \<Rightarrow> (Returns s', audit L E ''passkey.login'' ''success'' ip [] d3)
                   | (r, d3) \<Rightarrow> (r, d3)))"

definition finish_passkey_login ::
  "iam_lib \<Rightarrow> iam_service \<Rightarrow> iam_env \<Rightarrow> string \<Rightarrow> string \<Rightarrow> string \<Rightarrow> string \<Rightarrow> iam_db \<Rightarrow> session outcome \<times> iam_db" where
  "finish_passkey_login L S E token ip agent raw d =
     (case sv_passkeys S of
        None \<Rightarrow> (Fails ErrPasskey, d)
      | Some w \<Rightarrow>
          (case take_passkey_ceremony L E ''login'' [] token d of
             (Fails e, d1) \<Rightarrow> (Fails e, d1)
           | (Panics, d1) \<Rightarrow> (Panics, d1)
           | (Returns sd, d1) \<Rightarrow>
               (case check_assertion L w E sd raw d1 of
                  None \<Rightarrow> (Fails ErrInvalidCredentials, audit L E ''passkey.login'' ''denied'' ip [] d1)
                | Some (u, c) \<Rightarrow> passkey_session L E u c ip agent d1)))"

section \<open>Listing and deleting\<close>

definition list_passkeys :: "iam_env \<Rightarrow> principal \<Rightarrow> iam_db \<Rightarrow> (string \<times> string \<times> instant \<times> instant option) list outcome" where
  "list_passkeys E p d =
     (if ie_fails E St_list then Fails ErrOther
      else Returns (map (\<lambda>k. (b64_encode Url (wk_id k), wk_name k, wk_created k, wk_used k))
        (sort_key wk_created (filter (\<lambda>k. wk_owner k = pr_id p) (ia_passkeys d)))))"

definition delete_passkey :: "iam_lib \<Rightarrow> iam_env \<Rightarrow> principal \<Rightarrow> string \<Rightarrow> iam_db \<Rightarrow> bool outcome \<times> iam_db" where
  "delete_passkey L E p encoded d =
     (case b64_decode Url encoded of
        None \<Rightarrow> (Fails ErrPasskey, d)
      | Some cid \<Rightarrow>
          if cid = [] \<or> length cid > 1024 then (Fails ErrPasskey, d)
          else if ie_fails E St_passkey then (Fails ErrOther, d)
          else case delete_passkey_row cid (pr_id p) d of
            (n, d') \<Rightarrow>
              if n = 1 then (Returns True, audit L E ''passkey.delete'' ''success'' [] [] d') else (Returns False, d'))"

end
