(* ===== verification/Iam_Rows.thy ===== *)
theory Iam_Rows
  imports Passkeys
begin

text \<open>
  What the tables of IAM look like whatever was done to them. \<open>store_step\<close> has one rule per
  statement of \<open>Iam_Store\<close> that writes, under the conditions its callers in \<open>Humanauth\<close>
  establish first; \<open>iam_inv\<close> is kept by every one of them. The parameter \<open>K\<close> is what may
  be added: digests of ceremony tokens and identifiers of passkeys. The locale \<open>revocable\<close> states what
  revocation promises; sessions, API keys and shares are its interpretations.
\<close>

section \<open>Writing statements\<close>

text \<open>
  The credentials of an owner are well formed: a password hash the service made and an
  encrypted base32 text of the key.
\<close>

definition creds_ok :: "iam_lib \<Rightarrow> string \<Rightarrow> string \<Rightarrow> string \<Rightarrow> bool" where
  "creds_ok L h cipher nonce \<longleftrightarrow> (\<exists>pw salt. hash_password L pw salt = Some h) \<and>
     (\<exists>key. cipher = il_seal L nonce (b32_encode key))"

definition setup_ok :: "iam_lib \<Rightarrow> pending_setup \<Rightarrow> bool" where
  "setup_ok L s \<longleftrightarrow> creds_ok L (su_password s) (su_totp_cipher s) (su_totp_nonce s)"

definition owner_ok :: "iam_lib \<Rightarrow> owner \<Rightarrow> bool" where
  "owner_ok L o' \<longleftrightarrow> creds_ok L (ow_password o') (ow_totp_cipher o') (ow_totp_nonce o')"

text \<open>A stored passkey is the text of a credential with its identifier, encrypted.\<close>

definition passkey_ok :: "iam_lib \<Rightarrow> passkey \<Rightarrow> bool" where
  "passkey_ok L k \<longleftrightarrow> (\<exists>c encoded. il_credential_text L c = Some encoded \<and> wc_id c = wk_id k \<and>
     wk_cipher k = il_seal L (wk_nonce k) encoded)"

datatype addition = Ceremony_of string | Passkey_of string

inductive store_step :: "iam_lib \<Rightarrow> addition set \<Rightarrow> iam_db \<Rightarrow> iam_db \<Rightarrow> bool" for L K where
  W_bootstrap: "store_step L K d (insert_bootstrap t h d)"
| W_pending: "setup_ok L s \<Longrightarrow> insert_pending_setup s d = Some d' \<Longrightarrow> store_step L K d d'"
| W_owner: "\<not> owner_exists d \<Longrightarrow> s \<in> set (ia_setups d) \<Longrightarrow> create_owner nid s d = Some (o', d') \<Longrightarrow> store_step L K d d'"
| W_consume: "store_step L K d (consume_bootstrap_token t h d)"
| W_delete: "store_step L K d (delete_pending_setup sid d)"
| W_session: "create_session_row (il_inet L) t nid oid token csrf methods now session_idle_ttl session_absolute_ttl ip agent d =
    Some d' \<Longrightarrow> store_step L K d d'"
| W_touch: "store_step L K d (snd (authenticate_session t h d))"
| W_revoke: "store_step L K d (snd (revoke_sessions_where t P d))"
| W_key: "scopes \<noteq> [] \<Longrightarrow> list_all key_scope_ok scopes \<Longrightarrow>
    create_api_key_row t nid oid name kind token scopes expires d = Some d' \<Longrightarrow> store_step L K d d'"
| W_revoke_key: "store_step L K d (snd (revoke_api_key_row t oid kid d))"
| W_use_key: "store_step L K d (snd (authenticate_api_key t h d))"
| W_share: "create_share_row t nid oid token ty service rtype resource actions expires max_uses d = Some d' \<Longrightarrow>
    store_step L K d d'"
| W_revoke_share: "store_step L K d (snd (revoke_share_row t oid sid d))"
| W_use_share: "store_step L K d (increment_share_use sid d)"
| W_sweep: "store_step L K d (sweep_ceremonies t d)"
| W_ceremony: "Ceremony_of (ce_token c) \<in> K \<Longrightarrow> insert_ceremony c d = Some d' \<Longrightarrow> store_step L K d d'"
| W_take: "store_step L K d (snd (take_ceremony t kind oid h d))"
| W_passkey: "Passkey_of (wk_id k) \<in> K \<Longrightarrow> passkey_ok L k \<Longrightarrow> insert_passkey k d = Some d' \<Longrightarrow> store_step L K d d'"
| W_use_passkey: "il_credential_text L c = Some encoded \<Longrightarrow>
    store_step L K d (snd (update_passkey t (wc_id c) (il_seal L nonce encoded) nonce oid d))"
| W_delete_passkey: "store_step L K d (snd (delete_passkey_row cid oid d))"
| W_audit: "store_step L K d (record_audit (il_inet L) t ty result ip details d)"

abbreviation store_steps :: "iam_lib \<Rightarrow> addition set \<Rightarrow> iam_db \<Rightarrow> iam_db \<Rightarrow> bool" where
  "store_steps L K \<equiv> (store_step L K)\<^sup>*\<^sup>*"

section \<open>The invariant\<close>

definition session_ok :: "session_row \<Rightarrow> bool" where
  "session_ok s \<longleftrightarrow> sn_absolute s = sn_authenticated s + 180 * day \<and> sn_idle s \<le> sn_absolute s"

definition key_ok :: "api_key \<Rightarrow> bool" where
  "key_ok k \<longleftrightarrow> ak_kind k \<in> {''agent'', ''device'', ''service''} \<and> ak_scopes k \<noteq> [] \<and> list_all key_scope_ok (ak_scopes k)"

definition owners_ok :: "iam_db \<Rightarrow> bool" where
  "owners_ok d \<longleftrightarrow> length (ia_owners d) \<le> 1 \<and> list_all ow_active (ia_owners d)"

definition sessions_ok :: "iam_db \<Rightarrow> bool" where
  "sessions_ok d \<longleftrightarrow> distinct (map sn_token (ia_sessions d)) \<and> distinct (map sn_id (ia_sessions d)) \<and>
     list_all session_ok (ia_sessions d)"

definition keys_ok :: "iam_db \<Rightarrow> bool" where
  "keys_ok d \<longleftrightarrow> distinct (map ak_token (ia_keys d)) \<and> distinct (map ak_id (ia_keys d)) \<and> list_all key_ok (ia_keys d)"

definition shares_ok :: "iam_db \<Rightarrow> bool" where
  "shares_ok d \<longleftrightarrow> distinct (map sh_token (ia_shares d)) \<and> distinct (map sh_id (ia_shares d)) \<and>
     list_all (\<lambda>s. 0 \<le> sh_uses s \<and> sh_created s < sh_expires s) (ia_shares d)"

definition stored_creds_ok :: "iam_lib \<Rightarrow> iam_db \<Rightarrow> bool" where
  "stored_creds_ok L d \<longleftrightarrow> list_all (setup_ok L) (ia_setups d) \<and> list_all (owner_ok L) (ia_owners d)"

definition passkeys_ok :: "iam_lib \<Rightarrow> iam_db \<Rightarrow> bool" where
  "passkeys_ok L d \<longleftrightarrow> distinct (map wk_id (ia_passkeys d)) \<and> list_all (passkey_ok L) (ia_passkeys d) \<and>
     distinct (map ce_token (ia_ceremonies d))"

definition iam_inv :: "iam_lib \<Rightarrow> iam_db \<Rightarrow> bool" where
  "iam_inv L d \<longleftrightarrow> stored_creds_ok L d \<and> owners_ok d \<and> sessions_ok d \<and> keys_ok d \<and> shares_ok d \<and> passkeys_ok L d"

lemmas inv_defs = stored_creds_ok_def owners_ok_def sessions_ok_def keys_ok_def shares_ok_def passkeys_ok_def

lemma if_SomeE: "(if b then None else Some x) = Some y \<Longrightarrow> (\<not> b \<Longrightarrow> x = y \<Longrightarrow> R) \<Longrightarrow> R"
  by (simp split: if_splits)

text \<open>A statement writes one table; the facts about the others are unchanged.\<close>

lemma insert_bootstrap_frame [simp]:
  "ia_owners (insert_bootstrap t h d) = ia_owners d" "ia_sessions (insert_bootstrap t h d) = ia_sessions d"
  "ia_keys (insert_bootstrap t h d) = ia_keys d" "ia_shares (insert_bootstrap t h d) = ia_shares d"
  by (simp_all add: insert_bootstrap_def)

lemma insert_pending_frame:
  "insert_pending_setup s d = Some d' \<Longrightarrow> ia_setups d' = ia_setups d @ [s] \<and> ia_owners d' = ia_owners d \<and> ia_sessions d' = ia_sessions d \<and>
     ia_keys d' = ia_keys d \<and> ia_shares d' = ia_shares d"
  by (auto simp: insert_pending_setup_def split: if_splits)

lemma create_owner_frame:
  "create_owner nid s d = Some (o', d') \<Longrightarrow> ia_owners d' = ia_owners d @ [o'] \<and> ow_active o' \<and> ia_setups d' = ia_setups d \<and>
     ia_sessions d' = ia_sessions d \<and> ia_keys d' = ia_keys d \<and> ia_shares d' = ia_shares d"
  unfolding create_owner_def Let_def by (elim if_SomeE) (simp add: prod_eq_iff, elim conjE, drule sym, drule sym, simp)

lemma setup_writes_frame [simp]:
  "ia_owners (consume_bootstrap_token t h d) = ia_owners d" "ia_owners (delete_pending_setup sid d) = ia_owners d"
  "ia_sessions (consume_bootstrap_token t h d) = ia_sessions d" "ia_sessions (delete_pending_setup sid d) = ia_sessions d"
  "ia_keys (consume_bootstrap_token t h d) = ia_keys d" "ia_keys (delete_pending_setup sid d) = ia_keys d"
  "ia_shares (consume_bootstrap_token t h d) = ia_shares d" "ia_shares (delete_pending_setup sid d) = ia_shares d"
  by (simp_all add: consume_bootstrap_token_def delete_pending_setup_def)

lemma record_audit_frame [simp]:
  "ia_owners (record_audit i t ty r ip ds d) = ia_owners d" "ia_sessions (record_audit i t ty r ip ds d) = ia_sessions d"
  "ia_keys (record_audit i t ty r ip ds d) = ia_keys d" "ia_shares (record_audit i t ty r ip ds d) = ia_shares d"
  by (simp_all add: record_audit_def split: option.split)

lemma authenticate_session_cases:
  obtains (refused) "authenticate_session t h d = (None, d)"
  | (accepted) s o' where "s \<in> set (ia_sessions d)" "sn_token s = h" "session_live t d s"
      "active_owner (sn_owner s) d = Some o'"
      "authenticate_session t h d = (Some (ow_id o', ow_username o', ow_display o', sn_id s),
         d\<lparr>ia_sessions := map (\<lambda>x. if sn_token x = h \<and> session_live t d x then touch_session t x else x)
           (ia_sessions d)\<rparr>)"
proof (cases "List.find (\<lambda>s. sn_token s = h \<and> session_live t d s) (ia_sessions d)")
  case None
  then show ?thesis by (intro refused) (simp add: authenticate_session_def)
next
  case (Some s)
  from find_Some_mem [OF this] have s: "s \<in> set (ia_sessions d)" "sn_token s = h" "session_live t d s" by simp_all
  then obtain o' where "active_owner (sn_owner s) d = Some o'" by (auto simp: session_live_def)
  with Some s show ?thesis
    by (intro accepted [of s o']) (simp_all only: authenticate_session_def option.case)
qed

lemma authenticate_session_frame [simp]:
  "ia_owners (snd (authenticate_session t h d)) = ia_owners d"
  "ia_keys (snd (authenticate_session t h d)) = ia_keys d"
  "ia_shares (snd (authenticate_session t h d)) = ia_shares d"
  "ia_setups (snd (authenticate_session t h d)) = ia_setups d"
  by (cases rule: authenticate_session_cases [of t h d]; simp)+

lemma authenticate_session_rows:
  "ia_sessions (snd (authenticate_session t h d)) \<in>
     {ia_sessions d, map (\<lambda>x. if sn_token x = h \<and> session_live t d x then touch_session t x else x) (ia_sessions d)}"
  by (cases rule: authenticate_session_cases [of t h d]) simp_all

lemma touch_session_simps [simp]:
  "sn_token (touch_session t s) = sn_token s" "sn_id (touch_session t s) = sn_id s"
  "sn_revoked (touch_session t s) = sn_revoked s" "sn_owner (touch_session t s) = sn_owner s"
  "sn_absolute (touch_session t s) = sn_absolute s" "sn_authenticated (touch_session t s) = sn_authenticated s"
  "sn_csrf (touch_session t s) = sn_csrf s" "session_ok (touch_session t s) = (sn_absolute s = sn_authenticated s + 180 * day)"
  by (simp_all add: touch_session_def session_ok_def)

lemma revoke_sessions_frame [simp]:
  "ia_sessions (snd (revoke_sessions_where t P d)) =
     map (\<lambda>s. if P s \<and> sn_revoked s = None then s\<lparr>sn_revoked := Some t\<rparr> else s) (ia_sessions d)"
  "ia_owners (snd (revoke_sessions_where t P d)) = ia_owners d"
  "ia_keys (snd (revoke_sessions_where t P d)) = ia_keys d"
  "ia_shares (snd (revoke_sessions_where t P d)) = ia_shares d"
  by (simp_all add: revoke_sessions_where_def)

lemma create_session_frame:
  assumes "create_session_row inet t nid oid token csrf methods now idle absolute ip agent d = Some d'"
  shows "\<exists>s. ia_sessions d' = ia_sessions d @ [s] \<and> sn_token s = token \<and> sn_id s = nid \<and> sn_csrf s = csrf \<and>
     sn_owner s = oid \<and> sn_methods s = methods \<and> sn_revoked s = None \<and> sn_authenticated s = db_time now \<and>
     sn_idle s = db_time (now + idle) \<and> sn_absolute s = db_time (now + absolute)"
    "token \<notin> sn_token ` set (ia_sessions d)" "nid \<notin> sn_id ` set (ia_sessions d)" "oid \<in> ow_id ` set (ia_owners d)"
    "ia_owners d' = ia_owners d" "ia_keys d' = ia_keys d" "ia_shares d' = ia_shares d" "ia_audit d' = ia_audit d"
  using assms by (auto simp: create_session_row_def split: option.splits if_splits)

lemma create_api_key_frame:
  assumes "create_api_key_row t nid oid name kind token scopes expires d = Some d'"
  shows "\<exists>k. ia_keys d' = ia_keys d @ [k] \<and> ak_token k = token \<and> ak_id k = nid \<and> ak_owner k = oid \<and>
     ak_kind k = kind \<and> ak_scopes k = scopes \<and> ak_revoked k = None \<and> ak_expires k = map_option db_time expires"
    "token \<notin> ak_token ` set (ia_keys d)" "nid \<notin> ak_id ` set (ia_keys d)" "kind \<in> {''agent'', ''device'', ''service''}"
    "oid \<in> ow_id ` set (ia_owners d)"
    "ia_owners d' = ia_owners d" "ia_sessions d' = ia_sessions d" "ia_shares d' = ia_shares d"
  using assms by (auto simp: create_api_key_row_def split: if_splits)

lemma key_writes_frame [simp]:
  "ia_owners (snd (revoke_api_key_row t oid kid d)) = ia_owners d"
  "ia_sessions (snd (revoke_api_key_row t oid kid d)) = ia_sessions d"
  "ia_shares (snd (revoke_api_key_row t oid kid d)) = ia_shares d"
  "ia_owners (snd (authenticate_api_key t h d)) = ia_owners d"
  "ia_sessions (snd (authenticate_api_key t h d)) = ia_sessions d"
  "ia_shares (snd (authenticate_api_key t h d)) = ia_shares d"
  "ia_keys (snd (revoke_api_key_row t oid kid d)) =
     map (\<lambda>k. if ak_id k = kid \<and> ak_owner k = oid \<and> ak_revoked k = None then k\<lparr>ak_revoked := Some t\<rparr> else k) (ia_keys d)"
  "ia_keys (snd (authenticate_api_key t h d)) =
     map (\<lambda>k. if ak_token k = h \<and> api_key_live t d k then k\<lparr>ak_used := Some t\<rparr> else k) (ia_keys d)"
  by (simp_all add: revoke_api_key_row_def authenticate_api_key_def Let_def)

lemma create_share_frame:
  assumes "create_share_row t nid oid token ty service rtype resource actions expires max_uses d = Some d'"
  shows "\<exists>s. ia_shares d' = ia_shares d @ [s] \<and> sh_token s = token \<and> sh_id s = nid \<and> sh_uses s = 0 \<and>
     sh_revoked s = None \<and> sh_created s < sh_expires s"
    "token \<notin> sh_token ` set (ia_shares d)" "nid \<notin> sh_id ` set (ia_shares d)"
    "ia_owners d' = ia_owners d" "ia_sessions d' = ia_sessions d" "ia_keys d' = ia_keys d"
  using assms by (auto simp: create_share_row_def split: if_splits)

lemma share_writes_frame [simp]:
  "ia_owners (snd (revoke_share_row t oid sid d)) = ia_owners d"
  "ia_sessions (snd (revoke_share_row t oid sid d)) = ia_sessions d"
  "ia_keys (snd (revoke_share_row t oid sid d)) = ia_keys d"
  "ia_owners (increment_share_use sid d) = ia_owners d" "ia_sessions (increment_share_use sid d) = ia_sessions d"
  "ia_keys (increment_share_use sid d) = ia_keys d"
  "ia_shares (snd (revoke_share_row t oid sid d)) =
     map (\<lambda>s. if sh_id s = sid \<and> sh_owner s = oid \<and> sh_revoked s = None then s\<lparr>sh_revoked := Some t\<rparr> else s) (ia_shares d)"
  "ia_shares (increment_share_use sid d) =
     map (\<lambda>s. if sh_id s = sid then s\<lparr>sh_uses := sh_uses s + 1\<rparr> else s) (ia_shares d)"
  by (simp_all add: revoke_share_row_def increment_share_use_def Let_def)

lemma insert_ceremony_frame:
  "insert_ceremony c d = Some d' \<Longrightarrow> ce_token c \<notin> ce_token ` set (ia_ceremonies d) \<and> d' = d\<lparr>ia_ceremonies := ia_ceremonies d @ [c]\<rparr>"
  by (auto simp: insert_ceremony_def split: if_splits)

lemma insert_passkey_frame:
  "insert_passkey k d = Some d' \<Longrightarrow> wk_id k \<notin> wk_id ` set (ia_passkeys d) \<and> d' = d\<lparr>ia_passkeys := ia_passkeys d @ [k]\<rparr>"
  by (auto simp: insert_passkey_def split: if_splits)

text \<open>The statements on the other tables leave the two of the passkeys alone.\<close>

lemma passkey_frame:
  "ia_passkeys (insert_bootstrap t h d) = ia_passkeys d" "ia_ceremonies (insert_bootstrap t h d) = ia_ceremonies d"
  "ia_passkeys (consume_bootstrap_token t h d) = ia_passkeys d" "ia_ceremonies (consume_bootstrap_token t h d) = ia_ceremonies d"
  "ia_passkeys (delete_pending_setup sid d) = ia_passkeys d" "ia_ceremonies (delete_pending_setup sid d) = ia_ceremonies d"
  "ia_passkeys (snd (authenticate_session t h d)) = ia_passkeys d" "ia_ceremonies (snd (authenticate_session t h d)) = ia_ceremonies d"
  "ia_passkeys (snd (revoke_sessions_where t P d)) = ia_passkeys d" "ia_ceremonies (snd (revoke_sessions_where t P d)) = ia_ceremonies d"
  "ia_passkeys (snd (revoke_api_key_row t oid kid d)) = ia_passkeys d" "ia_ceremonies (snd (revoke_api_key_row t oid kid d)) = ia_ceremonies d"
  "ia_passkeys (snd (authenticate_api_key t h d)) = ia_passkeys d" "ia_ceremonies (snd (authenticate_api_key t h d)) = ia_ceremonies d"
  "ia_passkeys (snd (revoke_share_row t oid sid d)) = ia_passkeys d" "ia_ceremonies (snd (revoke_share_row t oid sid d)) = ia_ceremonies d"
  "ia_passkeys (increment_share_use sid d) = ia_passkeys d" "ia_ceremonies (increment_share_use sid d) = ia_ceremonies d"
  "ia_passkeys (record_audit i t ty r ip ds d) = ia_passkeys d" "ia_ceremonies (record_audit i t ty r ip ds d) = ia_ceremonies d"
  by (simp_all add: insert_bootstrap_def consume_bootstrap_token_def delete_pending_setup_def revoke_sessions_where_def
      revoke_api_key_row_def authenticate_api_key_def revoke_share_row_def increment_share_use_def record_audit_def Let_def
      authenticate_session_def split: option.split)

lemma passkey_frames:
  "insert_pending_setup s d = Some d' \<Longrightarrow> ia_passkeys d' = ia_passkeys d \<and> ia_ceremonies d' = ia_ceremonies d"
  "create_owner nid s d = Some (o', d') \<Longrightarrow> ia_passkeys d' = ia_passkeys d \<and> ia_ceremonies d' = ia_ceremonies d"
  "create_session_row i t nid oid token csrf ms now idle abs' ip ag d = Some d' \<Longrightarrow>
     ia_passkeys d' = ia_passkeys d \<and> ia_ceremonies d' = ia_ceremonies d"
  "create_api_key_row t nid oid name kind token scopes expires d = Some d' \<Longrightarrow>
     ia_passkeys d' = ia_passkeys d \<and> ia_ceremonies d' = ia_ceremonies d"
  "create_share_row t nid oid token ty service rtype resource actions exp' mu d = Some d' \<Longrightarrow>
     ia_passkeys d' = ia_passkeys d \<and> ia_ceremonies d' = ia_ceremonies d"
  "insert_ceremony c d = Some d' \<Longrightarrow> ia_passkeys d' = ia_passkeys d \<and> ia_owners d' = ia_owners d"
  "insert_passkey k d = Some d' \<Longrightarrow> ia_ceremonies d' = ia_ceremonies d \<and> ia_owners d' = ia_owners d"
  unfolding insert_pending_setup_def create_owner_def create_session_row_def create_api_key_row_def create_share_row_def
    insert_ceremony_def insert_passkey_def Let_def
  by (auto split: if_splits option.splits)

lemmas passkey_writes = sweep_ceremonies_def take_ceremony_def update_passkey_def delete_passkey_row_def

lemma passkey_writes_frame [simp]:
  "ia_owners (sweep_ceremonies t d) = ia_owners d" "ia_sessions (sweep_ceremonies t d) = ia_sessions d" "ia_keys (sweep_ceremonies t d) = ia_keys d"
  "ia_shares (sweep_ceremonies t d) = ia_shares d" "ia_setups (sweep_ceremonies t d) = ia_setups d" "ia_audit (sweep_ceremonies t d) = ia_audit d" "ia_passkeys (sweep_ceremonies t d) = ia_passkeys d"
  "ia_owners (snd (take_ceremony t kind oid h d)) = ia_owners d" "ia_sessions (snd (take_ceremony t kind oid h d)) = ia_sessions d" "ia_keys (snd (take_ceremony t kind oid h d)) = ia_keys d"
  "ia_shares (snd (take_ceremony t kind oid h d)) = ia_shares d" "ia_setups (snd (take_ceremony t kind oid h d)) = ia_setups d" "ia_audit (snd (take_ceremony t kind oid h d)) = ia_audit d" "ia_passkeys (snd (take_ceremony t kind oid h d)) = ia_passkeys d"
  "ia_owners (snd (update_passkey t cid cipher nonce oid d)) = ia_owners d" "ia_sessions (snd (update_passkey t cid cipher nonce oid d)) = ia_sessions d" "ia_keys (snd (update_passkey t cid cipher nonce oid d)) = ia_keys d"
  "ia_shares (snd (update_passkey t cid cipher nonce oid d)) = ia_shares d" "ia_setups (snd (update_passkey t cid cipher nonce oid d)) = ia_setups d" "ia_audit (snd (update_passkey t cid cipher nonce oid d)) = ia_audit d" "ia_ceremonies (snd (update_passkey t cid cipher nonce oid d)) = ia_ceremonies d"
  "ia_owners (snd (delete_passkey_row cid oid d)) = ia_owners d" "ia_sessions (snd (delete_passkey_row cid oid d)) = ia_sessions d" "ia_keys (snd (delete_passkey_row cid oid d)) = ia_keys d"
  "ia_shares (snd (delete_passkey_row cid oid d)) = ia_shares d" "ia_setups (snd (delete_passkey_row cid oid d)) = ia_setups d" "ia_audit (snd (delete_passkey_row cid oid d)) = ia_audit d" "ia_ceremonies (snd (delete_passkey_row cid oid d)) = ia_ceremonies d"
  by (simp_all add: passkey_writes Let_def)

section \<open>Every statement keeps the invariant\<close>

lemma map_upd_keeps:
  assumes "\<And>x. f (g x) = f x"
  shows "map f (map (\<lambda>x. if P x then g x else x) xs) = map f xs"
  using assms by simp

lemma list_all_upd:
  assumes "\<And>x. Q x \<Longrightarrow> Q (g x)" and "list_all Q xs"
  shows "list_all Q (map (\<lambda>x. if P x then g x else x) xs)"
  using assms by (auto simp: list_all_iff)

lemma list_all_mapI: "(\<And>x. x \<in> set xs \<Longrightarrow> Q (f x)) \<Longrightarrow> list_all Q (map f xs)"
  by (simp add: list_all_iff)

lemma owner_exists_iff: "owners_ok d \<Longrightarrow> owner_exists d \<longleftrightarrow> ia_owners d \<noteq> []"
  by (cases "ia_owners d") (auto simp: owner_exists_def owners_ok_def)

lemma create_owner_fields:
  "create_owner nid s d = Some (o', d') \<Longrightarrow> ow_username o' = su_username s \<and> ow_normalized o' = su_normalized s \<and>
     ow_password o' = su_password s \<and> ow_totp_cipher o' = su_totp_cipher s \<and> ow_totp_nonce o' = su_totp_nonce s"
  unfolding create_owner_def Let_def by (elim if_SomeE) (simp add: prod_eq_iff, elim conjE, drule sym, drule sym, simp)

lemma create_owner_ok: "create_owner nid s d = Some (o', d') \<Longrightarrow> setup_ok L s \<Longrightarrow> owner_ok L o'"
  unfolding create_owner_def Let_def
  by (elim if_SomeE) (simp add: prod_eq_iff, elim conjE, drule sym, drule sym, simp add: setup_ok_def owner_ok_def)

lemma step_setups:
  assumes "store_step L K d d'"
  shows "set (ia_setups d') \<subseteq> set (ia_setups d) \<union> {s. setup_ok L s}"
  using assms
proof cases
  case (W_owner s nid o')
  then show ?thesis using create_owner_frame [OF W_owner(3)] by auto
qed (auto simp: insert_bootstrap_def delete_pending_setup_def consume_bootstrap_token_def create_session_row_def
    revoke_sessions_where_def create_api_key_row_def revoke_api_key_row_def authenticate_api_key_def create_share_row_def
    revoke_share_row_def increment_share_use_def record_audit_def Let_def
    dest!: insert_pending_frame insert_ceremony_frame insert_passkey_frame split: if_splits option.splits)

lemma step_creds_ok:
  assumes "store_step L K d d'" and inv: "stored_creds_ok L d"
  shows "stored_creds_ok L d'"
proof -
  have "list_all (setup_ok L) (ia_setups d')"
    using step_setups [OF assms(1)] inv by (auto simp: stored_creds_ok_def list_all_iff)
  moreover have "list_all (owner_ok L) (ia_owners d')"
    using assms(1)
  proof cases
    case (W_owner s nid o')
    then have "setup_ok L s" using inv by (auto simp: stored_creds_ok_def list_all_iff)
    then show ?thesis
      using create_owner_ok [OF W_owner(3)] create_owner_frame [OF W_owner(3)] inv by (simp add: stored_creds_ok_def)
  qed (use inv in \<open>auto simp: stored_creds_ok_def dest: insert_pending_frame insert_ceremony_frame insert_passkey_frame create_session_frame create_api_key_frame create_share_frame\<close>)
  ultimately show ?thesis by (simp add: stored_creds_ok_def)
qed

lemma step_owners:
  assumes "store_step L K d d'"
  shows "ia_owners d' = ia_owners d \<or> (\<not> owner_exists d \<and> (\<exists>o'. ow_active o' \<and> ia_owners d' = ia_owners d @ [o']))"
  using assms
  by cases (auto dest: insert_pending_frame insert_ceremony_frame insert_passkey_frame create_owner_frame create_session_frame create_api_key_frame create_share_frame)

lemma step_owners_ok: "store_step L K d d' \<Longrightarrow> owners_ok d \<Longrightarrow> owners_ok d'"
  using step_owners [of L K d d'] owner_exists_iff [of d] by (auto simp: owners_ok_def)

lemma session_lifetime: "db_time (now + session_absolute_ttl) = db_time now + 180 * day"
  "db_time (now + session_idle_ttl) \<le> db_time (now + session_absolute_ttl)"
proof -
  have *: "db_time (x + 1000 * k) = db_time x + 1000 * k" for x k by (simp add: db_time_def algebra_simps)
  show "db_time (now + session_absolute_ttl) = db_time now + 180 * day"
    using * [of now "15552000000000"] by simp
  then show "db_time (now + session_idle_ttl) \<le> db_time (now + session_absolute_ttl)"
    using * [of now "2592000000000"] by simp
qed

lemma step_sessions_ok:
  assumes "store_step L K d d'" and inv: "sessions_ok d"
  shows "sessions_ok d'"
  using assms(1)
proof cases
  case (W_session t nid oid token csrf methods now ip agent)
  with create_session_frame [OF W_session] obtain s where
    "ia_sessions d' = ia_sessions d @ [s]" "sn_token s \<notin> sn_token ` set (ia_sessions d)"
    "sn_id s \<notin> sn_id ` set (ia_sessions d)" "session_ok s"
    using session_lifetime by (auto simp: session_ok_def)
  with inv show ?thesis by (simp add: sessions_ok_def)
next
  case (W_touch t h)
  then show ?thesis using authenticate_session_rows [of t h d] inv
    unfolding sessions_ok_def
    by (elim insertE emptyE; simp del: map_map add: map_upd_keeps)
      (auto intro!: list_all_upd simp: session_ok_def touch_session_def)
next
  case (W_revoke t P)
  then show ?thesis using inv
    unfolding sessions_ok_def by (simp del: map_map add: map_upd_keeps) (auto intro!: list_all_upd simp: session_ok_def)
qed (use inv in \<open>auto simp: sessions_ok_def dest: insert_pending_frame insert_ceremony_frame insert_passkey_frame create_owner_frame create_api_key_frame create_share_frame\<close>)

lemma step_keys_ok:
  assumes "store_step L K d d'" and inv: "keys_ok d"
  shows "keys_ok d'"
  using assms(1)
proof cases
  case (W_key scopes t nid oid name kind token expires)
  with create_api_key_frame [OF W_key(3)] obtain k where
    "ia_keys d' = ia_keys d @ [k]" "ak_token k \<notin> ak_token ` set (ia_keys d)" "ak_id k \<notin> ak_id ` set (ia_keys d)" "key_ok k"
    by (auto simp: key_ok_def)
  with inv show ?thesis by (simp add: keys_ok_def)
next
  case (W_revoke_key t oid kid)
  then show ?thesis using inv
    unfolding keys_ok_def by (simp del: map_map add: map_upd_keeps) (auto intro!: list_all_upd simp: key_ok_def)
next
  case (W_use_key t h)
  then show ?thesis using inv
    unfolding keys_ok_def by (simp del: map_map add: map_upd_keeps) (auto intro!: list_all_upd simp: key_ok_def)
qed (use inv in \<open>auto simp: keys_ok_def dest: insert_pending_frame insert_ceremony_frame insert_passkey_frame create_owner_frame create_session_frame create_share_frame\<close>)

lemma step_shares_ok:
  assumes "store_step L K d d'" and inv: "shares_ok d"
  shows "shares_ok d'"
  using assms(1)
proof cases
  case (W_share t nid oid token ty service rtype resource actions expires max_uses)
  with create_share_frame [OF W_share] obtain s where
    "ia_shares d' = ia_shares d @ [s]" "sh_token s \<notin> sh_token ` set (ia_shares d)" "sh_id s \<notin> sh_id ` set (ia_shares d)"
    "sh_uses s = 0" "sh_created s < sh_expires s"
    by auto
  with inv show ?thesis by (simp add: shares_ok_def)
next
  case (W_revoke_share t oid sid)
  then show ?thesis using inv
    unfolding shares_ok_def by (simp del: map_map add: map_upd_keeps) (auto intro!: list_all_upd)
next
  case (W_use_share sid)
  then show ?thesis using inv
    unfolding shares_ok_def by (simp del: map_map add: map_upd_keeps) (auto intro!: list_all_upd)
qed (use inv in \<open>auto simp: shares_ok_def dest: insert_pending_frame insert_ceremony_frame insert_passkey_frame create_owner_frame create_session_frame create_api_key_frame\<close>)

lemma step_passkeys:
  assumes "store_step L K d d'" and inv: "distinct (map wk_id (ia_passkeys d)) \<and> list_all (passkey_ok L) (ia_passkeys d)"
  shows "distinct (map wk_id (ia_passkeys d')) \<and> list_all (passkey_ok L) (ia_passkeys d')"
  using assms(1)
proof cases
  case (W_passkey k)
  then show ?thesis using insert_passkey_frame [OF W_passkey(3)] inv by auto
next
  case (W_use_passkey c encoded t nonce oid)
  let ?g = "\<lambda>k. k\<lparr>wk_cipher := il_seal L nonce encoded, wk_nonce := nonce, wk_used := Some t\<rparr>"
  let ?P = "\<lambda>k. wk_id k = wc_id c \<and> wk_owner k = oid"
  have rows: "ia_passkeys d' = map (\<lambda>k. if ?P k then ?g k else k) (ia_passkeys d)"
    unfolding W_use_passkey(1) by (simp add: update_passkey_def Let_def)
  have ok: "passkey_ok L (if ?P k then ?g k else k)" if "passkey_ok L k" for k
    using that W_use_passkey(2) by (auto simp: passkey_ok_def)
  have "list_all (passkey_ok L) (ia_passkeys d')"
    unfolding rows by (rule list_all_mapI, rule ok) (use inv in \<open>simp add: list_all_iff\<close>)
  moreover have "map wk_id (ia_passkeys d') = map wk_id (ia_passkeys d)" unfolding rows by (rule map_upd_keeps) simp
  ultimately show ?thesis using inv by simp
next
  case (W_delete_passkey cid oid)
  then show ?thesis using inv by (auto simp: delete_passkey_row_def Let_def list_all_iff distinct_map_filter)
qed (use inv in \<open>auto simp: passkey_frame dest: passkey_frames\<close>)

lemma step_ceremonies:
  assumes "store_step L K d d'" and inv: "distinct (map ce_token (ia_ceremonies d))"
  shows "distinct (map ce_token (ia_ceremonies d'))"
  using assms(1)
proof cases
  case (W_ceremony c)
  then show ?thesis using insert_ceremony_frame [OF W_ceremony(2)] inv by auto
next
  case (W_sweep t)
  then show ?thesis using inv by (simp add: sweep_ceremonies_def distinct_map_filter)
next
  case (W_take t kind oid h)
  then show ?thesis using inv by (simp add: take_ceremony_def distinct_map_filter)
qed (use inv in \<open>auto simp: passkey_frame dest: passkey_frames\<close>)

lemma step_passkeys_ok: "store_step L K d d' \<Longrightarrow> passkeys_ok L d \<Longrightarrow> passkeys_ok L d'"
  using step_passkeys step_ceremonies unfolding passkeys_ok_def by blast

lemma step_inv [inv_intros]: "store_step L K d d' \<Longrightarrow> iam_inv L d \<Longrightarrow> iam_inv L d'"
  by (simp add: iam_inv_def step_creds_ok step_owners_ok step_sessions_ok step_keys_ok step_shares_ok step_passkeys_ok)

lemma steps_inv [inv_intros]: "store_steps L K d d' \<Longrightarrow> iam_inv L d \<Longrightarrow> iam_inv L d'"
  by (induction rule: rtranclp_induct) (auto intro: step_inv)

lemma empty_inv [inv_intros]: "iam_inv L empty_iam"
  by (simp add: iam_inv_def inv_defs empty_iam_def)

lemma steps_owners:
  assumes "store_steps L K d d'" and "owners_ok d" and "ia_owners d \<noteq> []"
  shows "ia_owners d' = ia_owners d"
  using assms
proof (induction rule: rtranclp_induct)
  case base
  then show ?case by simp
next
  case (step y z)
  have "owners_ok y" using step.hyps(1) step.prems(1)
    by (induction rule: rtranclp_induct) (auto intro: step_owners_ok)
  with step step_owners [of L K y z] owner_exists_iff [of y] show ?case by simp
qed

section \<open>Revocation is final\<close>

text \<open>
  The interface of a kind of credential: \<open>accepts t h d\<close>, that the store accepts the one with
  digest \<open>h\<close> at time \<open>t\<close>; \<open>revoked h d\<close>, that it was issued and withdrawn; \<open>step\<close>, whatever
  may happen to the store. What is withdrawn is not accepted, and nothing undoes it.
\<close>

locale revocable =
  fixes step :: "'d \<Rightarrow> 'd \<Rightarrow> bool"
    and revoked :: "string \<Rightarrow> 'd \<Rightarrow> bool"
    and accepts :: "instant \<Rightarrow> string \<Rightarrow> 'd \<Rightarrow> bool"
  assumes refuses: "revoked h d \<Longrightarrow> \<not> accepts t h d"
    and keeps: "step d d' \<Longrightarrow> revoked h d \<Longrightarrow> revoked h d'"
begin

lemma stays_revoked: "step\<^sup>*\<^sup>* d d' \<Longrightarrow> revoked h d \<Longrightarrow> revoked h d'"
  by (induction rule: rtranclp_induct) (auto intro: keeps)

lemma never_accepted_again: "revoked h d \<Longrightarrow> step\<^sup>*\<^sup>* d d' \<Longrightarrow> \<not> accepts t h d'"
  using refuses stays_revoked by blast

end

definition all_revoked :: "('r \<Rightarrow> string) \<Rightarrow> ('r \<Rightarrow> instant option) \<Rightarrow> string \<Rightarrow> 'r list \<Rightarrow> bool" where
  "all_revoked tok rv h rows \<longleftrightarrow> h \<in> tok ` set rows \<and> list_all (\<lambda>r. tok r = h \<longrightarrow> rv r \<noteq> None) rows"

text \<open>What a statement may do to a table of credentials.\<close>

definition row_step :: "('r \<Rightarrow> string) \<Rightarrow> ('r \<Rightarrow> instant option) \<Rightarrow> 'r list \<Rightarrow> 'r list \<Rightarrow> bool" where
  "row_step tok rv rows rows' \<longleftrightarrow> rows' = rows \<or> (\<exists>r. rows' = rows @ [r] \<and> tok r \<notin> tok ` set rows) \<or>
     (\<exists>P g. rows' = map (\<lambda>x. if P x then g x else x) rows \<and>
        (\<forall>x. tok (g x) = tok x \<and> (rv x \<noteq> None \<longrightarrow> rv (g x) \<noteq> None)))"

lemma row_stepI:
  "row_step tok rv rows rows" "tok r \<notin> tok ` set rows \<Longrightarrow> row_step tok rv rows (rows @ [r])"
  "(\<And>x. tok (g x) = tok x) \<Longrightarrow> (\<And>x. rv x \<noteq> None \<Longrightarrow> rv (g x) \<noteq> None) \<Longrightarrow>
     row_step tok rv rows (map (\<lambda>x. if P x then g x else x) rows)"
  unfolding row_step_def by blast+

lemma all_revokedD: "all_revoked tok rv h rows \<Longrightarrow> r \<in> set rows \<Longrightarrow> tok r = h \<Longrightarrow> rv r \<noteq> None"
  by (auto simp: all_revoked_def list_all_iff)

lemma all_revoked_map:
  assumes "h \<in> tok ` set rows" and "\<And>x. tok (g x) = tok x"
    and "\<And>x. x \<in> set rows \<Longrightarrow> tok x = h \<Longrightarrow> rv (if P x then g x else x) \<noteq> None"
  shows "all_revoked tok rv h (map (\<lambda>x. if P x then g x else x) rows)"
proof -
  have "tok ` set (map (\<lambda>x. if P x then g x else x) rows) = tok ` set rows"
    using map_upd_keeps [of tok g P rows] assms(2) by (metis list.set_map)
  moreover have "rv r \<noteq> None"
    if "r \<in> set (map (\<lambda>x. if P x then g x else x) rows)" "tok r = h" for r
  proof -
    from that(1) obtain x where x: "x \<in> set rows" "r = (if P x then g x else x)" unfolding set_map by blast
    then have "tok x = h" using assms(2) that(2) by (simp split: if_splits)
    then show ?thesis using assms(3) x by blast
  qed
  ultimately show ?thesis using assms(1) unfolding all_revoked_def list_all_iff by blast
qed

lemma row_step_revoked:
  assumes "row_step tok rv rows rows'" and rev: "all_revoked tok rv h rows"
  shows "all_revoked tok rv h rows'"
  using assms(1) unfolding row_step_def
proof (elim disjE exE conjE)
  fix P g
  assume rows': "rows' = map (\<lambda>x. if P x then g x else x) rows"
    and g: "\<forall>x. tok (g x) = tok x \<and> (rv x \<noteq> None \<longrightarrow> rv (g x) \<noteq> None)"
  have "tok ` set rows' = tok ` set rows"
    using g map_upd_keeps [of tok g P rows] unfolding rows' by (metis list.set_map)
  with rev show ?thesis unfolding all_revoked_def
    using g by (auto simp: list_all_iff rows')
qed (use rev in \<open>auto simp: all_revoked_def\<close>)

lemma session_row_step:
  assumes "store_step L K d d'"
  shows "row_step sn_token sn_revoked (ia_sessions d) (ia_sessions d')"
  using assms
proof cases
  case (W_session t nid oid token csrf methods now ip agent)
  then show ?thesis using create_session_frame(1,2) [OF W_session] by (auto intro: row_stepI)
next
  case (W_touch t h)
  then show ?thesis using authenticate_session_rows [of t h d] by (auto intro!: row_stepI)
qed (auto intro!: row_stepI dest: insert_pending_frame insert_ceremony_frame insert_passkey_frame create_owner_frame create_api_key_frame create_share_frame)

lemma key_row_step:
  assumes "store_step L K d d'"
  shows "row_step ak_token ak_revoked (ia_keys d) (ia_keys d')"
  using assms
proof cases
  case (W_key scopes t nid oid name kind token expires)
  then show ?thesis using create_api_key_frame(1,2) [OF W_key(3)] by (auto intro: row_stepI)
qed (auto intro!: row_stepI dest: insert_pending_frame insert_ceremony_frame insert_passkey_frame create_owner_frame create_session_frame create_share_frame)

lemma share_row_step:
  assumes "store_step L K d d'"
  shows "row_step sh_token sh_revoked (ia_shares d) (ia_shares d')"
  using assms
proof cases
  case (W_share t nid oid token ty service rtype resource actions expires max_uses)
  then show ?thesis using create_share_frame(1,2) [OF W_share] by (auto intro: row_stepI)
qed (auto intro!: row_stepI dest: insert_pending_frame insert_ceremony_frame insert_passkey_frame create_owner_frame create_session_frame create_api_key_frame)

abbreviation session_revoked :: "string \<Rightarrow> iam_db \<Rightarrow> bool" where
  "session_revoked h d \<equiv> all_revoked sn_token sn_revoked h (ia_sessions d)"
abbreviation key_revoked :: "string \<Rightarrow> iam_db \<Rightarrow> bool" where
  "key_revoked h d \<equiv> all_revoked ak_token ak_revoked h (ia_keys d)"
abbreviation share_revoked :: "string \<Rightarrow> iam_db \<Rightarrow> bool" where
  "share_revoked h d \<equiv> all_revoked sh_token sh_revoked h (ia_shares d)"

lemma authenticate_session_live:
  "fst (authenticate_session t h d) \<noteq> None \<Longrightarrow> \<exists>s \<in> set (ia_sessions d). sn_token s = h \<and> session_live t d s"
  by (cases rule: authenticate_session_cases [of t h d]) auto

lemma authenticate_api_key_live:
  "fst (authenticate_api_key t h d) \<noteq> None \<Longrightarrow> \<exists>k \<in> set (ia_keys d). ak_token k = h \<and> api_key_live t d k"
  by (auto simp: authenticate_api_key_def Let_def dest: find_Some_mem)

lemma redeem_share_live: "redeem_share_row t h d = Some s \<Longrightarrow> s \<in> set (ia_shares d) \<and> sh_token s = h \<and> share_live t s"
  by (auto simp: redeem_share_row_def dest: find_Some_mem)

interpretation session_store: revocable "store_step L K" session_revoked
    "\<lambda>t h d. fst (authenticate_session t h d) \<noteq> None" for L K
proof unfold_locales
  show "\<not> fst (authenticate_session t h d) \<noteq> None" if "session_revoked h d" for h d t
    using authenticate_session_live all_revokedD [OF that] unfolding session_live_def by meson
qed (rule row_step_revoked [OF session_row_step])

interpretation key_store: revocable "store_step L K" key_revoked
    "\<lambda>t h d. fst (authenticate_api_key t h d) \<noteq> None" for L K
proof unfold_locales
  show "\<not> fst (authenticate_api_key t h d) \<noteq> None" if "key_revoked h d" for h d t
    using authenticate_api_key_live all_revokedD [OF that] unfolding api_key_live_def by meson
qed (rule row_step_revoked [OF key_row_step])

interpretation share_store: revocable "store_step L K" share_revoked
    "\<lambda>t h d. redeem_share_row t h d \<noteq> None" for L K
proof unfold_locales
  show "\<not> redeem_share_row t h d \<noteq> None" if "share_revoked h d" for h d t
    using redeem_share_live all_revokedD [OF that] unfolding share_live_def by (metis not_None_eq)
qed (rule row_step_revoked [OF share_row_step])

end
