(* ===== verification/Iam_Safety.thy ===== *)
theory Iam_Safety
  imports Iam_Rows
begin

text \<open>
  IAM as a state machine: \<open>iam_step\<close> has one rule per operation of the service, with every
  input, every clock reading and every failure. Each operation is a sequence of the
  statements of \<open>store_step\<close>, so the invariants and the finality of revocation carry over.
\<close>

section \<open>Operations are sequences of statements\<close>

lemma steps_then: "store_steps L K d d' \<Longrightarrow> store_step L K d' d'' \<Longrightarrow> store_steps L K d d''"
  by (rule rtranclp.rtrancl_into_rtrancl)

lemma steps_audit: "store_steps L K d d' \<Longrightarrow> store_steps L K d (audit L E ty r ip ds d')"
  by (auto simp: audit_def intro: steps_then W_audit)

text \<open>One rule per control structure of an operation; what is left are its exits.\<close>

lemma run_if:
  "(b \<Longrightarrow> store_steps L K d (snd x)) \<Longrightarrow> (\<not> b \<Longrightarrow> store_steps L K d (snd y)) \<Longrightarrow> store_steps L K d (snd (if b then x else y))"
  by simp

lemma run_option:
  "(m = None \<Longrightarrow> store_steps L K d (snd x)) \<Longrightarrow> (\<And>v. m = Some v \<Longrightarrow> store_steps L K d (snd (f v))) \<Longrightarrow>
     store_steps L K d (snd (case m of None \<Rightarrow> x | Some v \<Rightarrow> f v))"
  by (cases m) simp_all

lemma run_pair: "(\<And>a b. m = (a, b) \<Longrightarrow> store_steps L K d (snd (f a b))) \<Longrightarrow> store_steps L K d (snd (case m of (a, b) \<Rightarrow> f a b))"
  by (cases m) simp

lemma run_bool:
  "(m \<Longrightarrow> store_steps L K d (snd x)) \<Longrightarrow> (\<not> m \<Longrightarrow> store_steps L K d (snd y)) \<Longrightarrow>
     store_steps L K d (snd (case m of True \<Rightarrow> x | False \<Rightarrow> y))"
  by (cases m) simp_all

lemma run_outcome:
  "(\<And>v. m = Returns v \<Longrightarrow> store_steps L K d (snd (f v))) \<Longrightarrow> (\<And>e. m = Fails e \<Longrightarrow> store_steps L K d (snd (g e))) \<Longrightarrow>
     (m = Panics \<Longrightarrow> store_steps L K d (snd x)) \<Longrightarrow>
     store_steps L K d (snd (case m of Returns v \<Rightarrow> f v | Fails e \<Rightarrow> g e | Panics \<Rightarrow> x))"
  by (cases m) simp_all

lemma run_refl: "store_steps L K d (snd (r, d))"
  by simp

lemmas run_intros = run_if run_option run_pair run_bool run_outcome run_refl

lemma ensure_bootstrap_steps: "store_steps L K d (snd (ensure_bootstrap L E c d))"
  by (auto simp: ensure_bootstrap_def split: option.splits intro: W_bootstrap)

lemma begin_setup_steps: "store_steps L K d (snd (begin_setup L E b u n p d))"
  unfolding begin_setup_def Let_def
  by (intro run_intros) (unfold snd_conv, rule r_into_rtranclp, erule W_pending [rotated],
      auto simp: setup_ok_def creds_ok_def)

lemma create_session_txE:
  assumes "create_session_tx L E oid u n k ms ip ag d = Some (s, d')"
  obtains "create_session_row (il_inet L) (ie_db E) (ie_id E) oid (il_sha256 L (random_secret E 0 32))
      (il_sha256 L (random_secret E 1 32)) ms (ie_now E) session_idle_ttl session_absolute_ttl ip (il_sha256 L ag) d = Some d'"
    "s = \<lparr>se_principal = \<lparr>pr_id = oid, pr_username = u, pr_display = n, pr_kind = k, pr_session = []\<rparr>,
       se_token = random_secret E 0 32, se_csrf = random_secret E 1 32\<rparr>" "\<not> ie_fails E St_session"
  using assms unfolding create_session_tx_def Let_def
  by (simp only: map_option_eq_Some prod.inject option.distinct split: if_split_asm) blast

lemma create_session_tx_steps:
  "create_session_tx L E oid u n k ms ip ag d = Some (s, d') \<Longrightarrow> store_steps L K d d'"
  by (elim create_session_txE) (rule r_into_rtranclp, rule W_session)

lemma commit_steps: "store_steps L K d d' \<Longrightarrow> commit E x d d' = (r, d'') \<Longrightarrow> store_steps L K d d''"
  by (auto simp: commit_def split: if_splits)

lemma create_session_steps:
  assumes "create_session L E oid u n k ms ip ag d = (r, d')"
  shows "store_steps L K d d'"
proof (cases "create_session_tx L E oid u n k ms ip ag d")
  case None
  with assms show ?thesis by (auto simp: create_session_def split: if_splits)
next
  case (Some p)
  then obtain s d1 where p: "create_session_tx L E oid u n k ms ip ag d = Some (s, d1)" by (cases p) auto
  with assms show ?thesis
    using commit_steps [OF create_session_tx_steps [OF p]] by (auto simp: create_session_def split: if_splits)
qed

lemma confirm_setup_steps: "store_steps L K d (snd (confirm_setup L E sid code ip ag d))"
proof -
  have writes: "store_steps L K d (delete_pending_setup sid (consume_bootstrap_token t h d1))"
    if "\<not> owner_exists d" "s \<in> set (ia_setups d)" "create_owner nid s d = Some (o', d1)" for t h nid s o' d1
    by (rule steps_then [OF steps_then [OF r_into_rtranclp [where r = "store_step L K", OF W_owner [OF that]] W_consume] W_delete])
  have main: "store_steps L K d d4"
    if "\<not> owner_exists d" "get_pending_setup now sid d = Some s" "create_owner nid s d = Some (o', d1)"
      "create_session_tx L E oid u n k ms ip ag (delete_pending_setup sid (consume_bootstrap_token t h d1)) = Some (x, d3)"
      "commit E x d d3 = (r, d4)"
    for now nid s o' d1 oid u n k ms t h x d3 r d4
    using that(2) find_Some_mem [of _ "ia_setups d" s] unfolding get_pending_setup_def
    by (intro commit_steps [OF rtranclp_trans [OF writes [OF that(1) _ that(3)] create_session_tx_steps [OF that(4)]] that(5)]) blast
  show ?thesis
    unfolding confirm_setup_def Let_def by (intro run_intros; unfold snd_conv; (intro steps_audit)?; simp only: option.inject; (rule main; assumption))
qed

lemma login_steps: "store_steps L K d (snd (login L S E u p c ip ag d))"
  unfolding login_def Let_def
  by (intro run_intros; unfold snd_conv; (intro steps_audit)?; (erule create_session_steps | rule rtranclp.rtrancl_refl))

lemma session_op_steps:
  "store_steps L K d (snd (authenticate_token L E tok d))"
  "store_steps L K d (snd (logout L E tok d))"
  "store_steps L K d (snd (revoke_own_session E p sid d))"
  "store_steps L K d (snd (revoke_others E p sid d))"
proof -
  have touch: "store_steps L K d d'" if "authenticate_session t h d = (r, d')" for t h r d'
    using W_touch [of L K d t h] that by auto
  have "store_steps L K d (snd (case authenticate_session t h d of
      (None, d') \<Rightarrow> (Fails ErrInvalidSession, d')
    | (Some (a, b, c, e), d') \<Rightarrow> (Returns (f a b c e), d')))" for t h and f :: "string \<Rightarrow> string \<Rightarrow> string \<Rightarrow> string \<Rightarrow> principal"
    by (intro run_intros; unfold snd_conv; erule touch)
  then show "store_steps L K d (snd (authenticate_token L E tok d))"
    unfolding authenticate_token_def by (intro run_if run_refl)
  show "store_steps L K d (snd (logout L E tok d))"
    by (auto simp: logout_def revoke_session_def intro: W_revoke)
  have revoke: "store_steps L K d (snd (revoke_sessions_where t P d))" for t P by (auto intro: W_revoke)
  show "store_steps L K d (snd (revoke_own_session E p sid d))"
    using revoke by (auto simp: revoke_own_session_def revoke_session_by_id_def split_beta)
  show "store_steps L K d (snd (revoke_others E p sid d))"
    using revoke by (auto simp: revoke_others_def revoke_other_sessions_def split_beta)
qed

lemma create_api_key_steps: "store_steps L K d (snd (create_api_key L E p n k ss ex d))"
proof -
  have row: "store_steps L K d d'"
    if "ss \<noteq> []" "list_all key_scope_ok ss" "create_api_key_row t i oid m k tk ss ex d = Some d'" for t i oid m tk d'
    using that by (auto intro: W_key)
  show ?thesis
    unfolding create_api_key_def Let_def
    by (intro run_intros; unfold snd_conv; intro steps_audit; (rule row; simp only: not_not simp_thms))
qed

lemma key_op_steps:
  "store_steps L K d (snd (revoke_api_key L E p kid d))"
  "store_steps L K d (snd (authenticate_key E h d))"
proof -
  have "store_steps L K d (snd (revoke_api_key_row t oid kid d))" for t oid by (auto intro: W_revoke_key)
  then show "store_steps L K d (snd (revoke_api_key L E p kid d))"
    by (auto simp: revoke_api_key_def split_beta intro: steps_audit)
  have "store_steps L K d (snd (authenticate_api_key t h d))" for t by (auto intro: W_use_key)
  then show "store_steps L K d (snd (authenticate_key E h d))"
    by (auto simp: authenticate_key_def split_beta split: option.splits)
qed

lemma create_share_steps: "store_steps L K d (snd (create_share L E p i d))"
proof -
  have row: "store_steps L K d d'" if "create_share_row t n oid tk ty sv rt rs ac ex mu d = Some d'"
    for t n oid tk ty sv rt rs ac ex mu d'
    using that by (auto intro: W_share)
  show ?thesis
    unfolding create_share_def Let_def
    by (intro run_intros; unfold snd_conv; intro steps_audit; erule row)
qed

lemma create_share_session_panics: "create_share_session L E s ip ag d = (Panics, d)"
  by (simp add: create_share_session_def store_create_session_def)

lemma share_op_steps:
  "store_steps L K d (snd (revoke_share L E p sid d))"
  "store_steps L K d (snd (redeem_share L E tok ip ag d))"
proof -
  have "store_steps L K d (snd (revoke_share_row t oid sid d))" for t oid by (auto intro: W_revoke_share)
  then show "store_steps L K d (snd (revoke_share L E p sid d))"
    by (auto simp: revoke_share_def split_beta intro: steps_audit)
  show "store_steps L K d (snd (redeem_share L E tok ip ag d))"
    unfolding redeem_share_def Let_def create_share_session_panics
    by (intro run_intros; unfold snd_conv; intro steps_audit) (auto intro: W_use_share)
qed

subsection \<open>Passkeys\<close>

lemma store_ceremony_steps:
  assumes "Ceremony_of (il_sha256 L (random_secret E 1 32)) \<in> K"
  shows "store_steps L K d (snd (store_ceremony L E kind oid sd d))"
proof -
  let ?d1 = "if ie_fails E St_sweep then d else sweep_ceremonies (ie_db E) d"
  have sweep: "store_steps L K d ?d1" by (auto intro: W_sweep)
  have insert: "store_steps L K d d2"
    if "insert_ceremony \<lparr>ce_token = il_sha256 L (random_secret E 1 32), ce_owner = oo, ce_kind = kd, ce_cipher = ci,
          ce_nonce = no, ce_expires = ex\<rparr> ?d1 = Some d2" for oo kd ci no ex d2
    by (rule steps_then [OF sweep W_ceremony [OF _ that]]) (use assms in simp)
  show ?thesis
    unfolding store_ceremony_def Let_def
    by (intro run_intros; unfold snd_conv; (rule sweep | erule insert))
qed

lemma take_passkey_ceremony_steps: "store_steps L K d (snd (take_passkey_ceremony L E kind oid token d))"
proof -
  have "store_steps L K d d'" if "take_ceremony t kind oid h d = (r, d')" for t h r d'
    using W_take [of L K d t kind oid h] that by auto
  then show ?thesis
    unfolding take_passkey_ceremony_def by (auto split: option.split prod.split)
qed

text \<open>What the body of a registration may register.\<close>

definition registers :: "iam_service \<Rightarrow> iam_env \<Rightarrow> string \<Rightarrow> string \<Rightarrow> bool" where
  "registers S E raw cid \<longleftrightarrow> (\<exists>w u sd c. sv_passkeys S = Some w \<and>
     wa_finish_registration w (ie_now E) u sd raw = Some c \<and> wc_id c = cid)"

lemma save_passkey_steps:
  assumes "Passkey_of (wc_id c) \<in> K"
  shows "store_steps L K d (snd (save_passkey L E p name c d))"
proof -
  have row: "store_steps L K d d'"
    if "il_credential_text L c = Some encoded"
      "insert_passkey \<lparr>wk_id = wc_id c, wk_owner = ow, wk_name = n, wk_cipher = il_seal L no encoded, wk_nonce = no,
         wk_created = cr, wk_used = us\<rparr> d = Some d'" for encoded ow n no cr us d'
    by (rule r_into_rtranclp, rule W_passkey [OF _ _ that(2)]) (use assms that(1) in \<open>auto simp: passkey_ok_def\<close>)
  show ?thesis
    unfolding save_passkey_def Let_def
    by (intro run_intros; unfold snd_conv; intro steps_audit; (rule row; assumption))
qed

lemma passkey_session_steps: "store_steps L K d (snd (passkey_session L E u c ip agent d))"
proof -
  have main: "store_steps L K d d3"
    if "il_credential_text L c = Some encoded" "update_passkey t (wc_id c) (il_seal L no encoded) no oid d = (n, d1)"
      "create_session_tx L E oid' un di ki ms ip' ag d1 = Some (x, d2)" "commit E x d d2 = (r, d3)"
    for encoded t no oid n d1 oid' un di ki ms ip' ag x d2 r d3
  proof -
    have "store_steps L K d d1" using W_use_passkey [OF that(1), of K d t no oid] that(2) by auto
    then have "store_steps L K d d2" using create_session_tx_steps [OF that(3)] by (rule rtranclp_trans)
    then show ?thesis using that(4) by (rule commit_steps)
  qed
  show ?thesis
    unfolding passkey_session_def Let_def
    by (intro run_intros; unfold snd_conv; (intro steps_audit)?; simp only: option.inject; (rule main; assumption))
qed

lemma passkey_begin_steps:
  assumes "Ceremony_of (il_sha256 L (random_secret E 1 32)) \<in> K"
  shows "store_steps L K d (snd (begin_passkey_registration L S E p d))"
    "store_steps L K d (snd (begin_passkey_login L S E d))"
proof -
  have "store_steps L K d d'" if "store_ceremony L E kind oid sd d = (r, d')" for kind oid sd r d'
    using store_ceremony_steps [OF assms, of d kind oid sd] that by simp
  then show "store_steps L K d (snd (begin_passkey_registration L S E p d))" "store_steps L K d (snd (begin_passkey_login L S E d))"
    by (auto simp: begin_passkey_registration_def begin_passkey_login_def split: option.split outcome.split prod.split)
qed

lemma passkey_finish_steps:
  "\<forall>cid. registers S E raw cid \<longrightarrow> Passkey_of cid \<in> K \<Longrightarrow>
     store_steps L K d (snd (finish_passkey_registration L S E p token name raw d))"
  "store_steps L K d (snd (finish_passkey_login L S E token ip agent raw d))"
proof -
  have take: "store_steps L K d d1" if "take_passkey_ceremony L E kind oid token d = (r, d1)" for kind oid r d1
    using take_passkey_ceremony_steps [of L K d E kind oid token] that by simp
  have "store_steps L K d (snd (save_passkey L E p name c d1))"
    if "\<forall>cid. registers S E raw cid \<longrightarrow> Passkey_of cid \<in> K" "take_passkey_ceremony L E kind oid token d = (r, d1)"
      "sv_passkeys S = Some w" "wa_finish_registration w (ie_now E) u sd raw = Some c" for kind oid r d1 w u sd c
    by (rule rtranclp_trans [OF take [OF that(2)] save_passkey_steps]) (use that in \<open>auto simp: registers_def\<close>)
  then show "\<forall>cid. registers S E raw cid \<longrightarrow> Passkey_of cid \<in> K \<Longrightarrow>
      store_steps L K d (snd (finish_passkey_registration L S E p token name raw d))"
    using take by (auto simp: finish_passkey_registration_def split: option.split outcome.split prod.split)
  have "store_steps L K d (snd (passkey_session L E u c ip agent d1))"
    if "take_passkey_ceremony L E kind oid token d = (r, d1)" for kind oid r d1 u c
    by (rule rtranclp_trans [OF take [OF that] passkey_session_steps])
  then show "store_steps L K d (snd (finish_passkey_login L S E token ip agent raw d))"
    using take by (auto simp: finish_passkey_login_def split: option.split outcome.split prod.split intro: steps_audit)
qed

lemma delete_passkey_steps: "store_steps L K d (snd (delete_passkey L E p encoded d))"
proof -
  have "store_steps L K d d'" if "delete_passkey_row cid oid d = (n, d')" for cid oid n d'
    using W_delete_passkey [of L K d cid oid] that by auto
  then show ?thesis
    by (auto simp: delete_passkey_def split: option.split prod.split intro: steps_audit)
qed

section \<open>Reachable states\<close>

text \<open>\<open>K\<close> is what the operations may add; \<open>iam_step\<close> is any operation.\<close>

inductive iam_adding :: "iam_lib \<Rightarrow> iam_service \<Rightarrow> addition set \<Rightarrow> iam_db \<Rightarrow> iam_db \<Rightarrow> bool" for L S K where
  Bootstrap: "iam_adding L S K d (snd (ensure_bootstrap L E contents d))"
| Begin_setup: "iam_adding L S K d (snd (begin_setup L E bootstrap username display password d))"
| Confirm_setup: "iam_adding L S K d (snd (confirm_setup L E sid code ip agent d))"
| Login: "iam_adding L S K d (snd (login L S E username password code ip agent d))"
| Authenticate: "iam_adding L S K d (snd (authenticate_token L E token d))"
| Logout: "iam_adding L S K d (snd (logout L E token d))"
| Revoke_session: "iam_adding L S K d (snd (revoke_own_session E p sid d))"
| Revoke_others: "iam_adding L S K d (snd (revoke_others E p current d))"
| Create_key: "iam_adding L S K d (snd (create_api_key L E p name kind scopes expires d))"
| Revoke_key: "iam_adding L S K d (snd (revoke_api_key L E p kid d))"
| Use_key: "iam_adding L S K d (snd (authenticate_key E hash d))"
| Create_share: "iam_adding L S K d (snd (create_share L E p i d))"
| Revoke_share: "iam_adding L S K d (snd (revoke_share L E p shid d))"
| Redeem_share: "iam_adding L S K d (snd (redeem_share L E token ip agent d))"
| Begin_passkey_registration: "Ceremony_of (il_sha256 L (random_secret E 1 32)) \<in> K \<Longrightarrow>
    iam_adding L S K d (snd (begin_passkey_registration L S E p d))"
| Finish_passkey_registration: "\<forall>cid. registers S E raw cid \<longrightarrow> Passkey_of cid \<in> K \<Longrightarrow>
    iam_adding L S K d (snd (finish_passkey_registration L S E p token name raw d))"
| Begin_passkey_login: "Ceremony_of (il_sha256 L (random_secret E 1 32)) \<in> K \<Longrightarrow>
    iam_adding L S K d (snd (begin_passkey_login L S E d))"
| Finish_passkey_login: "iam_adding L S K d (snd (finish_passkey_login L S E token ip agent raw d))"
| Delete_passkey: "iam_adding L S K d (snd (delete_passkey L E p encoded d))"

abbreviation iam_step :: "iam_lib \<Rightarrow> iam_service \<Rightarrow> iam_db \<Rightarrow> iam_db \<Rightarrow> bool" where
  "iam_step L S \<equiv> iam_adding L S UNIV"

abbreviation iam_steps :: "iam_lib \<Rightarrow> iam_service \<Rightarrow> iam_db \<Rightarrow> iam_db \<Rightarrow> bool" where
  "iam_steps L S \<equiv> (iam_step L S)\<^sup>*\<^sup>*"

abbreviation adding_steps :: "iam_lib \<Rightarrow> iam_service \<Rightarrow> addition set \<Rightarrow> iam_db \<Rightarrow> iam_db \<Rightarrow> bool" where
  "adding_steps L S K \<equiv> (iam_adding L S K)\<^sup>*\<^sup>*"

text \<open>The service starts on empty tables.\<close>

abbreviation iam_reach :: "iam_lib \<Rightarrow> iam_service \<Rightarrow> iam_db \<Rightarrow> bool" where
  "iam_reach L S \<equiv> iam_steps L S empty_iam"

lemma iam_adding_store: "iam_adding L S K d d' \<Longrightarrow> store_steps L K d d'"
  by (induction rule: iam_adding.induct)
    (rule ensure_bootstrap_steps begin_setup_steps confirm_setup_steps login_steps session_op_steps
      create_api_key_steps key_op_steps create_share_steps share_op_steps passkey_finish_steps(2) delete_passkey_steps
     | (rule passkey_begin_steps passkey_finish_steps(1), assumption))+

lemma adding_steps_store: "adding_steps L S K d d' \<Longrightarrow> store_steps L K d d'"
  by (induction rule: rtranclp_induct) (auto dest: iam_adding_store intro: rtranclp_trans)

lemmas iam_step_store = iam_adding_store [where K = UNIV]
lemmas iam_steps_store = adding_steps_store [where K = UNIV]

lemma adding_step: "iam_adding L S K d d' \<Longrightarrow> iam_step L S d d'"
  by (induction rule: iam_adding.induct) (auto intro: iam_adding.intros)

lemma adding_steps: "adding_steps L S K d d' \<Longrightarrow> iam_steps L S d d'"
  by (induction rule: rtranclp_induct) (auto dest: adding_step intro: rtranclp.rtrancl_into_rtrancl)

lemma reach_inv: "iam_reach L S d \<Longrightarrow> iam_inv L d"
  by (blast intro: steps_inv empty_inv iam_steps_store)

end
