(* ===== verification/Iam_Access.thy ===== *)
theory Iam_Access
  imports Iam_Safety
begin

text \<open>
  What the credentials of IAM are worth and for how long: there is one owner, a session lives
  in its two windows, a revoked credential never works again, an API key's tokens grant the
  key's scopes, and a share cannot be redeemed at all.
\<close>

section \<open>One owner\<close>

text \<open>
  C12. Whatever requests are made, in whatever order and with whatever failures, there is at
  most one owner, and once there is one the row (its credentials included) never changes.
\<close>

theorem single_owner:
  assumes "iam_reach L S d" and "iam_steps L S d d'"
  shows "length (ia_owners d') \<le> 1 \<and> (ia_owners d \<noteq> [] \<longrightarrow> ia_owners d' = ia_owners d)"
proof -
  have "iam_inv L d" by (rule reach_inv [OF assms(1)])
  moreover have steps: "store_steps L UNIV d d'" by (rule iam_steps_store [OF assms(2)])
  ultimately have "iam_inv L d'" by (rule steps_inv [rotated])
  then show ?thesis
    using steps_owners [OF steps] \<open>iam_inv L d\<close> by (simp add: iam_inv_def owners_ok_def)
qed

section \<open>The life of a session\<close>

lemma find_by_token:
  assumes "distinct (map sn_token rows)" and "s \<in> set rows" and "sn_token s = h"
  shows "List.find (\<lambda>s. sn_token s = h \<and> Q s) rows = (if Q s then Some s else None)"
  using assms by (induction rows) (auto simp: find_None_iff image_iff)

lemma active_owner_cong: "ia_owners d = ia_owners d' \<Longrightarrow> active_owner oid d = active_owner oid d'"
  by (simp add: active_owner_def)

lemma session_live_cong: "ia_owners d = ia_owners d' \<Longrightarrow> session_live t d s = session_live t d' s"
  by (simp add: session_live_def active_owner_def)

lemma authenticate_session_found:
  assumes "sessions_ok d" and s: "s \<in> set (ia_sessions d)" "sn_token s = h"
  shows "fst (authenticate_session t h d) =
    (if session_live t d s
     then map_option (\<lambda>o'. (ow_id o', ow_username o', ow_display o', sn_id s)) (active_owner (sn_owner s) d) else None)"
  using find_by_token [of "ia_sessions d" s h "session_live t d"] assms
  by (auto simp: authenticate_session_def sessions_ok_def split: option.split)

lemma authenticate_token_Returns:
  assumes "authenticate_token L E tok d = (Returns p, d')"
  obtains s o' where "32 \<le> length tok" "s \<in> set (ia_sessions d)" "sn_token s = il_sha256 L tok"
    "session_live (ie_db E) d s" "active_owner (sn_owner s) d = Some o'"
    "p = \<lparr>pr_id = ow_id o', pr_username = ow_username o', pr_display = ow_display o', pr_kind = ''human'', pr_session = sn_id s\<rparr>"
    "d' = d\<lparr>ia_sessions := map (\<lambda>x. if sn_token x = il_sha256 L tok \<and> session_live (ie_db E) d x
            then touch_session (ie_db E) x else x) (ia_sessions d)\<rparr>"
proof (cases rule: authenticate_session_cases [of "ie_db E" "il_sha256 L tok" d])
  case refused
  with assms show ?thesis by (simp add: authenticate_token_def split: if_splits)
next
  case (accepted s o')
  with assms show ?thesis
    by (intro that [of s o']) (simp_all add: authenticate_token_def not_less split: if_splits)
qed

lemma authenticate_token_fst:
  "fst (authenticate_token L E tok d) =
     (if length tok < 32 \<or> ie_fails E St_auth then Fails ErrInvalidSession
      else case fst (authenticate_session (ie_db E) (il_sha256 L tok) d) of
        None \<Rightarrow> Fails ErrInvalidSession
      | Some (oid, u, n, sid) \<Rightarrow>
          Returns \<lparr>pr_id = oid, pr_username = u, pr_display = n, pr_kind = ''human'', pr_session = sid\<rparr>)"
  by (cases rule: authenticate_session_cases [of "ie_db E" "il_sha256 L tok" d]) (simp_all add: authenticate_token_def)

text \<open>
  C13. The two windows of a session. After a use at time \<open>t\<close> that was accepted, the session is
  accepted again exactly until thirty days after \<open>t\<close> or a hundred and eighty days after the
  login, whichever comes first, and then names the same owner.
\<close>

theorem session_window:
  assumes "iam_reach L S d" and "authenticate_token L E tok d = (Returns p, d1)" and "\<not> ie_fails E' St_auth"
  shows "\<exists>s \<in> set (ia_sessions d). sn_id s = pr_session p \<and> sn_token s = il_sha256 L tok \<and>
    fst (authenticate_token L E' tok d1) =
      (if ie_db E' < min (ie_db E + 30 * day) (sn_authenticated s + 180 * day) then Returns p else Fails ErrInvalidSession)"
proof -
  from assms(2) obtain s o' where s: "32 \<le> length tok" "s \<in> set (ia_sessions d)" "sn_token s = il_sha256 L tok"
    and live: "session_live (ie_db E) d s" and o': "active_owner (sn_owner s) d = Some o'"
    and p: "p = \<lparr>pr_id = ow_id o', pr_username = ow_username o', pr_display = ow_display o', pr_kind = ''human'',
       pr_session = sn_id s\<rparr>"
    and d1: "d1 = d\<lparr>ia_sessions := map (\<lambda>x. if sn_token x = il_sha256 L tok \<and> session_live (ie_db E) d x
            then touch_session (ie_db E) x else x) (ia_sessions d)\<rparr>"
    by (elim authenticate_token_Returns)
  let ?s1 = "touch_session (ie_db E) s"
  have ok: "sessions_ok d" using reach_inv [OF assms(1)] by (simp add: iam_inv_def)
  have d1_step: "d1 = snd (authenticate_token L E tok d)" using assms(2) by simp
  have "iam_reach L S d1"
    unfolding d1_step by (rule rtranclp.rtrancl_into_rtrancl [OF assms(1) Authenticate])
  then have ok1: "sessions_ok d1" using reach_inv by (simp add: iam_inv_def)
  have "?s1 \<in> set (ia_sessions d1)" using s(2,3) live by (force simp: d1)
  moreover have "sn_token ?s1 = il_sha256 L tok" using s(3) by simp
  moreover have abs: "sn_absolute s = sn_authenticated s + 180 * day" using ok s(2) by (auto simp: sessions_ok_def list_all_iff session_ok_def)
  moreover have "active_owner (sn_owner s) d1 = Some o'" using o' by (simp add: d1 active_owner_def)
  moreover from this have "session_live (ie_db E') d1 ?s1 \<longleftrightarrow>
      ie_db E' < min (ie_db E + 30 * day) (sn_authenticated s + 180 * day)"
    using live abs by (auto simp: session_live_def touch_session_def)
  ultimately have "fst (authenticate_token L E' tok d1) =
      (if ie_db E' < min (ie_db E + 30 * day) (sn_authenticated s + 180 * day) then Returns p else Fails ErrInvalidSession)"
    using authenticate_session_found [OF ok1, of ?s1 "il_sha256 L tok" "ie_db E'"] s(1) assms(3)
    unfolding authenticate_token_fst p by (simp only: not_less [symmetric] simp_thms if_False touch_session_simps
        option.map split: if_split) simp
  with s p show ?thesis by auto
qed

section \<open>Revocation\<close>

text \<open>
  C10. Logging out is final: after it no sequence of operations makes the session token
  work again, neither to authenticate nor with any CSRF token.
\<close>

theorem logout_final:
  assumes "logout L E tok d = (Returns (), d1)" and "il_sha256 L tok \<in> sn_token ` set (ia_sessions d)"
    and "iam_steps L S d1 d2"
  shows "authenticate_token L E' tok d2 = (Fails ErrInvalidSession, d2) \<and> \<not> validate_csrf L E' tok csrf d2"
proof -
  let ?h = "il_sha256 L tok"
  have d1: "ia_sessions d1 = map (\<lambda>s. if sn_token s = ?h \<and> sn_revoked s = None then s\<lparr>sn_revoked := Some (ie_db E)\<rparr> else s)
      (ia_sessions d)"
    using assms(1) by (auto simp: logout_def revoke_session_def split: if_splits)
  have "session_revoked ?h d1"
    unfolding d1 by (rule all_revoked_map [OF assms(2)]) auto
  then have revoked: "session_revoked ?h d2"
    by (rule session_store.stays_revoked [OF iam_steps_store [OF assms(3)]])
  then have "fst (authenticate_session (ie_db E') ?h d2) = None" using session_store.refuses by blast
  then have "authenticate_session (ie_db E') ?h d2 = (None, d2)"
    by (cases rule: authenticate_session_cases [of "ie_db E'" ?h d2]) simp_all
  moreover have "\<not> validate_csrf_row (ie_db E') ?h c d2" for c
    using all_revokedD [OF revoked] by (auto simp: validate_csrf_row_def list_ex_iff session_live_def)
  ultimately show ?thesis by (simp add: authenticate_token_def validate_csrf_def)
qed

text \<open>
  C14. Revoking an API key, once the service has said it did, is final: no sequence of
  operations makes the key authenticate again.
\<close>

theorem key_revocation_final:
  assumes "iam_reach L S d" and "revoke_api_key L E p kid d = (Returns True, d1)"
    and k: "k \<in> set (ia_keys d)" "ak_id k = kid" and "iam_steps L S d1 d2"
  shows "fst (authenticate_key E' (ak_token k) d2) \<in> {Fails ErrInvalidAPIKey, Fails ErrOther}"
proof -
  let ?upd = "\<lambda>x. x\<lparr>ak_revoked := Some (ie_db E)\<rparr>"
  let ?P = "\<lambda>x. ak_id x = kid \<and> ak_owner x = pr_id p \<and> ak_revoked x = None"
  have keys: "distinct (map ak_id (ia_keys d))" "distinct (map ak_token (ia_keys d))"
    using reach_inv [OF assms(1)] by (simp_all add: iam_inv_def keys_ok_def)
  from assms(2) have hit: "list_ex ?P (ia_keys d)" and d1: "ia_keys d1 = map (\<lambda>x. if ?P x then ?upd x else x) (ia_keys d)"
    by (auto simp: revoke_api_key_def revoke_api_key_row_def audit_def Let_def split: if_splits)
  then have "?P k" using k distinct_map_inj [OF keys(1)] by (auto simp: list_ex_iff)
  have "key_revoked (ak_token k) d1"
    unfolding d1
  proof (rule all_revoked_map)
    fix x assume "x \<in> set (ia_keys d)" "ak_token x = ak_token k"
    then have "x = k" using k(1) distinct_map_inj [OF keys(2)] by blast
    with \<open>?P k\<close> show "ak_revoked (if ?P x then ?upd x else x) \<noteq> None" by simp
  qed (use k in auto)
  then have "fst (authenticate_api_key t (ak_token k) d2) = None" for t
    using key_store.never_accepted_again [OF _ iam_steps_store [OF assms(5)]] by blast
  then show ?thesis by (simp add: authenticate_key_def split_beta)
qed

section \<open>Shares\<close>

text \<open>
  C40. No share is ever redeemed. Every attempt is either refused or ends in a panic of the
  handler after the use was counted, and no session is created: \<open>RedeemShare\<close> hands a nil
  transaction to \<open>CreateSession\<close>.
\<close>

theorem redeem_share_panics:
  "redeem_share L E tok ip agent d = (Fails ErrInvalidShare, d) \<or>
   fst (redeem_share L E tok ip agent d) = Panics \<and>
   ia_sessions (snd (redeem_share L E tok ip agent d)) = ia_sessions d \<and>
   (\<exists>s. redeem_share_row (ie_db E) (il_sha256 L tok) d = Some s \<and>
      ia_shares (snd (redeem_share L E tok ip agent d)) =
        (if ie_fails E St_use then ia_shares d else ia_shares (increment_share_use (sh_id s) d)))"
proof -
  have audit: "ia_sessions (audit L E ty r ip ds x) = ia_sessions x" "ia_shares (audit L E ty r ip ds x) = ia_shares x"
    for ty r ip ds x by (simp_all add: audit_def)
  show ?thesis
    by (cases "redeem_share_row (ie_db E) (il_sha256 L tok) d")
      (simp_all add: redeem_share_def Let_def create_share_session_panics audit del: share_writes_frame(8))
qed

section \<open>The tokens of an API key\<close>

lemma step_keys_kept:
  assumes "store_step L K d d'" and "k \<in> set (ia_keys d)"
  shows "\<exists>k' \<in> set (ia_keys d'). ak_token k' = ak_token k \<and> ak_id k' = ak_id k \<and> ak_owner k' = ak_owner k \<and>
    ak_scopes k' = ak_scopes k"
  using assms(1)
proof cases
  case (W_key scopes t nid oid name kind token expires)
  then show ?thesis using create_api_key_frame(1) [OF W_key(3)] assms(2) by auto
next
  case (W_revoke_key t oid kid)
  let ?k = "if ak_id k = kid \<and> ak_owner k = oid \<and> ak_revoked k = None then k\<lparr>ak_revoked := Some t\<rparr> else k"
  have "?k \<in> set (ia_keys d')" using assms(2) unfolding W_revoke_key key_writes_frame by (simp only: set_map image_eqI)
  then show ?thesis by (intro bexI [of _ ?k]) simp_all
next
  case (W_use_key t h)
  let ?k = "if ak_token k = h \<and> api_key_live t d k then k\<lparr>ak_used := Some t\<rparr> else k"
  have "?k \<in> set (ia_keys d')" using assms(2) unfolding W_use_key key_writes_frame by (simp only: set_map image_eqI)
  then show ?thesis by (intro bexI [of _ ?k]) simp_all
qed (use assms(2) in \<open>auto dest!: insert_pending_frame insert_ceremony_frame insert_passkey_frame create_owner_frame
    create_session_frame(6) create_share_frame(6)\<close>)

lemma steps_keys_kept:
  assumes "store_steps L K d d'" and "k \<in> set (ia_keys d)"
  shows "\<exists>k' \<in> set (ia_keys d'). ak_token k' = ak_token k \<and> ak_id k' = ak_id k \<and> ak_owner k' = ak_owner k \<and>
    ak_scopes k' = ak_scopes k"
  using assms
proof (induction rule: rtranclp_induct)
  case base
  then show ?case by blast
next
  case (step y z)
  then show ?case using step_keys_kept [OF step.hyps(2)] by metis
qed

lemma create_api_key_Returns:
  assumes "create_api_key L E p name kind scopes expires d = (Returns (kid, tok), d')"
  obtains k where "k \<in> set (ia_keys d')" "ak_token k = il_sha256 L tok" "ak_id k = kid" "ak_owner k = pr_id p"
    "ak_scopes k = scopes" "tok = ''hh_'' @ kind @ ''_'' @ random_secret E 0 32"
proof -
  from assms obtain d1 where row: "create_api_key_row (ie_db E) (ie_id E) (pr_id p) (trim_space name) kind (il_sha256 L tok)
      scopes expires d = Some d1" and d1: "ia_keys d' = ia_keys d1" and r: "kid = ie_id E"
      "tok = ''hh_'' @ kind @ ''_'' @ random_secret E 0 32"
    unfolding create_api_key_def Let_def
    by (simp only: prod.inject outcome.inject outcome.distinct simp_thms split: if_split_asm option.split_asm)
      (auto simp: audit_def)
  from create_api_key_frame(1) [OF row] obtain k where "ia_keys d1 = ia_keys d @ [k]" "ak_token k = il_sha256 L tok"
    "ak_id k = ie_id E" "ak_owner k = pr_id p" "ak_scopes k = scopes" by blast
  with r d1 show thesis by (intro that [of k]) simp_all
qed

lemma authenticate_key_Returns:
  assumes "authenticate_key E h d = (Returns k, d')"
  shows "k \<in> set (ia_keys d) \<and> ak_token k = h \<and> api_key_live (ie_db E) d k \<and> ia_owners d' = ia_owners d \<and>
    ia_sessions d' = ia_sessions d"
proof -
  from assms have *: "List.find (\<lambda>k. ak_token k = h \<and> api_key_live (ie_db E) d k) (ia_keys d) = Some k"
    "d' = snd (authenticate_api_key (ie_db E) h d)"
    by (auto simp: authenticate_key_def authenticate_api_key_def Let_def split: if_splits option.splits)
  from find_Some_mem [OF *(1)] *(2) show ?thesis by simp
qed

lemma response_of_Some:
  assumes "response_of a (issue J sg now rnd rq) = Some r"
  obtains c where "issue J sg now rnd rq = Inr (tr_access r, c)" "tr_audience r = a" "tr_permissions r = tc_permissions c"
    "tr_expires r = wrap64 (tc_exp c - tc_iat c)"
  using assms by (cases "issue J sg now rnd rq") (auto simp: response_of_def)

lemma issue_permissions:
  assumes "issue J sg now rnd rq = Inr (tok, c)"
  shows "set (tc_permissions c) = set (rq_permissions rq) \<and> distinct (tc_permissions c) \<and> tc_sub c = rq_subject rq \<and>
    tc_aud c = rq_audience rq \<and> (\<forall>s \<in> set (rq_permissions rq). match_scope s)"
  using assms collect_scopes_Inr by (elim issue_InrE) (force simp: build_claims_def)

text \<open>
  From the key to the token: whatever happens after an API key was created, if the key
  still authenticates and a token is issued for it, the token's permissions are exactly the
  scopes the key was created with, for the owner who created it.
\<close>

theorem api_key_token_scopes:
  assumes "iam_reach L S d" and "create_api_key L E p name kind scopes expires d = (Returns (kid, tok), d1)"
    and "iam_steps L S d1 d2" and "authenticate_key E2 (il_sha256 L tok) d2 = (Returns k, d3)"
    and "issue_api_key_jwt J S2 E3 k audience = Some r"
  shows "set (tr_permissions r) = set scopes \<and> distinct (tr_permissions r) \<and> ak_id k = kid \<and>
    (\<exists>c. issue J (sv_signer S2) (ie_now E3) (ie_rnd E3 0 16) (key_request (ie_now E3) (tr_audience r) k) = Inr (tr_access r, c) \<and>
       tc_sub c = ''human:'' @ pr_id p)"
proof -
  have d1: "d1 = snd (create_api_key L E p name kind scopes expires d)" using assms(2) by simp
  have reach1: "iam_reach L S d1" unfolding d1 by (rule rtranclp.rtrancl_into_rtrancl [OF assms(1) Create_key])
  then have keys: "distinct (map ak_token (ia_keys d2))"
    using reach_inv [OF rtranclp_trans [OF reach1 assms(3)]] by (simp add: iam_inv_def keys_ok_def)
  obtain k1 where k1: "k1 \<in> set (ia_keys d1)" "ak_token k1 = il_sha256 L tok" "ak_id k1 = kid" "ak_owner k1 = pr_id p"
    "ak_scopes k1 = scopes"
    using create_api_key_Returns [OF assms(2)] by metis
  obtain k2 where k2: "k2 \<in> set (ia_keys d2)" "ak_token k2 = ak_token k1" "ak_id k2 = ak_id k1" "ak_owner k2 = ak_owner k1"
    "ak_scopes k2 = ak_scopes k1"
    using steps_keys_kept [OF iam_steps_store [OF assms(3)] k1(1)] by blast
  have "k = k2"
    using authenticate_key_Returns [OF assms(4)] distinct_map_inj [OF keys _ k2(1), of k] k1(2) k2(2) by simp
  obtain a c where c: "issue J (sv_signer S2) (ie_now E3) (ie_rnd E3 0 16) (key_request (ie_now E3) a k) = Inr (tr_access r, c)"
    "tr_audience r = a" "tr_permissions r = tc_permissions c"
    using assms(5) unfolding issue_api_key_jwt_def Let_def by (elim response_of_Some) blast
  then show ?thesis
    using issue_permissions [OF c(1)] k1 k2 \<open>k = k2\<close> by (auto simp: key_request_def)
qed

end
