(* ===== verification/Iam_Login.thy ===== *)
theory Iam_Login
  imports Iam_Access
begin

text \<open>
  Who gets in: the codes and passwords that are accepted, what a login answers in every case,
  how many guesses it allows, and that the credentials given at set-up are the ones that work.
\<close>

section \<open>Codes and passwords\<close>

text \<open>
  C37. A code is accepted for at least thirty seconds after it was generated, and at any
  moment at most three codes are, all of six decimal digits.
\<close>

theorem totp_window:
  assumes "0 \<le> t" and "0 \<le> u" and "\<bar>t - u\<bar> < 30 * second"
  shows "validate_totp L (b32_encode key) (hotp L key (totp_counter t)) u \<and>
    card {code. validate_totp L (b32_encode key) code u} \<le> 3 \<and>
    {code. validate_totp L (b32_encode key) code u} \<subseteq> {code. length code = 6 \<and> list_all is_digit code}"
proof -
  have "{code. validate_totp L (b32_encode key) code u} =
      {hotp L key (totp_counter u - 1), hotp L key (totp_counter u), hotp L key (totp_counter u + 1)}"
    by (auto simp: validate_totp_encoded)
  moreover have "card {a, b, c} \<le> 3" for a b c :: string by (simp add: card_insert_if)
  moreover have "totp_counter t \<in> {totp_counter u - 1, totp_counter u, totp_counter u + 1}"
    using totp_counter_near [of u t] assms by auto
  ultimately show ?thesis using hotp_digits by (auto simp: validate_totp_encoded)
qed

text \<open>
  The stored form of a password: hashing never fails, and a later attempt is accepted
  exactly if Argon2id derives the same key from it, whatever the salt.
\<close>

theorem password_roundtrip:
  assumes "argon_law L"
  shows "\<exists>h. hash_password L password salt = Some h \<and>
    verify_password L attempt h = Some (il_argon L attempt salt 3 65536 2 32 = il_argon L password salt 3 65536 2 32)"
  using hash_password_total [OF assms] verify_hash_password [OF _ assms] by blast

section \<open>What a login answers\<close>

text \<open>The specification: an active owner of that name, its password and one of its codes.\<close>

definition credentials_good :: "iam_lib \<Rightarrow> iam_env \<Rightarrow> string \<Rightarrow> string \<Rightarrow> string \<Rightarrow> iam_db \<Rightarrow> bool" where
  "credentials_good L E name password code d \<longleftrightarrow>
     (case get_owner_by_username name d of
        None \<Rightarrow> False
      | Some o' \<Rightarrow>
          verify_password L password (ow_password o') = Some True \<and>
          (case il_open L (ow_totp_nonce o') (ow_totp_cipher o') of
             None \<Rightarrow> False | Some secret \<Rightarrow> validate_totp L secret code (ie_now E)))"

definition failures_seen :: "iam_lib \<Rightarrow> iam_env \<Rightarrow> string \<Rightarrow> string \<Rightarrow> iam_db \<Rightarrow> nat" where
  "failures_seen L E name ip d = the (login_failures (il_inet L) (ie_db E) (hex_encode (il_sha256 L name)) ip d)"

text \<open>A call on which the database works, from an address that parses, with fresh random bytes.\<close>

definition healthy :: "iam_lib \<Rightarrow> iam_env \<Rightarrow> string \<Rightarrow> iam_db \<Rightarrow> bool" where
  "healthy L E ip d \<longleftrightarrow> (\<forall>st. \<not> ie_fails E st) \<and> il_inet L ip \<noteq> None \<and> ie_id E \<notin> sn_id ` set (ia_sessions d) \<and>
     il_sha256 L (random_secret E 0 32) \<notin> sn_token ` set (ia_sessions d)"

lemma login_failures_healthy: "il_inet L ip \<noteq> None \<Longrightarrow> login_failures (il_inet L) t h ip d \<noteq> None"
  by (auto simp: login_failures_def Let_def)

lemma get_owner_mem: "get_owner_by_username name d = Some o' \<Longrightarrow> o' \<in> set (ia_owners d) \<and> ow_active o' \<and> ow_normalized o' = name"
  using find_Some_mem unfolding get_owner_by_username_def by fastforce

lemma owner_ok_verify:
  assumes "argon_law L" and "seal_law L" and "owner_ok L o'"
  shows "\<exists>b. verify_password L pw (ow_password o') = Some b"
    and "\<exists>key. il_open L (ow_totp_nonce o') (ow_totp_cipher o') = Some (b32_encode key)"
  using assms verify_hash_password by (auto simp: owner_ok_def creds_ok_def seal_law_def)

lemma create_session_healthy:
  assumes "healthy L E ip d" and "oid \<in> ow_id ` set (ia_owners d)"
  shows "\<exists>d'. create_session L E oid u n k ms ip ag d =
      (Returns \<lparr>se_principal = \<lparr>pr_id = oid, pr_username = u, pr_display = n, pr_kind = k, pr_session = []\<rparr>,
         se_token = random_secret E 0 32, se_csrf = random_secret E 1 32\<rparr>, d') \<and>
      length (ia_sessions d') = Suc (length (ia_sessions d))"
proof -
  obtain addr where "il_inet L ip = Some addr" using assms(1) by (auto simp: healthy_def)
  then show ?thesis
    using assms by (simp add: healthy_def create_session_def create_session_tx_def create_session_row_def commit_def Let_def)
qed

lemma login_denied_sessions: "ia_sessions (audit L E ty r ip ds d) = ia_sessions d"
  by (simp add: audit_def)

lemma login_answers:
  assumes "iam_reach L S' d" and laws: "argon_law L" "seal_law L"
    and dummy: "hash_password L dummy salt = Some (sv_dummy S)" and ok: "healthy L E ip d"
    and name: "name = to_lower (il_lower L) (trim_space username)"
  shows "(case login L S E username password code ip agent d of (r, d') \<Rightarrow>
    (if failures_seen L E name ip d \<ge> 5 then r = Fails ErrRateLimited
     else if credentials_good L E name password code d then
       \<exists>o' \<in> set (ia_owners d). r = Returns \<lparr>se_principal = \<lparr>pr_id = ow_id o', pr_username = ow_username o',
           pr_display = ow_display o', pr_kind = ''human'', pr_session = []\<rparr>,
         se_token = random_secret E 0 32, se_csrf = random_secret E 1 32\<rparr>
     else r = Fails ErrInvalidCredentials) \<and>
    length (ia_sessions d') = length (ia_sessions d) +
      (if failures_seen L E name ip d < 5 \<and> credentials_good L E name password code d then 1 else 0))"
proof -
  have faults: "\<not> ie_fails E st" for st using ok by (simp add: healthy_def)
  have inet: "il_inet L ip \<noteq> None" using ok by (simp add: healthy_def)
  let ?h = "hex_encode (il_sha256 L name)"
  obtain n where n: "login_failures (il_inet L) (ie_db E) ?h ip d = Some n"
    using login_failures_healthy [OF inet] by fast
  have seen: "failures_seen L E name ip d = n" by (simp add: failures_seen_def n)
  let ?denied = "(Fails ErrInvalidCredentials, audit L E ''owner.login'' ''denied'' ip [(''username_hash'', ?h)] d)"
  show ?thesis
  proof (cases "n \<ge> 5")
    case True
    then show ?thesis by (simp add: login_def Let_def name [symmetric] n seen faults)
  next
    case low: False
    show ?thesis
    proof (cases "get_owner_by_username name d")
      case None
      obtain b where b: "verify_password L password (sv_dummy S) = Some b"
        using verify_hash_password [OF dummy laws(1)] by blast
      have "login L S E username password code ip agent d = ?denied"
        using low by (cases b) (simp_all add: login_def Let_def name [symmetric] n faults None b)
      then show ?thesis using low by (simp add: seen credentials_good_def None login_denied_sessions)
    next
      case (Some o')
      have o': "o' \<in> set (ia_owners d)" using get_owner_mem [OF Some] by simp
      then have "owner_ok L o'"
        using reach_inv [OF assms(1)] by (auto simp: iam_inv_def stored_creds_ok_def list_all_iff)
      from owner_ok_verify [OF laws this] obtain b secret where
        b: "verify_password L password (ow_password o') = Some b"
        and secret: "il_open L (ow_totp_nonce o') (ow_totp_cipher o') = Some secret" by metis
      let ?cs = "create_session L E (ow_id o') (ow_username o') (ow_display o') ''human'' [''password'', ''otp''] ip agent d"
      obtain d1 where cs: "?cs = (Returns \<lparr>se_principal = \<lparr>pr_id = ow_id o', pr_username = ow_username o',
           pr_display = ow_display o', pr_kind = ''human'', pr_session = []\<rparr>,
         se_token = random_secret E 0 32, se_csrf = random_secret E 1 32\<rparr>, d1)"
        and len: "length (ia_sessions d1) = Suc (length (ia_sessions d))"
        using create_session_healthy [OF ok] o' by blast
      have good: "credentials_good L E name password code d \<longleftrightarrow> b \<and> validate_totp L secret code (ie_now E)"
        by (simp add: credentials_good_def Some b secret)
      show ?thesis
      proof (cases "b \<and> validate_totp L secret code (ie_now E)")
        case True
        then show ?thesis
          using low o' len by (auto simp: login_def Let_def name [symmetric] n faults Some b secret cs seen good login_denied_sessions)
      next
        case False
        then have "login L S E username password code ip agent d = ?denied"
          using low by (cases b) (simp_all add: login_def Let_def name [symmetric] n faults Some b secret)
        then show ?thesis using low False by (auto simp: seen good login_denied_sessions)
      qed
    qed
  qed
qed


section \<open>How many guesses\<close>

text \<open>The denials on record for a name since \<open>lo\<close>.\<close>

definition denials_since :: "instant \<Rightarrow> string \<Rightarrow> iam_db \<Rightarrow> nat" where
  "denials_since lo h d = length (filter (\<lambda>a. au_type a = ''owner.login'' \<and> au_outcome a = ''denied'' \<and>
     lo \<le> au_created a \<and> map_of (au_details a) ''username_hash'' = Some h) (ia_audit d))"

lemma step_audit:
  assumes "store_step L K d d'"
  shows "\<exists>xs. ia_audit d' = ia_audit d @ xs"
  using assms
proof cases
  case (W_owner s nid o')
  then show ?thesis unfolding create_owner_def Let_def
    by (elim if_SomeE) (simp add: prod_eq_iff, elim conjE, drule sym, drule sym, simp)
next
  case (W_touch t h)
  then show ?thesis by (cases rule: authenticate_session_cases [of t h d]) simp_all
qed (auto simp: insert_bootstrap_def delete_pending_setup_def consume_bootstrap_token_def insert_pending_setup_def
    revoke_sessions_where_def create_api_key_row_def revoke_api_key_row_def authenticate_api_key_def create_share_row_def
    revoke_share_row_def increment_share_use_def record_audit_def Let_def
    dest!: create_session_frame(8) insert_ceremony_frame insert_passkey_frame split: if_splits option.splits)

lemma denials_mono:
  assumes "store_steps L K d d'"
  shows "denials_since lo h d \<le> denials_since lo h d'"
  using assms
proof (induction rule: rtranclp_induct)
  case base
  then show ?case by simp
next
  case (step y z)
  then show ?case using step_audit [OF step.hyps(2)] by (auto simp: denials_since_def)
qed

lemma login_failures_ge:
  assumes "login_failures i t h ip d = Some n" and "t < lo + 15 * minute"
  shows "denials_since lo h d \<le> n"
proof -
  let ?count = "\<lambda>addr. length (filter (\<lambda>a. au_type a = ''owner.login'' \<and> au_outcome a = ''denied'' \<and>
                     au_created a > t - 15 * minute \<and>
                     (map_of (au_details a) ''username_hash'' = Some h \<or> Some (au_ip a) = addr)) (ia_audit d))"
  have mono: "length (filter P xs) \<le> length (filter Q xs)" if "\<And>x. P x \<Longrightarrow> Q x" for P Q and xs :: "audit_event list"
    using that by (induction xs) auto
  have "denials_since lo h d \<le> ?count addr" for addr
    unfolding denials_since_def using assms(2) by (intro mono) auto
  moreover have "\<exists>addr. n = ?count addr"
  proof (cases "ip = []")
    case True
    then have "n = ?count None" using assms(1) by (simp add: login_failures_def Let_def)
    then show ?thesis by blast
  next
    case False
    then obtain addr where "i ip = Some addr" using assms(1) by (auto simp: login_failures_def Let_def split: option.splits)
    then have "n = ?count (Some addr)" using assms(1) False by (simp add: login_failures_def Let_def)
    then show ?thesis by blast
  qed
  ultimately show ?thesis by blast
qed

lemma login_denied:
  assumes "login L S E username password code ip agent d = (Fails ErrInvalidCredentials, d')"
    and audit: "\<not> ie_fails E St_audit" "il_inet L ip = Some addr" and t: "lo \<le> ie_db E" "ie_db E < lo + 15 * minute"
    and name: "h = hex_encode (il_sha256 L (to_lower (il_lower L) (trim_space username)))"
  shows "denials_since lo h d < 5 \<and> denials_since lo h d' = Suc (denials_since lo h d)"
proof -
  let ?denied = "audit L E ''owner.login'' ''denied'' ip [(''username_hash'', h)] d"
  have cs: "create_session L E oid u n k ms ip ag d \<noteq> (Fails ErrInvalidCredentials, x)" for oid u n k ms ag x
    by (auto simp: create_session_def commit_def split: option.splits)
  obtain n where n: "login_failures (il_inet L) (ie_db E) h ip d = Some n" "\<not> 5 \<le> n"
    using assms(1) by (auto simp: login_def Let_def name [symmetric] split: if_splits option.splits)
  have "d' = ?denied"
  proof -
    have "login L S E username password code ip agent d = (r, x) \<Longrightarrow> r = Fails ErrInvalidCredentials \<Longrightarrow> x = ?denied" for r x
      unfolding login_def Let_def name [symmetric] n option.case using n(2) cs
      by (simp only: if_False split: if_split_asm option.split_asm bool.split_asm) (auto split: prod.splits outcome.splits)
    then show ?thesis using assms(1) by blast
  qed
  then have "denials_since lo h d' = Suc (denials_since lo h d)"
    using audit t(1) by (simp add: audit_def record_audit_def denials_since_def)
  then show ?thesis using login_failures_ge [OF n(1) t(2)] n(2) by simp
qed

text \<open>
  Histories with attempts on one name in a window of a quarter of an hour, and any other
  operations between them. The number counts the attempts that were evaluated and failed.
\<close>

inductive guessing :: "iam_lib \<Rightarrow> iam_service \<Rightarrow> string \<Rightarrow> instant \<Rightarrow> iam_db \<Rightarrow> nat \<Rightarrow> iam_db \<Rightarrow> bool" for L S name lo d where
  G_start: "guessing L S name lo d 0 d"
| G_other: "guessing L S name lo d n d1 \<Longrightarrow> iam_step L S d1 d2 \<Longrightarrow> guessing L S name lo d n d2"
| G_guess: "guessing L S name lo d n d1 \<Longrightarrow> to_lower (il_lower L) (trim_space username) = name \<Longrightarrow>
    lo \<le> ie_db E \<Longrightarrow> ie_db E < lo + 15 * minute \<Longrightarrow> \<not> ie_fails E St_audit \<Longrightarrow> il_inet L ip = Some addr \<Longrightarrow>
    login L S E username password code ip agent d1 = (r, d2) \<Longrightarrow>
    guessing L S name lo d (if r = Fails ErrInvalidCredentials then Suc n else n) d2"

lemma guessing_bound: "guessing L S name lo d n d' \<Longrightarrow> n \<le> 5 \<and> n \<le> denials_since lo (hex_encode (il_sha256 L name)) d'"
proof (induction rule: guessing.induct)
  case G_start
  then show ?case by simp
next
  case (G_other n d1 d2)
  then show ?case using denials_mono [OF iam_step_store [OF G_other.hyps(2)]] le_trans by blast
next
  case (G_guess n d1 username E ip addr password code agent r d2)
  have "d2 = snd (login L S E username password code ip agent d1)" using G_guess.hyps by simp
  then have "store_steps L UNIV d1 d2" using login_steps by simp
  then have mono: "denials_since lo h d1 \<le> denials_since lo h d2" for h by (rule denials_mono)
  show ?case
  proof (cases "r = Fails ErrInvalidCredentials")
    case True
    then show ?thesis
      using login_denied [of L S E username password code ip agent d1 d2 addr lo] G_guess by simp
  next
    case False
    then show ?thesis using G_guess.IH mono [of "hex_encode (il_sha256 L name)"] by simp
  qed
qed


section \<open>From set-up to login\<close>

lemma begin_setup_Returns:
  assumes "begin_setup L E bootstrap username display password d = (Returns su, d1)"
  obtains s where "ia_setups d1 = ia_setups d @ [s]" "su_id s = st_id su" "su_id s \<notin> su_id ` set (ia_setups d)"
    "ia_owners d1 = ia_owners d" "su_username s = trim_space username"
    "su_normalized s = to_lower (il_lower L) (trim_space username)"
    "hash_password L password (ie_rnd E 0 16) = Some (su_password s)"
    "su_totp_cipher s = il_seal L (su_totp_nonce s) (st_secret su)"
proof -
  let ?u = "trim_space username" and ?secret = "b32_encode (ie_rnd E 1 20)" and ?nonce = "ie_rnd E 2 12"
  let ?row = "\<lambda>h. \<lparr>su_id = ie_id E, su_token = il_sha256 L (trim_space bootstrap), su_username = ?u,
    su_normalized = to_lower (il_lower L) ?u, su_display = (if trim_space display = [] then ?u else trim_space display),
    su_password = h, su_totp_cipher = il_seal L ?nonce ?secret, su_totp_nonce = ?nonce,
    su_expires = db_time (ie_now E + setup_ttl)\<rparr>"
  from assms obtain h where h: "hash_password L password (ie_rnd E 0 16) = Some h"
    and row: "insert_pending_setup (?row h) d = Some d1"
    and su: "su = \<lparr>st_id = ie_id E, st_secret = ?secret, st_uri = provisioning_uri ?u ?secret, st_expires = ie_now E + setup_ttl\<rparr>"
    unfolding begin_setup_def Let_def
    by (simp only: prod.inject outcome.inject outcome.distinct simp_thms split: if_split_asm option.split_asm) auto
  show thesis
  proof (rule that [of "?row h"])
    show "su_id (?row h) \<notin> su_id ` set (ia_setups d)"
      using row unfolding insert_pending_setup_def by (simp split: if_split_asm)
  qed (use insert_pending_frame [OF row] h in \<open>simp_all add: su\<close>)
qed

lemma confirm_setup_Returns:
  assumes "confirm_setup L E sid code ip agent d = (Returns session, d')"
  obtains s o' where "s \<in> set (ia_setups d)" "su_id s = sid" "\<not> owner_exists d" "ia_owners d' = ia_owners d @ [o']"
    "ow_username o' = su_username s" "ow_normalized o' = su_normalized s" "ow_password o' = su_password s"
    "ow_totp_cipher o' = su_totp_cipher s" "ow_totp_nonce o' = su_totp_nonce s" "ow_active o'"
proof -
  from assms obtain s o' d1 oid u n k ms t h x d3 where s: "get_pending_setup (ie_db E) sid d = Some s"
    and free: "\<not> owner_exists d" and o': "create_owner (ie_id E) s d = Some (o', d1)"
    and cs: "create_session_tx L E oid u n k ms ip agent (delete_pending_setup sid (consume_bootstrap_token t h d1)) = Some (x, d3)"
    and d': "ia_owners d' = ia_owners d3"
    unfolding confirm_setup_def Let_def
    by (simp only: prod.inject outcome.inject outcome.distinct simp_thms split: if_split_asm option.split_asm prod.split_asm outcome.split_asm)
      (auto simp: audit_def commit_def split: if_split_asm)
  have "ia_owners d3 = ia_owners d1" using cs create_session_frame(5) by (elim create_session_txE) simp
  then have owners: "ia_owners d' = ia_owners d @ [o']" "ow_active o'" using create_owner_frame [OF o'] d' by simp_all
  moreover note create_owner_fields [OF o']
  ultimately show thesis using free find_Some_mem [of _ "ia_setups d" s] s
    by (intro that [of s o']) (auto simp: get_pending_setup_def)
qed

text \<open>
  C27. What is set up is what works: after a set-up was begun and confirmed, and after
  whatever else happened since, logging in with the name and password given then and a
  current code of the secret handed out then opens a session of that owner, unless the
  account is at its limit of failures.
\<close>

theorem setup_then_login:
  assumes "iam_reach L S d" and laws: "argon_law L" "seal_law L"
    and "hash_password L dummy salt = Some (sv_dummy S)"
    and begun: "begin_setup L E1 bootstrap username display password d = (Returns su, d1)"
    and confirmed: "confirm_setup L E2 (st_id su) code2 ip2 agent2 d1 = (Returns session, d2)"
    and later: "iam_steps L S d2 d3"
    and "healthy L E3 ip3 d3" and "failures_seen L E3 (to_lower (il_lower L) (trim_space username)) ip3 d3 < 5"
    and code3: "validate_totp L (st_secret su) code3 (ie_now E3)"
  shows "\<exists>s d4. login L S E3 username password code3 ip3 agent3 d3 = (Returns s, d4) \<and>
    pr_username (se_principal s) = trim_space username \<and> [pr_id (se_principal s)] = map ow_id (ia_owners d2)"
proof -
  let ?name = "to_lower (il_lower L) (trim_space username)"
  obtain s where s: "ia_setups d1 = ia_setups d @ [s]" "su_id s = st_id su" "su_id s \<notin> su_id ` set (ia_setups d)"
    "ia_owners d1 = ia_owners d" "su_username s = trim_space username" "su_normalized s = ?name"
    "hash_password L password (ie_rnd E1 0 16) = Some (su_password s)"
    "su_totp_cipher s = il_seal L (su_totp_nonce s) (st_secret su)"
    using begun by (rule begin_setup_Returns)
  obtain s' o' where s': "s' \<in> set (ia_setups d1)" "su_id s' = st_id su" and free: "\<not> owner_exists d1"
    and o': "ia_owners d2 = ia_owners d1 @ [o']" "ow_username o' = su_username s'" "ow_normalized o' = su_normalized s'"
      "ow_password o' = su_password s'" "ow_totp_cipher o' = su_totp_cipher s'" "ow_totp_nonce o' = su_totp_nonce s'" "ow_active o'"
    using confirmed by (rule confirm_setup_Returns)
  have "s' \<notin> set (ia_setups d)" using s'(2) s(2,3) by (metis imageI)
  then have "s' = s" using s'(1) s(1) by simp
  have step1: "iam_step L S d d1" using Begin_setup [of L S UNIV d E1 bootstrap username display password] begun by simp
  have step2: "iam_step L S d1 d2" using Confirm_setup [of L S UNIV d1 E2 "st_id su" code2 ip2 agent2] confirmed by simp
  have reach1: "iam_reach L S d1" using assms(1) step1 by (rule rtranclp.rtrancl_into_rtrancl)
  have reach2: "iam_reach L S d2" using reach1 step2 by (rule rtranclp.rtrancl_into_rtrancl)
  have reach3: "iam_reach L S d3" using reach2 later by (rule rtranclp_trans)
  have "ia_owners d1 = []" using free owner_exists_iff reach_inv [OF reach1] by (auto simp: iam_inv_def)
  then have owners2: "ia_owners d2 = [o']" using o'(1) by simp
  then have owners3: "ia_owners d3 = [o']"
    using steps_owners [OF iam_steps_store [OF later]] reach_inv [OF reach2] by (simp add: iam_inv_def)
  have "get_owner_by_username ?name d3 = Some o'"
    using o'(3,7) s(6) \<open>s' = s\<close> by (simp add: get_owner_by_username_def owners3)
  moreover have "verify_password L password (ow_password o') = Some True"
    using verify_hash_password [OF s(7) laws(1)] o'(4) \<open>s' = s\<close> by simp
  moreover have "il_open L (ow_totp_nonce o') (ow_totp_cipher o') = Some (st_secret su)"
    using laws(2) o'(5,6) s(8) \<open>s' = s\<close> by (simp add: seal_law_def)
  ultimately have good: "credentials_good L E3 ?name password code3 d3"
    using code3 by (simp add: credentials_good_def)
  obtain r d4 where r: "login L S E3 username password code3 ip3 agent3 d3 = (r, d4)" by (cases "login L S E3 username password code3 ip3 agent3 d3")
  show ?thesis
    using login_answers [OF reach3 laws assms(4,8) refl, of username password code3 agent3] good assms(9) o'(2) s(5) \<open>s' = s\<close>
    by (auto simp: r owners3 owners2)
qed

section \<open>Requests without an address\<close>

lemma audit_unaddressed: "il_inet L [] = None \<Longrightarrow> audit L E ty r [] ds d = d"
  by (simp add: audit_def record_audit_def)

lemma create_session_unaddressed:
  "il_inet L [] = None \<Longrightarrow> create_session L E oid u n k ms [] ag d = (Fails ErrOther, d)"
  by (simp add: create_session_def create_session_tx_def create_session_row_def Let_def)

text \<open>
  PostgreSQL does not parse the empty text as an address, and the error of the audit
  statement is dropped. So creating or revoking an API key or a share leaves no audit record,
  and a login whose remote address is unknown changes nothing: it never succeeds, and its
  failure never counts towards the limit.
\<close>

theorem unaddressed_audit_lost:
  assumes "il_inet L [] = None"
  shows "ia_audit (snd (create_api_key L E p name kind scopes expires d)) = ia_audit d \<and>
    ia_audit (snd (revoke_api_key L E p kid d)) = ia_audit d \<and>
    ia_audit (snd (create_share L E p i d)) = ia_audit d \<and>
    ia_audit (snd (revoke_share L E p sid d)) = ia_audit d \<and>
    snd (login L S E username password code [] agent d) = d \<and>
    (\<forall>s. fst (login L S E username password code [] agent d) \<noteq> Returns s)"
proof (intro conjI)
  note * = audit_unaddressed [OF assms]
  show "ia_audit (snd (create_api_key L E p name kind scopes expires d)) = ia_audit d"
    by (auto simp: create_api_key_def Let_def * create_api_key_row_def split: option.split)
  show "ia_audit (snd (revoke_api_key L E p kid d)) = ia_audit d"
    by (simp add: revoke_api_key_def * revoke_api_key_row_def Let_def)
  show "ia_audit (snd (create_share L E p i d)) = ia_audit d"
    by (auto simp: create_share_def Let_def * create_share_row_def split: option.split)
  show "ia_audit (snd (revoke_share L E p sid d)) = ia_audit d"
    by (simp add: revoke_share_def * revoke_share_row_def Let_def)
  show "snd (login L S E username password code [] agent d) = d"
    unfolding login_def Let_def * create_session_unaddressed [OF assms]
    by (simp split: option.split bool.split)
  show "\<forall>s. fst (login L S E username password code [] agent d) \<noteq> Returns s"
    unfolding login_def Let_def * create_session_unaddressed [OF assms]
    by (simp split: option.split bool.split)
qed

end
