(* ===== verification/Iam_Api.thy ===== *)
theory Iam_Api
  imports Iam_Safety Http
begin

text \<open>
  \<open>apps/iam/internal/httpapi\<close>: the handlers of IAM over the service, the session, origin and
  CSRF checks in front of them, and the edge authorization of the reverse proxy. A handler
  returns the response (\<open>None\<close> if it panics) and the database it leaves. The body of a
  request is the value \<open>decodeJSON\<close> decodes, \<open>None\<close> where it has refused the body. The
  finishing handlers of passkeys give the library the bytes of the body.
\<close>

section \<open>The server and its responses\<close>

record iam_server =
  ws_version :: string
  ws_jwks :: "jwk list option"
  ws_humans :: "iam_service option"
  ws_origins :: "string list"
  ws_secure :: bool

datatype iam_body =
    Iam_error string
  | Iam_status string
  | Iam_metadata string
  | Iam_jwks "jwk list"
  | Iam_session bool bool "principal option"
  | Iam_sessions "session_row list" string
  | Iam_revoked nat
  | Iam_setup setup_info
  | Iam_principal principal bool
  | Iam_keys "api_key list"
  | Iam_key_created string string string string
  | Iam_shares "share list"
  | Iam_share_created string string string
  | Iam_token token_response
  | Iam_ceremony string string
  | Iam_registered
  | Iam_passkeys "(string \<times> string \<times> instant \<times> instant option) list"
  | Iam_bodies "iam_body list"

type_synonym iam_answer = "iam_body response option \<times> iam_db"

definition respond :: "nat \<Rightarrow> (string \<times> string) list \<Rightarrow> iam_body \<Rightarrow> iam_db \<Rightarrow> iam_answer" where
  "respond code hs b d = (Some \<lparr>status = code, headers = hs @ json_headers, body = Some b\<rparr>, d)"

definition fail :: "nat \<Rightarrow> string \<Rightarrow> iam_db \<Rightarrow> iam_answer" where
  "fail code e d = respond code [] (Iam_error e) d"

definition no_content :: "(string \<times> string) list \<Rightarrow> iam_db \<Rightarrow> iam_answer" where
  "no_content hs d = (Some \<lparr>status = 204, headers = hs, body = None\<rparr>, d)"

abbreviation no_store :: "(string \<times> string) list" where
  "no_store \<equiv> [(''Cache-Control'', ''no-store'')]"

definition unavailable :: "iam_db \<Rightarrow> iam_answer" where
  "unavailable d = fail 503 ''temporarily_unavailable'' d"

section \<open>Cookies, origins and addresses\<close>

definition session_cookie :: string where "session_cookie = ''hh_session''"
definition csrf_cookie :: string where "csrf_cookie = ''hh_csrf''"

text \<open>\<open>http.SetCookie\<close> for a value that needs no quoting.\<close>

definition set_cookie :: "iam_server \<Rightarrow> string \<Rightarrow> string \<Rightarrow> bool \<Rightarrow> int \<Rightarrow> string \<times> string" where
  "set_cookie W name v http_only max_age =
     (''Set-Cookie'', name @ ''='' @ v @ ''; Path=/; Max-Age='' @ itoa max_age @
        (if http_only then ''; HttpOnly'' else []) @ (if ws_secure W then ''; Secure'' else []) @ ''; SameSite=Strict'')"

definition set_session_cookies :: "iam_server \<Rightarrow> session \<Rightarrow> (string \<times> string) list" where
  "set_session_cookies W s =
     [set_cookie W session_cookie (se_token s) True 15552000, set_cookie W csrf_cookie (se_csrf s) False 15552000]"

definition clear_session_cookies :: "iam_server \<Rightarrow> (string \<times> string) list" where
  "clear_session_cookies W = [set_cookie W session_cookie [] True 0, set_cookie W csrf_cookie [] False 0]"

definition valid_origin :: "iam_server \<Rightarrow> request \<Rightarrow> bool" where
  "valid_origin W r \<longleftrightarrow>
     (let origin = trim_space (header r ''Origin'') in origin = [] \<or> origin \<in> set (ws_origins W))"

text \<open>\<open>net.SplitHostPort\<close>, of which the host is used.\<close>

definition split_host :: "string \<Rightarrow> string option" where
  "split_host s =
     (if CHR '':'' \<notin> set s then None
      else
        let port = after_last CHR '':'' s; i = length s - length port - 1 in
        if take 1 s = ''[''
        then (if CHR '']'' \<notin> set s then None
              else let end' = length (takeWhile (\<lambda>c. c \<noteq> CHR '']'') s) in
                if end' + 1 \<noteq> i \<or> CHR ''['' \<in> set (drop 1 s) \<or> CHR '']'' \<in> set (drop (end' + 1) s) then None
                else Some (take (end' - 1) (drop 1 s)))
        else if CHR '':'' \<in> set (take i s) \<or> CHR ''['' \<in> set s \<or> CHR '']'' \<in> set s then None
        else Some (take i s))"

definition remote_ip :: "iam_lib \<Rightarrow> request \<Rightarrow> string" where
  "remote_ip L r =
     (let forwarded = trim_space (hd (split_on CHR '','' (header r ''X-Forwarded-For''))) in
      if il_parse_ip L forwarded then forwarded
      else case split_host (remote_addr r) of
        None \<Rightarrow> []
      | Some host \<Rightarrow> if il_parse_ip L host then host else [])"

section \<open>Who is asking\<close>

definition human_principal :: "iam_lib \<Rightarrow> iam_server \<Rightarrow> iam_env \<Rightarrow> request \<Rightarrow> iam_db \<Rightarrow> principal outcome \<times> iam_db" where
  "human_principal L W E r d =
     (case cookie r session_cookie of
        None \<Rightarrow> (Fails ErrInvalidSession, d)
      | Some v \<Rightarrow> if v = [] \<or> ws_humans W = None then (Fails ErrInvalidSession, d) else authenticate_token L E v d)"

text \<open>
  \<open>requireSessionAndCSRF\<close>. A service that is missing is called all the same; past the checks on
  the lengths that is a nil dereference.
\<close>

definition require_session ::
  "iam_lib \<Rightarrow> iam_server \<Rightarrow> iam_env \<Rightarrow> request \<Rightarrow> iam_db \<Rightarrow> (iam_answer + (principal \<times> string)) \<times> iam_db" where
  "require_session L W E r d =
     (if \<not> valid_origin W r then (Inl (fail 403 ''invalid_origin'' d), d)
      else case (cookie r session_cookie, cookie r csrf_cookie) of
        (Some token, Some csrf) \<Rightarrow>
          let h = header r ''X-CSRF-Token'' in
          if csrf \<noteq> h then (Inl (fail 403 ''invalid_csrf'' d), d)
          else (case ws_humans W of
            None \<Rightarrow> (Inl (if length token < 32 \<or> length h < 32 then fail 403 ''invalid_csrf'' d else (None, d)), d)
          | Some S \<Rightarrow>
              if \<not> validate_csrf L E token h d then (Inl (fail 403 ''invalid_csrf'' d), d)
              else case authenticate_token L E token d of
                (Returns p, d') \<Rightarrow> (Inr (p, token), d')
              | (_, d') \<Rightarrow> (Inl (fail 401 ''authentication_required'' d'), d'))
      | _ \<Rightarrow> (Inl (fail 403 ''invalid_csrf'' d), d))"

definition with_session ::
  "iam_lib \<Rightarrow> iam_server \<Rightarrow> iam_env \<Rightarrow> request \<Rightarrow> (principal \<Rightarrow> string \<Rightarrow> iam_db \<Rightarrow> iam_answer) \<Rightarrow> iam_db \<Rightarrow> iam_answer" where
  "with_session L W E r f d =
     (case require_session L W E r d of
        (Inl answer, _) \<Rightarrow> answer
      | (Inr (p, token), d') \<Rightarrow> f p token d')"

section \<open>Handlers\<close>

text \<open>The handlers open to the world check that the service is there and the origin first.\<close>

definition session_status :: "iam_lib \<Rightarrow> iam_server \<Rightarrow> iam_env \<Rightarrow> request \<Rightarrow> iam_db \<Rightarrow> iam_answer" where
  "session_status L W E r d =
     (if ws_humans W = None then unavailable d
      else case setup_required E d of
        Returns required \<Rightarrow>
          (case human_principal L W E r d of
             (Returns p, d') \<Rightarrow> respond 200 no_store (Iam_session True False (Some p)) d'
           | (_, d') \<Rightarrow> respond 200 [] (Iam_session False required None) d')
      | _ \<Rightarrow> unavailable d)"

definition list_sessions_handler :: "iam_lib \<Rightarrow> iam_server \<Rightarrow> iam_env \<Rightarrow> request \<Rightarrow> iam_db \<Rightarrow> iam_answer" where
  "list_sessions_handler L W E r = with_session L W E r (\<lambda>p _ d.
     case list_own_sessions E p d of Returns ss \<Rightarrow> respond 200 [] (Iam_sessions ss (pr_session p)) d | _ \<Rightarrow> unavailable d)"

definition no_content_or_404 :: "bool outcome \<times> iam_db \<Rightarrow> iam_answer" where
  "no_content_or_404 x =
     (case x of (Returns True, d) \<Rightarrow> no_content [] d | (Returns False, d) \<Rightarrow> fail 404 ''not_found'' d | (_, d) \<Rightarrow> unavailable d)"

definition revoke_session_handler ::
  "iam_lib \<Rightarrow> iam_server \<Rightarrow> iam_env \<Rightarrow> request \<Rightarrow> string \<Rightarrow> iam_db \<Rightarrow> iam_answer" where
  "revoke_session_handler L W E r sid = with_session L W E r (\<lambda>p _ d. no_content_or_404 (revoke_own_session E p sid d))"

definition revoke_others_handler :: "iam_lib \<Rightarrow> iam_server \<Rightarrow> iam_env \<Rightarrow> request \<Rightarrow> iam_db \<Rightarrow> iam_answer" where
  "revoke_others_handler L W E r = with_session L W E r (\<lambda>p _ d.
     case revoke_others E p (pr_session p) d of (Returns n, d') \<Rightarrow> respond 200 [] (Iam_revoked n) d' | (_, d') \<Rightarrow> unavailable d')"

record begin_input =
  bi_token :: string
  bi_username :: string
  bi_display :: string
  bi_password :: string

definition open_handler :: "iam_server \<Rightarrow> request \<Rightarrow> 'i option \<Rightarrow> (iam_service \<Rightarrow> 'i \<Rightarrow> iam_db \<Rightarrow> iam_answer) \<Rightarrow> iam_db \<Rightarrow> iam_answer" where
  "open_handler W r input f d =
     (case ws_humans W of
        None \<Rightarrow> fail 403 ''invalid_origin'' d
      | Some S \<Rightarrow>
          if \<not> valid_origin W r then fail 403 ''invalid_origin'' d
          else (case input of None \<Rightarrow> fail 400 ''invalid_request'' d | Some i \<Rightarrow> f S i d))"

definition begin_setup_handler ::
  "iam_lib \<Rightarrow> iam_server \<Rightarrow> iam_env \<Rightarrow> request \<Rightarrow> begin_input option \<Rightarrow> iam_db \<Rightarrow> iam_answer" where
  "begin_setup_handler L W E r input = open_handler W r input (\<lambda>S i d.
     case begin_setup L E (bi_token i) (bi_username i) (bi_display i) (bi_password i) d of
       (Returns su, d') \<Rightarrow> respond 201 no_store (Iam_setup su) d'
     | (Fails e, d') \<Rightarrow> if e = ErrInvalidBootstrap then fail 401 ''invalid_bootstrap'' d' else unavailable d'
     | (Panics, d') \<Rightarrow> (None, d'))"

definition confirm_setup_handler ::
  "iam_lib \<Rightarrow> iam_server \<Rightarrow> iam_env \<Rightarrow> request \<Rightarrow> (string \<times> string) option \<Rightarrow> iam_db \<Rightarrow> iam_answer" where
  "confirm_setup_handler L W E r input = open_handler W r input (\<lambda>S (sid, code) d.
     case confirm_setup L E sid code (remote_ip L r) (header r ''User-Agent'') d of
       (Returns s, d') \<Rightarrow> respond 201 (set_session_cookies W s) (Iam_principal (se_principal s) True) d'
     | (Fails e, d') \<Rightarrow>
         if e = ErrInvalidTOTP then fail 401 ''invalid_totp'' d'
         else if e = ErrSetupUnavailable then fail 409 ''setup_unavailable'' d' else unavailable d'
     | (Panics, d') \<Rightarrow> (None, d'))"

definition login_handler ::
  "iam_lib \<Rightarrow> iam_server \<Rightarrow> iam_env \<Rightarrow> request \<Rightarrow> (string \<times> string \<times> string) option \<Rightarrow> iam_db \<Rightarrow> iam_answer" where
  "login_handler L W E r input = open_handler W r input (\<lambda>S (username, password, code) d.
     case login L S E username password code (remote_ip L r) (header r ''User-Agent'') d of
       (Returns s, d') \<Rightarrow> respond 200 (set_session_cookies W s) (Iam_principal (se_principal s) True) d'
     | (Fails e, d') \<Rightarrow>
         if e = ErrRateLimited then respond 429 [(''Retry-After'', ''900'')] (Iam_error ''rate_limited'') d'
         else if e = ErrInvalidCredentials then fail 401 ''invalid_credentials'' d' else unavailable d'
     | (Panics, d') \<Rightarrow> (None, d'))"

definition logout_handler :: "iam_lib \<Rightarrow> iam_server \<Rightarrow> iam_env \<Rightarrow> request \<Rightarrow> iam_db \<Rightarrow> iam_answer" where
  "logout_handler L W E r = with_session L W E r (\<lambda>p token d.
     case logout L E token d of (_, d') \<Rightarrow> no_content (clear_session_cookies W) d')"

section \<open>API keys and shares\<close>

record key_input =
  ki_name :: string
  ki_kind :: string
  ki_scopes :: "string list"
  ki_days :: "int option"

definition list_keys_handler :: "iam_lib \<Rightarrow> iam_server \<Rightarrow> iam_env \<Rightarrow> request \<Rightarrow> iam_db \<Rightarrow> iam_answer" where
  "list_keys_handler L W E r = with_session L W E r (\<lambda>p _ d.
     case list_own_api_keys E p d of Returns ks \<Rightarrow> respond 200 [] (Iam_keys ks) d | _ \<Rightarrow> unavailable d)"

text \<open>The product of the days is that of two 64-bit durations.\<close>

definition key_expiry :: "instant \<Rightarrow> int option \<Rightarrow> instant option" where
  "key_expiry now days = (case days of None \<Rightarrow> None | Some n \<Rightarrow> if n > 0 then Some (now + wrap64 (wrap64 (n * 24) * hour)) else None)"

definition create_key_handler ::
  "iam_lib \<Rightarrow> iam_server \<Rightarrow> iam_env \<Rightarrow> request \<Rightarrow> key_input option \<Rightarrow> iam_db \<Rightarrow> iam_answer" where
  "create_key_handler L W E r input = with_session L W E r (\<lambda>p _ d.
     case input of
       None \<Rightarrow> fail 400 ''invalid_request'' d
     | Some i \<Rightarrow>
         (case create_api_key L E p (ki_name i) (ki_kind i) (ki_scopes i) (key_expiry (ie_now E) (ki_days i)) d of
            (Returns (kid, token), d') \<Rightarrow> respond 201 no_store (Iam_key_created kid token (ki_name i) (ki_kind i)) d'
          | (Fails _, d') \<Rightarrow> fail 400 ''invalid_api_key'' d'
          | (Panics, d') \<Rightarrow> (None, d')))"

definition revoke_key_handler :: "iam_lib \<Rightarrow> iam_server \<Rightarrow> iam_env \<Rightarrow> request \<Rightarrow> string \<Rightarrow> iam_db \<Rightarrow> iam_answer" where
  "revoke_key_handler L W E r kid = with_session L W E r (\<lambda>p _ d. no_content_or_404 (revoke_api_key L E p kid d))"

definition list_shares_handler :: "iam_lib \<Rightarrow> iam_server \<Rightarrow> iam_env \<Rightarrow> request \<Rightarrow> iam_db \<Rightarrow> iam_answer" where
  "list_shares_handler L W E r = with_session L W E r (\<lambda>p _ d.
     case list_own_shares E p d of Returns ss \<Rightarrow> respond 200 [] (Iam_shares ss) d | _ \<Rightarrow> unavailable d)"

definition create_share_handler ::
  "iam_lib \<Rightarrow> iam_server \<Rightarrow> iam_env \<Rightarrow> request \<Rightarrow> share_input option \<Rightarrow> iam_db \<Rightarrow> iam_answer" where
  "create_share_handler L W E r input = with_session L W E r (\<lambda>p _ d.
     case input of
       None \<Rightarrow> fail 400 ''invalid_request'' d
     | Some i \<Rightarrow>
         (case create_share L E p i d of
            (Returns (sid, token), d') \<Rightarrow> respond 201 no_store (Iam_share_created sid token (si_type i)) d'
          | (Fails _, d') \<Rightarrow> fail 400 ''invalid_share'' d'
          | (Panics, d') \<Rightarrow> (None, d')))"

definition revoke_share_handler :: "iam_lib \<Rightarrow> iam_server \<Rightarrow> iam_env \<Rightarrow> request \<Rightarrow> string \<Rightarrow> iam_db \<Rightarrow> iam_answer" where
  "revoke_share_handler L W E r sid = with_session L W E r (\<lambda>p _ d. no_content_or_404 (revoke_share L E p sid d))"

definition redeem_share_handler :: "iam_lib \<Rightarrow> iam_server \<Rightarrow> iam_env \<Rightarrow> request \<Rightarrow> string option \<Rightarrow> iam_db \<Rightarrow> iam_answer" where
  "redeem_share_handler L W E r input = open_handler W r input (\<lambda>S token d.
     case redeem_share L E token (remote_ip L r) (header r ''User-Agent'') d of
       (Returns s, d') \<Rightarrow> respond 201 (set_session_cookies W s) (Iam_principal (se_principal s) False) d'
     | (Fails _, d') \<Rightarrow> fail 401 ''invalid_share'' d'
     | (Panics, d') \<Rightarrow> (None, d'))"

section \<open>Passkeys\<close>

definition begin_passkey_login_handler :: "iam_lib \<Rightarrow> iam_server \<Rightarrow> iam_env \<Rightarrow> request \<Rightarrow> iam_db \<Rightarrow> iam_answer" where
  "begin_passkey_login_handler L W E r = open_handler W r (Some ()) (\<lambda>S _ d.
     case begin_passkey_login L S E d of
       (Returns (options, token), d') \<Rightarrow> respond 200 [] (Iam_ceremony options token) d'
     | (Fails _, d') \<Rightarrow> unavailable d'
     | (Panics, d') \<Rightarrow> (None, d'))"

definition finish_passkey_login_handler ::
  "iam_lib \<Rightarrow> iam_server \<Rightarrow> iam_env \<Rightarrow> request \<Rightarrow> string \<Rightarrow> iam_db \<Rightarrow> iam_answer" where
  "finish_passkey_login_handler L W E r raw = open_handler W r (Some ()) (\<lambda>S _ d.
     let token = header r ''X-HomeHub-Ceremony-Token'' in
     if token = [] then fail 400 ''missing_ceremony_token'' d
     else case finish_passkey_login L S E token (remote_ip L r) (header r ''User-Agent'') raw d of
       (Returns s, d') \<Rightarrow> respond 200 (set_session_cookies W s) (Iam_principal (se_principal s) True) d'
     | (Fails _, d') \<Rightarrow> fail 401 ''invalid_passkey'' d'
     | (Panics, d') \<Rightarrow> (None, d'))"

text \<open>Past \<open>requireSessionAndCSRF\<close> the service is there.\<close>

definition with_service :: "iam_server \<Rightarrow> (iam_service \<Rightarrow> iam_db \<Rightarrow> iam_answer) \<Rightarrow> iam_db \<Rightarrow> iam_answer" where
  "with_service W f d = (case ws_humans W of None \<Rightarrow> (None, d) | Some S \<Rightarrow> f S d)"

definition begin_passkey_registration_handler ::
  "iam_lib \<Rightarrow> iam_server \<Rightarrow> iam_env \<Rightarrow> request \<Rightarrow> iam_db \<Rightarrow> iam_answer" where
  "begin_passkey_registration_handler L W E r = with_session L W E r (\<lambda>p _. with_service W (\<lambda>S d.
     case begin_passkey_registration L S E p d of
       (Returns (options, token), d') \<Rightarrow> respond 200 [] (Iam_ceremony options token) d'
     | (Fails _, d') \<Rightarrow> unavailable d'
     | (Panics, d') \<Rightarrow> (None, d')))"

definition finish_passkey_registration_handler ::
  "iam_lib \<Rightarrow> iam_server \<Rightarrow> iam_env \<Rightarrow> request \<Rightarrow> string \<Rightarrow> iam_db \<Rightarrow> iam_answer" where
  "finish_passkey_registration_handler L W E r raw = with_session L W E r (\<lambda>p _. with_service W (\<lambda>S d.
     let given = header r ''X-HomeHub-Passkey-Name'';
         name = (if given = [] then default_passkey_name else given);
         token = header r ''X-HomeHub-Ceremony-Token'' in
     case finish_passkey_registration L S E p token name raw d of
       (Returns _, d') \<Rightarrow> respond 201 [] Iam_registered d'
     | (Fails _, d') \<Rightarrow> fail 400 ''invalid_passkey'' d'
     | (Panics, d') \<Rightarrow> (None, d')))"

definition list_passkeys_handler :: "iam_lib \<Rightarrow> iam_server \<Rightarrow> iam_env \<Rightarrow> request \<Rightarrow> iam_db \<Rightarrow> iam_answer" where
  "list_passkeys_handler L W E r = with_session L W E r (\<lambda>p _ d.
     case list_passkeys E p d of Returns ks \<Rightarrow> respond 200 [] (Iam_passkeys ks) d | _ \<Rightarrow> unavailable d)"

definition delete_passkey_handler :: "iam_lib \<Rightarrow> iam_server \<Rightarrow> iam_env \<Rightarrow> request \<Rightarrow> string \<Rightarrow> iam_db \<Rightarrow> iam_answer" where
  "delete_passkey_handler L W E r kid = with_session L W E r (\<lambda>p _ d. no_content_or_404 (delete_passkey L E p kid d))"

section \<open>Tokens\<close>

definition has_key_prefix :: "string \<Rightarrow> bool" where
  "has_key_prefix t \<longleftrightarrow> has_prefix ''hh_'' t"

text \<open>What the proxy is told: the headers it copies to the request it forwards.\<close>

definition edge_ok :: "string \<Rightarrow> token_response \<Rightarrow> iam_db \<Rightarrow> iam_answer" where
  "edge_ok subject t d = no_content
     [(''Authorization'', ''Bearer '' @ tr_access t), (''X-HomeHub-Subject'', ''human:'' @ subject),
      (''Cache-Control'', ''no-store'')] d"

definition edge_session ::
  "iam_lib \<Rightarrow> jwt_lib \<Rightarrow> iam_service \<Rightarrow> iam_env \<Rightarrow> string \<Rightarrow> principal \<Rightarrow> iam_db \<Rightarrow> iam_answer" where
  "edge_session L J S E audience p d =
     (case issue_jwt J S E p audience [] of
        None \<Rightarrow> fail 403 ''insufficient_permission'' d
      | Some t \<Rightarrow> edge_ok (pr_id p) t d)"

text \<open>
  The second half of \<open>edgeAuthorize\<close>: the session cookie is tried twice, the second time in a
  fresh environment \<open>E'\<close>.
\<close>

definition edge_by_cookie ::
  "iam_lib \<Rightarrow> jwt_lib \<Rightarrow> iam_server \<Rightarrow> iam_service \<Rightarrow> iam_env \<Rightarrow> iam_env \<Rightarrow> request \<Rightarrow> string \<Rightarrow> iam_db \<Rightarrow> iam_answer" where
  "edge_by_cookie L J W S E E' r audience d =
     (case human_principal L W E r d of
        (Returns p, d1) \<Rightarrow> edge_session L J S E audience p d1
      | (_, d1) \<Rightarrow>
          (case cookie r session_cookie of
             None \<Rightarrow> fail 401 ''authentication_required'' d1
           | Some v \<Rightarrow>
               if v = [] then fail 401 ''authentication_required'' d1
               else (case authenticate_token L E' v d1 of
                       (Returns p, d2) \<Rightarrow> edge_session L J S E audience p d2
                     | (_, d2) \<Rightarrow> fail 401 ''authentication_required'' d2)))"

definition edge_authorize ::
  "iam_lib \<Rightarrow> jwt_lib \<Rightarrow> iam_server \<Rightarrow> iam_env \<Rightarrow> iam_env \<Rightarrow> request \<Rightarrow> iam_db \<Rightarrow> iam_answer" where
  "edge_authorize L J W E E' r d =
     (case ws_humans W of
        None \<Rightarrow> unavailable d
      | Some S \<Rightarrow>
          let m = to_upper (il_upper L) (trim_space (header r ''X-Forwarded-Method''));
              audience = trim_space (header r ''X-HomeHub-Audience'');
              bearer = (case bearer_token r of Inl _ \<Rightarrow> [] | Inr t \<Rightarrow> t) in
          if m \<noteq> [] \<and> m \<noteq> ''GET'' \<and> m \<noteq> ''HEAD'' \<and> m \<noteq> ''OPTIONS'' \<and> \<not> valid_origin W r
          then fail 403 ''invalid_origin'' d
          else if audience = [] then fail 400 ''missing_audience'' d
          else if bearer \<noteq> [] \<and> has_key_prefix bearer
          then (case authenticate_key E (il_sha256 L bearer) d of
                  (Returns k, d') \<Rightarrow>
                    (case issue_api_key_jwt J S E k audience of
                       None \<Rightarrow> fail 403 ''insufficient_permission'' d'
                     | Some t \<Rightarrow> edge_ok (ak_owner k) t d')
                | (_, d') \<Rightarrow> edge_by_cookie L J W S E E' r audience d')
          else edge_by_cookie L J W S E E' r audience d)"

text \<open>
  \<open>tokenExchangeCompat\<close> goes on after \<open>decodeJSON\<close> has refused the body: what it answers then
  follows the refusal. \<open>audience\<close> is what was decoded, \<open>ok\<close> whether the body was accepted.
\<close>

definition after_refusal :: "bool \<Rightarrow> nat \<Rightarrow> iam_body \<Rightarrow> iam_db \<Rightarrow> iam_answer" where
  "after_refusal ok code b d =
     (if ok then respond code (if code = 200 then no_store else []) b d
      else respond 400 [] (Iam_bodies [Iam_error ''invalid_request'', b]) d)"

definition token_exchange ::
  "iam_lib \<Rightarrow> jwt_lib \<Rightarrow> iam_server \<Rightarrow> iam_env \<Rightarrow> request \<Rightarrow> string \<Rightarrow> bool \<Rightarrow> iam_db \<Rightarrow> iam_answer" where
  "token_exchange L J W E r audience ok d =
     (case bearer_token r of
        Inl _ \<Rightarrow> fail 401 ''invalid_client'' d
      | Inr credential \<Rightarrow>
          if \<not> has_key_prefix credential then fail 401 ''invalid_client'' d
          else (case ws_humans W of
            None \<Rightarrow> (None, d)
          | Some S \<Rightarrow>
              (case authenticate_key E (il_sha256 L credential) d of
                 (Returns k, d') \<Rightarrow>
                   (case issue_api_key_jwt J S E k audience of
                      None \<Rightarrow> after_refusal ok 403 (Iam_error ''insufficient_permission'') d'
                    | Some t \<Rightarrow> after_refusal ok 200 (Iam_token t) d')
               | (_, d') \<Rightarrow> fail 401 ''invalid_client'' d')))"

definition session_token ::
  "iam_lib \<Rightarrow> jwt_lib \<Rightarrow> iam_server \<Rightarrow> iam_env \<Rightarrow> request \<Rightarrow> (string \<times> string list) option \<Rightarrow> iam_db \<Rightarrow> iam_answer" where
  "session_token L J W E r input = with_session L W E r (\<lambda>p _ d.
     case input of
       None \<Rightarrow> fail 400 ''invalid_request'' d
     | Some (audience, permissions) \<Rightarrow>
         (case ws_humans W of
            None \<Rightarrow> (None, d)
          | Some S \<Rightarrow>
              (case issue_jwt J S E p audience permissions of
                 None \<Rightarrow> fail 403 ''insufficient_permission'' d
               | Some t \<Rightarrow> respond 200 no_store (Iam_token t) d)))"

section \<open>Routes\<close>

datatype iam_route =
    Get_live | Get_ready bool | Get_metadata | Get_jwks
  | Begin_setup_r "begin_input option" | Confirm_setup_r "(string \<times> string) option"
  | Login_r "(string \<times> string \<times> string) option" | Logout_r
  | Get_session | Get_sessions | Delete_session string | Delete_sessions
  | Passkey_login_begin | Passkey_login_finish string | Passkey_registration_begin | Passkey_registration_finish string
  | Get_passkeys | Delete_passkey_r string
  | Get_keys | Create_key_r "key_input option" | Delete_key string
  | Get_shares | Create_share_r "share_input option" | Delete_share string | Redeem_r "string option"
  | Edge_authorize iam_env | Token_exchange string bool | Session_token "(string \<times> string list) option"

text \<open>\<open>Get_ready\<close> carries whether the readiness check failed.\<close>

fun iam_handle ::
  "iam_lib \<Rightarrow> jwt_lib \<Rightarrow> iam_server \<Rightarrow> iam_env \<Rightarrow> request \<Rightarrow> iam_route \<Rightarrow> iam_db \<Rightarrow> iam_answer" where
  "iam_handle L J W E r Get_live d = respond 200 [] (Iam_status ''ok'') d"
| "iam_handle L J W E r (Get_ready down) d =
     (if down then respond 503 [] (Iam_status ''unavailable'') d else respond 200 [] (Iam_status ''ok'') d)"
| "iam_handle L J W E r Get_metadata d = respond 200 [] (Iam_metadata (ws_version W)) d"
| "iam_handle L J W E r Get_jwks d =
     (case ws_jwks W of
        None \<Rightarrow> fail 503 ''signing_keys_unavailable'' d
      | Some ks \<Rightarrow> respond 200 [(''Cache-Control'', ''public, max-age=60, stale-if-error=300'')] (Iam_jwks ks) d)"
| "iam_handle L J W E r (Begin_setup_r i) d = begin_setup_handler L W E r i d"
| "iam_handle L J W E r (Confirm_setup_r i) d = confirm_setup_handler L W E r i d"
| "iam_handle L J W E r (Login_r i) d = login_handler L W E r i d"
| "iam_handle L J W E r Logout_r d = logout_handler L W E r d"
| "iam_handle L J W E r Get_session d = session_status L W E r d"
| "iam_handle L J W E r Get_sessions d = list_sessions_handler L W E r d"
| "iam_handle L J W E r (Delete_session sid) d = revoke_session_handler L W E r sid d"
| "iam_handle L J W E r Delete_sessions d = revoke_others_handler L W E r d"
| "iam_handle L J W E r Passkey_login_begin d = begin_passkey_login_handler L W E r d"
| "iam_handle L J W E r (Passkey_login_finish raw) d = finish_passkey_login_handler L W E r raw d"
| "iam_handle L J W E r Passkey_registration_begin d = begin_passkey_registration_handler L W E r d"
| "iam_handle L J W E r (Passkey_registration_finish raw) d = finish_passkey_registration_handler L W E r raw d"
| "iam_handle L J W E r Get_passkeys d = list_passkeys_handler L W E r d"
| "iam_handle L J W E r (Delete_passkey_r kid) d = delete_passkey_handler L W E r kid d"
| "iam_handle L J W E r Get_keys d = list_keys_handler L W E r d"
| "iam_handle L J W E r (Create_key_r i) d = create_key_handler L W E r i d"
| "iam_handle L J W E r (Delete_key kid) d = revoke_key_handler L W E r kid d"
| "iam_handle L J W E r Get_shares d = list_shares_handler L W E r d"
| "iam_handle L J W E r (Create_share_r i) d = create_share_handler L W E r i d"
| "iam_handle L J W E r (Delete_share sid) d = revoke_share_handler L W E r sid d"
| "iam_handle L J W E r (Redeem_r i) d = redeem_share_handler L W E r i d"
| "iam_handle L J W E r (Edge_authorize E') d = edge_authorize L J W E E' r d"
| "iam_handle L J W E r (Token_exchange a ok) d = token_exchange L J W E r a ok d"
| "iam_handle L J W E r (Session_token i) d = session_token L J W E r i d"

text \<open>The middleware, with the request id the random bytes give.\<close>

definition iam_serve ::
  "iam_lib \<Rightarrow> jwt_lib \<Rightarrow> iam_server \<Rightarrow> iam_env \<Rightarrow> string \<Rightarrow> request \<Rightarrow> iam_route \<Rightarrow> iam_db \<Rightarrow> iam_answer" where
  "iam_serve L J W E rnd r route d =
     (case iam_handle L J W E r route d of
        (None, d') \<Rightarrow> (None, d')
      | (Some resp, d') \<Rightarrow>
          (Some (resp\<lparr>headers := [(''X-Request-ID'', hex_encode rnd), (''X-Content-Type-Options'', ''nosniff'')] @ headers resp\<rparr>), d'))"

end
