(* ===== verification/Iam_Edge.thy ===== *)
theory Iam_Edge
  imports Iam_Api Iam_Access
begin

text \<open>
  What the HTTP surface of IAM lets through: every request is a sequence of service
  operations, the cookie-authenticated routes are guarded against cross-site requests, the
  edge authorizes API keys only, and what it hands out is what the services behind it accept.
\<close>

section \<open>A request is a sequence of service operations\<close>

lemma iam_step_eq: "iam_step L S d (snd x) \<Longrightarrow> x = (r, d') \<Longrightarrow> iam_steps L S d d'"
  by auto

text \<open>One rule per operation: from the pair it returns to the step it is.\<close>

lemmas op_steps =
  iam_step_eq [OF Begin_setup] iam_step_eq [OF Confirm_setup] iam_step_eq [OF Login] iam_step_eq [OF Authenticate]
  iam_step_eq [OF Logout] iam_step_eq [OF Revoke_session] iam_step_eq [OF Revoke_others] iam_step_eq [OF Create_key]
  iam_step_eq [OF Revoke_key] iam_step_eq [OF Use_key] iam_step_eq [OF Create_share] iam_step_eq [OF Revoke_share]
  iam_step_eq [OF Redeem_share] iam_step_eq [OF Begin_passkey_registration [OF UNIV_I]]
  iam_step_eq [OF Begin_passkey_login [OF UNIV_I]] iam_step_eq [OF Finish_passkey_login] iam_step_eq [OF Delete_passkey]

lemma respond_state [simp]: "snd (respond c hs b d) = d" "snd (fail c e d) = d" "snd (no_content hs d) = d"
  "snd (unavailable d) = d" "snd (edge_ok s t d) = d" "snd (after_refusal ok c b d) = d"
  by (simp_all add: respond_def fail_def no_content_def unavailable_def edge_ok_def after_refusal_def)

lemma edge_session_state [simp]: "snd (edge_session L J S E a p d) = d"
  by (simp add: edge_session_def split: option.split)

lemma human_principal_steps: "iam_steps L S d (snd (human_principal L W E r d))"
proof -
  have "iam_steps L S d (snd (authenticate_token L E v d))" for v by (auto intro: Authenticate)
  then show ?thesis by (simp add: human_principal_def split: option.split)
qed

lemma require_session_steps: "iam_steps L S d (snd (require_session L W E r d))"
  and require_session_Inl: "require_session L W E r d = (Inl a, d') \<Longrightarrow> snd a = d'"
proof -
  have "iam_steps L S d d'" if "authenticate_token L E v d = (x, d')" for v x d'
    using Authenticate [of L S UNIV d E v] that by auto
  then show "iam_steps L S d (snd (require_session L W E r d))"
    by (auto simp: require_session_def Let_def split: option.split prod.split outcome.split)
  show "require_session L W E r d = (Inl a, d') \<Longrightarrow> snd a = d'"
    by (auto simp: require_session_def Let_def split: if_splits option.splits prod.splits outcome.splits)
qed

lemma with_session_steps:
  assumes "\<And>p token d1. iam_steps L S d1 (snd (f p token d1))"
  shows "iam_steps L S d (snd (with_session L W E r f d))"
proof -
  obtain x d1 where x: "require_session L W E r d = (x, d1)" by (cases "require_session L W E r d")
  then have d1: "iam_steps L S d d1" using require_session_steps [of L S d W E r] by simp
  show ?thesis
  proof (cases x)
    case (Inl a)
    then show ?thesis using d1 require_session_Inl [of L W E r d a d1] by (simp add: with_session_def x)
  next
    case (Inr y)
    then show ?thesis using rtranclp_trans [OF d1 assms] by (cases y) (simp add: with_session_def x)
  qed
qed

lemma open_handler_steps:
  assumes "\<And>S' i. iam_steps L S d (snd (f S' i d))"
  shows "iam_steps L S d (snd (open_handler W r input f d))"
  using assms by (simp add: open_handler_def split: option.split)

lemma no_content_or_404_state: "snd (no_content_or_404 x) = snd x"
  by (auto simp: no_content_or_404_def split: prod.split outcome.split bool.split)

lemma session_handlers_steps:
  "iam_steps L S d (snd (session_status L W E r d))"
  "iam_steps L S d (snd (list_sessions_handler L W E r d))"
  "iam_steps L S d (snd (revoke_session_handler L W E r sid d))"
  "iam_steps L S d (snd (revoke_others_handler L W E r d))"
  "iam_steps L S d (snd (logout_handler L W E r d))"
proof -
  have "iam_steps L S d d'" if "human_principal L W E r d = (x, d')" for x d'
    using human_principal_steps [of L S d W E r] that by simp
  then show "iam_steps L S d (snd (session_status L W E r d))"
    by (auto simp: session_status_def split: outcome.split prod.split)
  show "iam_steps L S d (snd (list_sessions_handler L W E r d))"
    unfolding list_sessions_handler_def by (intro with_session_steps) (simp split: outcome.split)
  show "iam_steps L S d (snd (revoke_session_handler L W E r sid d))"
    unfolding revoke_session_handler_def
    by (intro with_session_steps) (auto simp: no_content_or_404_state intro: Revoke_session)
  show "iam_steps L S d (snd (revoke_others_handler L W E r d))"
    unfolding revoke_others_handler_def
    by (intro with_session_steps) (auto split: prod.split outcome.split intro: op_steps)
  show "iam_steps L S d (snd (logout_handler L W E r d))"
    unfolding logout_handler_def by (intro with_session_steps) (auto split: prod.split intro: op_steps)
qed

lemma open_handlers_steps:
  "iam_steps L S d (snd (begin_setup_handler L W E r bi d))"
  "iam_steps L S d (snd (confirm_setup_handler L W E r ci d))"
  "ws_humans W = Some S \<Longrightarrow> iam_steps L S d (snd (login_handler L W E r li d))"
  "iam_steps L S d (snd (redeem_share_handler L W E r ri d))"
proof -
  show "iam_steps L S d (snd (begin_setup_handler L W E r bi d))"
    unfolding begin_setup_handler_def
    by (intro open_handler_steps) (auto split: prod.split outcome.split intro: op_steps)
  show "iam_steps L S d (snd (confirm_setup_handler L W E r ci d))"
    unfolding confirm_setup_handler_def
    by (intro open_handler_steps) (auto split: prod.split outcome.split intro: op_steps)
  show "iam_steps L S d (snd (login_handler L W E r li d))" if "ws_humans W = Some S"
    using that unfolding login_handler_def open_handler_def
    by (auto split: prod.split outcome.split option.split intro: op_steps)
  show "iam_steps L S d (snd (redeem_share_handler L W E r ri d))"
    unfolding redeem_share_handler_def
    by (intro open_handler_steps) (auto split: prod.split outcome.split intro: op_steps)
qed

lemma credential_handlers_steps:
  "iam_steps L S d (snd (list_keys_handler L W E r d))"
  "iam_steps L S d (snd (create_key_handler L W E r ki d))"
  "iam_steps L S d (snd (revoke_key_handler L W E r kid d))"
  "iam_steps L S d (snd (list_shares_handler L W E r d))"
  "iam_steps L S d (snd (create_share_handler L W E r si d))"
  "iam_steps L S d (snd (revoke_share_handler L W E r sid d))"
proof -
  show "iam_steps L S d (snd (list_keys_handler L W E r d))"
    unfolding list_keys_handler_def by (intro with_session_steps) (simp split: outcome.split)
  show "iam_steps L S d (snd (create_key_handler L W E r ki d))"
    unfolding create_key_handler_def
    by (intro with_session_steps) (auto split: option.split prod.split outcome.split intro: op_steps)
  show "iam_steps L S d (snd (revoke_key_handler L W E r kid d))"
    unfolding revoke_key_handler_def by (intro with_session_steps) (auto simp: no_content_or_404_state intro: Revoke_key)
  show "iam_steps L S d (snd (list_shares_handler L W E r d))"
    unfolding list_shares_handler_def by (intro with_session_steps) (simp split: outcome.split)
  show "iam_steps L S d (snd (create_share_handler L W E r si d))"
    unfolding create_share_handler_def
    by (intro with_session_steps) (auto split: option.split prod.split outcome.split intro: op_steps)
  show "iam_steps L S d (snd (revoke_share_handler L W E r sid d))"
    unfolding revoke_share_handler_def by (intro with_session_steps) (auto simp: no_content_or_404_state intro: Revoke_share)
qed

lemma passkey_handlers_steps:
  assumes S: "ws_humans W = Some S"
  shows "iam_steps L S d (snd (begin_passkey_login_handler L W E r d))"
    "iam_steps L S d (snd (finish_passkey_login_handler L W E r raw d))"
    "iam_steps L S d (snd (begin_passkey_registration_handler L W E r d))"
    "iam_steps L S d (snd (finish_passkey_registration_handler L W E r raw d))"
    "iam_steps L S d (snd (list_passkeys_handler L W E r d))"
    "iam_steps L S d (snd (delete_passkey_handler L W E r kid d))"
proof -
  show "iam_steps L S d (snd (begin_passkey_login_handler L W E r d))"
    "iam_steps L S d (snd (finish_passkey_login_handler L W E r raw d))"
    unfolding begin_passkey_login_handler_def finish_passkey_login_handler_def open_handler_def S
    by (auto simp: Let_def split: prod.split outcome.split intro: op_steps)
  show "iam_steps L S d (snd (begin_passkey_registration_handler L W E r d))"
    unfolding begin_passkey_registration_handler_def with_service_def S
    by (intro with_session_steps) (auto split: prod.split outcome.split intro: op_steps)
  have "iam_steps L S x y" if "finish_passkey_registration L S E p t n raw x = (o', y)" for p t n x o' y
    using Finish_passkey_registration [of S E raw UNIV L x p t n] that by auto
  then show "iam_steps L S d (snd (finish_passkey_registration_handler L W E r raw d))"
    unfolding finish_passkey_registration_handler_def with_service_def S Let_def
    by (intro with_session_steps) (auto split: prod.split outcome.split)
  show "iam_steps L S d (snd (list_passkeys_handler L W E r d))"
    unfolding list_passkeys_handler_def by (intro with_session_steps) (simp split: outcome.split)
  show "iam_steps L S d (snd (delete_passkey_handler L W E r kid d))"
    unfolding delete_passkey_handler_def
    by (intro with_session_steps) (auto simp: no_content_or_404_state intro: iam_adding.Delete_passkey)
qed

lemma edge_by_cookie_steps: "iam_steps L S d (snd (edge_by_cookie L J W S' E E' r a d))"
proof -
  obtain x d1 where x: "human_principal L W E r d = (x, d1)" by (cases "human_principal L W E r d")
  then have d1: "iam_steps L S d d1" using human_principal_steps [of L S d W E r] by simp
  have "iam_steps L S d1 d2" if "authenticate_token L E' v d1 = (y, d2)" for v y d2
    using Authenticate [of L S UNIV d1 E' v] that by auto
  then have "iam_steps L S d d2" if "authenticate_token L E' v d1 = (y, d2)" for v y d2
    using rtranclp_trans [OF d1] that by blast
  with d1 show ?thesis
    by (auto simp: edge_by_cookie_def x split: outcome.split option.split prod.split)
qed

lemma token_handlers_steps:
  "iam_steps L S d (snd (edge_authorize L J W E E' r d))"
  "iam_steps L S d (snd (token_exchange L J W E r a ok d))"
  "iam_steps L S d (snd (session_token L J W E r ti d))"
proof -
  have key: "iam_steps L S d d'" if "authenticate_key E h d = (x, d')" for h x d'
    using Use_key [of L S UNIV d E h] that by auto
  have "iam_steps L S d (snd (edge_by_cookie L J W S' E E' r au d'))" if "authenticate_key E h d = (x, d')" for h x d' S' au
    by (rule rtranclp_trans [OF key [OF that] edge_by_cookie_steps])
  then show "iam_steps L S d (snd (edge_authorize L J W E E' r d))"
    using key edge_by_cookie_steps
    by (auto simp: edge_authorize_def Let_def split: option.split prod.split outcome.split)
  show "iam_steps L S d (snd (token_exchange L J W E r a ok d))"
    using key by (auto simp: token_exchange_def split: sum.split option.split prod.split outcome.split)
  show "iam_steps L S d (snd (session_token L J W E r ti d))"
    unfolding session_token_def by (intro with_session_steps) (auto split: option.split)
qed


section \<open>The guard on cookies\<close>

fun cookie_guarded :: "iam_route \<Rightarrow> bool" where
  "cookie_guarded route \<longleftrightarrow>
     (case route of Logout_r \<Rightarrow> True | Get_sessions \<Rightarrow> True | Delete_session _ \<Rightarrow> True | Delete_sessions \<Rightarrow> True | Get_keys \<Rightarrow> True
      | Create_key_r _ \<Rightarrow> True | Delete_key _ \<Rightarrow> True | Get_shares \<Rightarrow> True | Create_share_r _ \<Rightarrow> True
      | Delete_share _ \<Rightarrow> True | Passkey_registration_begin \<Rightarrow> True | Passkey_registration_finish _ \<Rightarrow> True
      | Get_passkeys \<Rightarrow> True | Delete_passkey_r _ \<Rightarrow> True | Session_token _ \<Rightarrow> True | _ \<Rightarrow> False)"

definition same_site :: "iam_lib \<Rightarrow> iam_server \<Rightarrow> iam_env \<Rightarrow> request \<Rightarrow> iam_db \<Rightarrow> bool" where
  "same_site L W E r d \<longleftrightarrow> valid_origin W r \<and> cookie r csrf_cookie = Some (header r ''X-CSRF-Token'') \<and>
     (\<exists>token. cookie r session_cookie = Some token \<and> validate_csrf L E token (header r ''X-CSRF-Token'') d)"

lemma require_session_refuses:
  assumes "\<not> same_site L W E r d" and "ws_humans W = Some S"
  shows "\<exists>resp. require_session L W E r d = (Inl (Some resp, d), d) \<and> status resp = 403"
  using assms
  by (cases "cookie r session_cookie"; cases "cookie r csrf_cookie")
    (auto simp: require_session_def same_site_def Let_def fail_def respond_def)

text \<open>
  C7. A request to a route that acts for the owner is refused with 403 and changes nothing
  unless it comes from an allowed origin (or names none), carries the CSRF token in a header
  equal to the cookie, and that token belongs to the session of the session cookie.
\<close>

theorem cookie_guard:
  assumes "cookie_guarded route" and "\<not> same_site L W E r d" and "ws_humans W = Some S"
  shows "\<exists>resp. iam_handle L J W E r route d = (Some resp, d) \<and> status resp = 403"
proof -
  have refused: "\<exists>resp. with_session L W E r f d = (Some resp, d) \<and> status resp = 403" for f
    using require_session_refuses [OF assms(2,3)] by (auto simp: with_session_def)
  show ?thesis
    using assms(1)
    by (cases route) (simp_all add: logout_handler_def list_sessions_handler_def revoke_session_handler_def
        revoke_others_handler_def list_keys_handler_def create_key_handler_def revoke_key_handler_def list_shares_handler_def
        create_share_handler_def revoke_share_handler_def begin_passkey_registration_handler_def
        finish_passkey_registration_handler_def list_passkeys_handler_def delete_passkey_handler_def session_token_def refused)
qed

section \<open>The edge\<close>

lemma edge_session_refused: "fst (edge_session L J S E a p d) = fst (fail 403 ''insufficient_permission'' d)"
  by (cases "sv_signer S") (simp_all add: edge_session_def issue_jwt_def Let_def issue_def jwt_request_def response_of_def fail_def respond_def)

lemma edge_by_cookie_status:
  "\<exists>resp. fst (edge_by_cookie L J W S E E' r a d) = Some resp \<and> status resp \<in> {401, 403}"
  by (auto simp: edge_by_cookie_def edge_session_refused fail_def respond_def split: outcome.split option.split prod.split)

lemma edge_authorize_204:
  assumes "edge_authorize L J W E E' r d = (Some resp, d')" and "status resp = 204"
  obtains S tok k t where "ws_humans W = Some S" "bearer_token r = Inr tok" "has_key_prefix tok"
    "authenticate_key E (il_sha256 L tok) d = (Returns k, d')"
    "issue_api_key_jwt J S E k (trim_space (header r ''X-HomeHub-Audience'')) = Some t"
    "trim_space (header r ''X-HomeHub-Audience'') \<noteq> []"
    "response_header resp ''Authorization'' = Some (''Bearer '' @ tr_access t)"
proof -
  let ?a = "trim_space (header r ''X-HomeHub-Audience'')"
  have cookie: "edge_by_cookie L J W S E E' r ?a x \<noteq> (Some resp, y)" for S x y
    using edge_by_cookie_status [of L J W S E E' r ?a x] assms(2) by auto
  have fail: "fail n e x \<noteq> (Some resp, y)" if "n \<noteq> 204" for n e x y
    using assms(2) that by (auto simp: fail_def respond_def)
  obtain S where S: "ws_humans W = Some S"
    using assms(1) fail unfolding edge_authorize_def unavailable_def by (cases "ws_humans W") simp_all
  let ?b = "case bearer_token r of Inl _ \<Rightarrow> [] | Inr t \<Rightarrow> t"
  let ?rest = "\<lambda>b. case authenticate_key E (il_sha256 L b) d of
                  (Returns k, d') \<Rightarrow>
                    (case issue_api_key_jwt J S E k ?a of
                       None \<Rightarrow> fail 403 ''insufficient_permission'' d'
                     | Some t \<Rightarrow> edge_ok (ak_owner k) t d')
                | (_, d') \<Rightarrow> edge_by_cookie L J W S E E' r ?a d'"
  have fails: "fail 403 e x \<noteq> (Some resp, y)" "fail 400 e x \<noteq> (Some resp, y)" for e x y by (rule fail; simp)+
  have "?a \<noteq> [] \<and> (?b \<noteq> [] \<and> has_key_prefix ?b) \<and> ?rest ?b = (Some resp, d')"
    using assms(1) unfolding edge_authorize_def S option.case Let_def
    by (simp only: fails cookie simp_thms split: if_split_asm)
  then obtain tok where tok: "bearer_token r = Inr tok" "has_key_prefix tok" and a: "?a \<noteq> []"
    and rest: "?rest tok = (Some resp, d')"
    by (cases "bearer_token r") auto
  obtain x d1 where x: "authenticate_key E (il_sha256 L tok) d = (x, d1)" by (cases "authenticate_key E (il_sha256 L tok) d")
  obtain k where k: "x = Returns k" using rest cookie by (cases x) (simp_all add: x)
  obtain t where t: "issue_api_key_jwt J S E k ?a = Some t" and ok: "edge_ok (ak_owner k) t d1 = (Some resp, d')"
    using rest fail by (cases "issue_api_key_jwt J S E k ?a") (simp_all add: x k)
  from ok have "d1 = d'" "response_header resp ''Authorization'' = Some (''Bearer '' @ tr_access t)"
    by (auto simp: edge_ok_def no_content_def response_header_def)
  with S tok a x k t show thesis by (intro that) simp_all
qed


text \<open>What the token the edge attached is worth at the service it is for.\<close>

lemma edge_issued:
  assumes edge: "edge_authorize L J W E E' r d = (Some resp, d')" "status resp = 204"
    and S: "ws_humans W = Some S" "sv_signer S = Some sg" and sign: "sign_law J" 
    and codec: "\<And>k t c. k \<in> set (ia_keys d) \<Longrightarrow>
      issue J (Some sg) (ie_now E) (ie_rnd E 0 16) (key_request (ie_now E) (vf_audience v) k) = Inr (t, c) \<Longrightarrow>
      codec_ok J (token_header sg) c"
    and vf: "map_of (vf_keys v) (sg_kid sg) = Some (lib_public J (sg_key sg))"
      "vf_audience v = trim_space (header r ''X-HomeHub-Audience'')"
    and ttl: "sg_ttl sg = n * second" "0 \<le> n" "n \<le> 2 ^ 32" "sg_ttl sg \<le> vf_max_ttl v"
    and misc: "sg_kid sg \<noteq> []" "ie_rnd E 0 16 \<noteq> []" "usable_at sg (ie_now E) used"
    and fwd: "Some (header r' ''Authorization'') = response_header resp ''Authorization''"
      "length (header r' ''Authorization'') \<le> max_token_bytes"
  obtains k c where "k \<in> set (ia_keys d)" "api_key_live (ie_db E) d k" "tc_sub c = ''human:'' @ ak_owner k"
    "set (tc_permissions c) = set (ak_scopes k)"
    "\<And>required. authenticate (verify J v used) required r' =
       (if required = [] \<or> system_root \<in> set (ak_scopes k) \<or> set required \<inter> set (ak_scopes k) \<noteq> {}
        then Inr c else Inl (403, ''insufficient_permission''))"
  using edge
proof (rule edge_authorize_204)
  fix S' tok k t
  let ?a = "trim_space (header r ''X-HomeHub-Audience'')"
  assume S': "ws_humans W = Some S'" and k: "authenticate_key E (il_sha256 L tok) d = (Returns k, d')"
    and t: "issue_api_key_jwt J S' E k ?a = Some t" and a: "?a \<noteq> []"
    and hdr: "response_header resp ''Authorization'' = Some (''Bearer '' @ tr_access t)"
  let ?rq = "key_request (ie_now E) ?a k"
  obtain c where c: "issue J (Some sg) (ie_now E) (ie_rnd E 0 16) ?rq = Inr (tr_access t, c)"
    using t a S S' unfolding issue_api_key_jwt_def Let_def by (elim response_of_Some) simp
  have bearer: "header r' ''Authorization'' = ''Bearer '' @ tr_access t" using fwd(1) hdr by simp
  then have size: "length (tr_access t) \<le> max_token_bytes" using fwd(2) by simp
  have codec_c: "codec_ok J (token_header sg) c" using codec [of k] c authenticate_key_Returns [OF k] vf(2) by simp
  have aud: "vf_audience v = rq_audience ?rq" using vf(2) by (simp add: key_request_def)
  have ps: "rq_permissions ?rq = ak_scopes k" by (simp add: key_request_def)
  have "authenticate (verify J v used) required r' =
      (if required = [] \<or> system_root \<in> set (ak_scopes k) \<or> set required \<inter> set (ak_scopes k) \<noteq> {}
       then Inr c else Inl (403, ''insufficient_permission''))" for required
    using issued_authenticates [OF c sign codec_c vf(1) aud ttl misc(1,2) size misc(3) bearer, of required] unfolding ps .
  moreover have "tc_sub c = ''human:'' @ ak_owner k" "set (tc_permissions c) = set (ak_scopes k)"
    using issue_permissions [OF c] by (simp_all add: key_request_def)
  moreover have "k \<in> set (ia_keys d)" "api_key_live (ie_db E) d k" using authenticate_key_Returns [OF k] by simp_all
  ultimately show thesis by (intro that)
qed


end
