(* ===== verification/Iam_Examples.thy ===== *)
theory Iam_Examples
  imports Iam_Login Iam_Edge
begin

text \<open>
  A concrete run of IAM, from the bootstrap token to the revocation of an API key, on which
  the properties of \<open>Iam_Access\<close>, \<open>Iam_Login\<close> and \<open>Iam_Edge\<close> are exercised. The library
  functions are instantiated by simple total functions that satisfy the laws.
\<close>

definition ex_il :: iam_lib where
  "ex_il = \<lparr>il_sha256 = (\<lambda>s. s), il_hmac_sha1 = (\<lambda>_ _. replicate 20 CHR 0x00),
     il_argon = (\<lambda>pw salt t m p n. Some (take n (pw @ replicate n CHR ''0''))),
     il_seal = (\<lambda>n p. p), il_open = (\<lambda>n c. Some c), il_lower = (\<lambda>s. s), il_upper = (\<lambda>s. s),
     il_inet = (\<lambda>s. if s = [] then None else Some s), il_parse_ip = (\<lambda>s. s \<noteq> []), il_uuid = Some,
     il_credential_text = (\<lambda>c. if wc_data c = [] then Some (wc_id c) else None), il_credential_of = (\<lambda>s. Some \<lparr>wc_id = s, wc_data = []\<rparr>),
     il_session_text = Some, il_session_of = Some\<rparr>"

definition ex_iam_env :: "instant \<Rightarrow> string \<Rightarrow> char \<Rightarrow> iam_env" where
  "ex_iam_env t i c = \<lparr>ie_now = t, ie_db = t, ie_rnd = (\<lambda>_ n. replicate n c), ie_id = i, ie_fails = (\<lambda>_. False), ie_lost = False\<rparr>"

lemma ex_il_simps [simp]:
  "il_sha256 ex_il s = s" "il_seal ex_il n p = p" "il_open ex_il n p = Some p"
  "il_inet ex_il s = (if s = [] then None else Some s)"
  "il_argon ex_il pw salt t m q k = Some (take k (pw @ replicate k CHR ''0''))" "il_parse_ip ex_il s = (s \<noteq> [])"
  by (simp_all add: ex_il_def)

lemma ex_iam_env_simps [simp]:
  "ie_now (ex_iam_env t i c) = t" "ie_db (ex_iam_env t i c) = t" "ie_id (ex_iam_env t i c) = i" "\<not> ie_fails (ex_iam_env t i c) st"
  "ie_rnd (ex_iam_env t i c) k n = replicate n c" "ie_lost (ex_iam_env t i c) = False"
  by (simp_all add: ex_iam_env_def)

lemma ex_laws_iam: "argon_law ex_il" "seal_law ex_il" "hmac_law ex_il"
  by (simp_all add: argon_law_def seal_law_def hmac_law_def ex_il_def min_def)

definition ex_pw :: string where "ex_pw = ''correct-horse''"
definition ex_hash :: "string \<Rightarrow> string" where "ex_hash pw = the (hash_password ex_il pw (replicate 16 CHR ''a''))"
definition ex_key :: string where "ex_key = replicate 20 CHR ''a''"

definition ex_wa :: webauthn where
  "ex_wa = \<lparr>wa_begin_registration = (\<lambda>a challenge. Some (''options'', challenge)),
     wa_finish_registration = (\<lambda>t a sd raw. Some \<lparr>wc_id = ''cred'', wc_data = []\<rparr>),
     wa_begin_login = (\<lambda>challenge. Some (''options'', challenge)),
     wa_assertion = (\<lambda>sd raw. Some (''cred'', ''o1'')),
     wa_verify_login = (\<lambda>t a sd raw. if wc_id ` set (wa_credentials a) = {} then None else Some \<lparr>wc_id = ''cred'', wc_data = []\<rparr>)\<rparr>"

definition ex_sv :: iam_service where
  "ex_sv = \<lparr>sv_dummy = ex_hash ''dummy'', sv_signer = Some ex_signer, sv_passkeys = Some ex_wa\<rparr>"

lemma ex_hash: "hash_password ex_il pw (replicate 16 CHR ''a'') = Some (ex_hash pw)"
  using hash_password_total [OF ex_laws_iam(1), of pw "replicate 16 CHR ''a''"] by (auto simp: ex_hash_def)

lemma ex_code: "hotp ex_il key c = ''000000''"
proof -
  have bytes: "replicate 4 CHR 0x00 = [CHR 0x00, CHR 0x00, CHR 0x00, CHR 0x00]"
    by (simp add: numeral_eq_Suc)
  have last: "last (replicate 20 CHR 0x00) = CHR 0x00" by simp
  have word: "get_be32 [CHR 0x00, CHR 0x00, CHR 0x00, CHR 0x00] = 0" by (simp add: get_be32_def)
  have "digit_char 0 = CHR ''0''"
    by (simp only: char_eq_byte digit_char_def byte_char_of add_0_right) (simp add: byte_char_of)
  then have pad: "pad6 0 = ''000000''" by (simp add: pad6_def decimal.simps numeral_eq_Suc)
  have "il_hmac_sha1 ex_il k m = replicate 20 CHR 0x00" for k m by (simp add: ex_il_def)
  then show ?thesis unfolding hotp_def Let_def by (simp only: last) (simp add: bytes word pad)
qed

lemma ex_totp: "validate_totp ex_il (b32_encode key) ''000000'' now"
  by (simp add: validate_totp_encoded ex_code)

lemma ex_totp_only: "validate_totp ex_il (b32_encode key) code now \<longleftrightarrow> code = ''000000''"
  by (auto simp: validate_totp_encoded ex_code)

text \<open>The bootstrap token, the set-up and its confirmation.\<close>

definition ex_d0 :: iam_db where
  "ex_d0 = empty_iam\<lparr>ia_bootstrap := [\<lparr>bt_hash = ''boot'', bt_expires = 168 * hour, bt_consumed = None\<rparr>]\<rparr>"

definition ex_setup_row :: pending_setup where
  "ex_setup_row = \<lparr>su_id = ''s1'', su_token = ''boot'', su_username = ''luna'', su_normalized = ''luna'', su_display = ''luna'',
     su_password = ex_hash ex_pw, su_totp_cipher = b32_encode ex_key, su_totp_nonce = replicate 12 CHR ''a'',
     su_expires = 960 * second\<rparr>"

definition ex_setup :: setup_info where
  "ex_setup = \<lparr>st_id = ''s1'', st_secret = b32_encode ex_key, st_uri = provisioning_uri ''luna'' (b32_encode ex_key),
     st_expires = 960 * second\<rparr>"

definition ex_d1 :: iam_db where "ex_d1 = ex_d0\<lparr>ia_setups := [ex_setup_row]\<rparr>"

definition ex_owner :: owner where
  "ex_owner = \<lparr>ow_id = ''o1'', ow_username = ''luna'', ow_normalized = ''luna'', ow_display = ''luna'', ow_password = ex_hash ex_pw,
     ow_totp_cipher = b32_encode ex_key, ow_totp_nonce = replicate 12 CHR ''a'', ow_active = True\<rparr>"

definition ex_session_token :: string where "ex_session_token = hex_encode (replicate 32 CHR ''b'')"

definition ex_row :: session_row where
  "ex_row = \<lparr>sn_id = ''o1'', sn_owner = ''o1'', sn_token = ex_session_token, sn_csrf = ex_session_token,
     sn_methods = [''password'', ''otp''], sn_authenticated = 120 * second, sn_created = 120 * second, sn_seen = 120 * second,
     sn_idle = 120 * second + 30 * day, sn_absolute = 120 * second + 180 * day, sn_revoked = None,
     sn_ip = ''10.0.0.1'', sn_agent = ''ua''\<rparr>"

definition ex_d2 :: iam_db where
  "ex_d2 = \<lparr>ia_owners = [ex_owner],
     ia_bootstrap = [\<lparr>bt_hash = ''boot'', bt_expires = 168 * hour, bt_consumed = Some (120 * second)\<rparr>],
     ia_setups = [], ia_sessions = [ex_row], ia_keys = [], ia_shares = [],
     ia_audit = [\<lparr>au_type = ''owner.setup'', au_outcome = ''success'', au_ip = ''10.0.0.1'', au_details = [],
       au_created = 120 * second\<rparr>], ia_passkeys = [], ia_ceremonies = []\<rparr>"

lemma ex_iam_trim: "trim_space ''luna'' = ''luna''" "trim_space ''boot'' = ''boot''"
  by (simp_all add: trim_space_graphic graphic_def in_range_def)

lemma ex_lower: "to_lower (il_lower ex_il) ''luna'' = ''luna''"
  by (simp add: to_lower_def char_class_defs)

lemma ex_bootstrap: "ensure_bootstrap ex_il (ex_iam_env 0 ''x'' CHR ''a'') (Some ''boot'') empty_iam = (Returns (), ex_d0)"
  by (simp add: ensure_bootstrap_def ex_iam_trim insert_bootstrap_def empty_iam_def ex_d0_def)

lemma ex_username: "match_username ''luna''"
  by (simp add: match_username_def username_char_def char_class_defs)

lemma ex_begin: "begin_setup ex_il (ex_iam_env (60 * second) ''s1'' CHR ''a'') ''boot'' ''luna'' [] ex_pw ex_d0 = (Returns ex_setup, ex_d1)"
  by (simp add: begin_setup_def Let_def ex_iam_trim ex_username ex_lower ex_hash validate_bootstrap_token_def owner_exists_def
      insert_pending_setup_def ex_d0_def ex_d1_def empty_iam_def ex_setup_def ex_setup_row_def db_time_def ex_key_def)
    (simp add: ex_pw_def)

lemma ex_confirm:
  "\<exists>s. confirm_setup ex_il (ex_iam_env (120 * second) ''o1'' CHR ''b'') ''s1'' ''000000'' ''10.0.0.1'' ''ua'' ex_d1 = (Returns s, ex_d2) \<and>
     se_token s = ex_session_token"
  by (simp add: confirm_setup_def get_pending_setup_def ex_d1_def ex_setup_row_def ex_totp owner_exists_def ex_d0_def empty_iam_def
      create_owner_def ex_username Let_def consume_bootstrap_token_def delete_pending_setup_def create_session_tx_def
      create_session_row_def random_secret_def commit_def audit_def record_audit_def ex_d2_def ex_owner_def ex_row_def
      ex_session_token_def db_time_def)

lemma ex_iam_reach: "iam_reach ex_il ex_sv ex_d0" "iam_steps ex_il ex_sv ex_d0 ex_d2" "iam_reach ex_il ex_sv ex_d2"
proof -
  have 0: "iam_step ex_il ex_sv empty_iam ex_d0"
    using Bootstrap [of ex_il ex_sv UNIV empty_iam "ex_iam_env 0 ''x'' CHR ''a''" "Some ''boot''"] by (simp add: ex_bootstrap)
  have 1: "iam_step ex_il ex_sv ex_d0 ex_d1"
    using Begin_setup [of ex_il ex_sv UNIV ex_d0 "ex_iam_env (60 * second) ''s1'' CHR ''a''" "''boot''" "''luna''" "[]" ex_pw]
    unfolding ex_begin by simp
  obtain s where s: "confirm_setup ex_il (ex_iam_env (120 * second) ''o1'' CHR ''b'') ''s1'' ''000000'' ''10.0.0.1'' ''ua'' ex_d1 = (Returns s, ex_d2)"
    using ex_confirm by blast
  have 2: "iam_step ex_il ex_sv ex_d1 ex_d2"
    using Confirm_setup [of ex_il ex_sv UNIV ex_d1 "ex_iam_env (120 * second) ''o1'' CHR ''b''" "''s1''" "''000000''" "''10.0.0.1''" "''ua''"]
    unfolding s by simp
  show "iam_reach ex_il ex_sv ex_d0" using 0 by blast
  show "iam_steps ex_il ex_sv ex_d0 ex_d2" using 1 2 by (blast intro: rtranclp_trans)
  then show "iam_reach ex_il ex_sv ex_d2" using 0 by (blast intro: converse_rtranclp_into_rtranclp)
qed

theorem single_owner_witness: "length (ia_owners ex_d2) \<le> 1"
  using single_owner [OF ex_iam_reach(1,2)] by simp

text \<open>The session of the set-up: used after a day, and again after forty days.\<close>

definition ex_p :: principal where
  "ex_p = \<lparr>pr_id = ''o1'', pr_username = ''luna'', pr_display = ''luna'', pr_kind = ''human'', pr_session = ''o1''\<rparr>"

definition ex_d3 :: iam_db where "ex_d3 = ex_d2\<lparr>ia_sessions := [touch_session (1 * day) ex_row]\<rparr>"

lemma ex_token_length: "length ex_session_token = 64"
  by (simp add: ex_session_token_def)

lemma ex_live: "session_live t ex_d2 ex_row \<longleftrightarrow> t < 120 * second + 30 * day"
  by (auto simp: session_live_def ex_row_def active_owner_def ex_d2_def ex_owner_def)

lemma ex_authenticate: "authenticate_token ex_il (ex_iam_env (1 * day) ''x'' CHR ''c'') ex_session_token ex_d2 = (Returns ex_p, ex_d3)"
proof -
  have "authenticate_session (1 * day) ex_session_token ex_d2 =
      (Some (''o1'', ''luna'', ''luna'', ''o1''), ex_d3)"
    using ex_live [of "1 * day"]
    by (simp add: authenticate_session_def ex_d3_def) (simp add: ex_d2_def ex_row_def active_owner_def ex_owner_def)
  then show ?thesis by (simp add: authenticate_token_def ex_token_length ex_p_def)
qed

theorem session_window_witness:
  "fst (authenticate_token ex_il (ex_iam_env (40 * day) ''x'' CHR ''c'') ex_session_token ex_d3) = Fails ErrInvalidSession"
proof -
  have "\<not> ie_fails (ex_iam_env (40 * day) ''x'' CHR ''c'') St_auth" by simp
  from session_window [OF ex_iam_reach(3) ex_authenticate this] show ?thesis by auto
qed

definition ex_out :: iam_db where
  "ex_out = snd (logout ex_il (ex_iam_env (2 * day) ''x'' CHR ''c'') ex_session_token ex_d2)"

theorem logout_final_witness:
  "authenticate_token ex_il (ex_iam_env (3 * day) ''x'' CHR ''c'') ex_session_token ex_out = (Fails ErrInvalidSession, ex_out)"
proof -
  have "logout ex_il (ex_iam_env (2 * day) ''x'' CHR ''c'') ex_session_token ex_d2 = (Returns (), ex_out)"
    by (simp add: ex_out_def logout_def)
  moreover have "il_sha256 ex_il ex_session_token \<in> sn_token ` set (ia_sessions ex_d2)"
    by (simp add: ex_d2_def ex_row_def)
  ultimately show ?thesis using logout_final [of ex_il _ ex_session_token ex_d2 ex_out ex_sv ex_out] by blast
qed

text \<open>An API key: created, used for a token, revoked.\<close>

definition ex_key_token :: string where "ex_key_token = ''hh_agent_'' @ hex_encode (replicate 32 CHR ''k'')"

definition ex_api_key :: api_key where
  "ex_api_key = \<lparr>ak_id = ''k1'', ak_owner = ''o1'', ak_name = ''bot'', ak_kind = ''agent'', ak_token = ex_key_token,
     ak_scopes = [''drop.item.create''], ak_expires = None, ak_revoked = None, ak_created = 1000 * second, ak_used = None\<rparr>"

definition ex_d4 :: iam_db where "ex_d4 = ex_d2\<lparr>ia_keys := [ex_api_key]\<rparr>"
definition ex_d5 :: iam_db where "ex_d5 = ex_d2\<lparr>ia_keys := [ex_api_key\<lparr>ak_used := Some (1000 * second)\<rparr>]\<rparr>"

lemma ex_create_key:
  "create_api_key ex_il (ex_iam_env (1000 * second) ''k1'' CHR ''k'') ex_p ''bot'' ''agent'' [''drop.item.create''] None ex_d2 =
     (Returns (''k1'', ex_key_token), ex_d4)"
proof -
  have "trim_space ''bot'' = ''bot''" by (simp add: trim_space_graphic graphic_def in_range_def)
  then show ?thesis
    by (simp add: create_api_key_def Let_def key_scope_ok_def create_api_key_row_def random_secret_def audit_def record_audit_def
        ex_key_token_def ex_d4_def ex_api_key_def ex_p_def) (simp add: ex_d2_def ex_owner_def)
qed

lemma ex_d4_reach: "iam_reach ex_il ex_sv ex_d4"
  using Create_key [of ex_il ex_sv UNIV ex_d2 "ex_iam_env (1000 * second) ''k1'' CHR ''k''" ex_p "''bot''" "''agent''"
      "[''drop.item.create'']" None] ex_iam_reach(3)
  unfolding ex_create_key snd_conv by (rule rtranclp.rtrancl_into_rtrancl [rotated])

lemma ex_key_live: "api_key_live t ex_d4 ex_api_key"
  by (simp add: api_key_live_def ex_api_key_def active_owner_def ex_d4_def ex_d2_def ex_owner_def)

lemma ex_use_key: "authenticate_key (ex_iam_env (1000 * second) ''x'' CHR ''r'') ex_key_token ex_d4 = (Returns ex_api_key, ex_d5)"
proof -
  have tok: "ak_token ex_api_key = ex_key_token" by (simp add: ex_api_key_def)
  have keys: "ia_keys ex_d4 = [ex_api_key]" and d5: "ex_d5 = ex_d4\<lparr>ia_keys := [ex_api_key\<lparr>ak_used := Some (1000 * second)\<rparr>]\<rparr>"
    by (simp_all add: ex_d4_def ex_d5_def)
  have "authenticate_api_key (1000 * second) ex_key_token ex_d4 = (Some ex_api_key, ex_d5)"
    unfolding authenticate_api_key_def Let_def keys d5 using ex_key_live [of "1000 * second"] tok by simp
  then show ?thesis by (simp add: authenticate_key_def)
qed

lemma ex_key_issue: "\<exists>t. issue_api_key_jwt J ex_sv E ex_api_key ''homehub-drop'' = Some t"
proof -
  have "match_issue_audience ''homehub-drop''"
    using ex_audience by (simp add: match_issue_audience_def match_audience_def)
  moreover have "match_principal ''human:o1''"
    by (simp add: match_principal_def has_prefix_def trim_prefix_def match_party_def party_char_def char_class_defs)
  ultimately show ?thesis
    using ex_scopes by (simp add: issue_api_key_jwt_def Let_def response_of_def issue_def key_request_def ex_sv_def ex_api_key_def)
qed

theorem api_key_token_scopes_witness:
  "\<exists>t. issue_api_key_jwt ex_lib ex_sv (ex_iam_env (1000 * second) ''x'' CHR ''r'') ex_api_key ''homehub-drop'' = Some t \<and>
     set (tr_permissions t) = {''drop.item.create''}"
proof -
  obtain t where t: "issue_api_key_jwt ex_lib ex_sv (ex_iam_env (1000 * second) ''x'' CHR ''r'') ex_api_key ''homehub-drop'' = Some t"
    using ex_key_issue by blast
  have "authenticate_key (ex_iam_env (1000 * second) ''x'' CHR ''r'') (il_sha256 ex_il ex_key_token) ex_d4 = (Returns ex_api_key, ex_d5)"
    using ex_use_key by simp
  from api_key_token_scopes [OF ex_iam_reach(3) ex_create_key rtranclp.rtrancl_refl this t] t show ?thesis by auto
qed

theorem key_revocation_final_witness:
  "fst (authenticate_key (ex_iam_env (3 * day) ''x'' CHR ''c'') ex_key_token
     (snd (revoke_api_key ex_il (ex_iam_env (2 * day) ''x'' CHR ''c'') ex_p ''k1'' ex_d4))) \<in> {Fails ErrInvalidAPIKey, Fails ErrOther}"
proof -
  let ?d = "snd (revoke_api_key ex_il (ex_iam_env (2 * day) ''x'' CHR ''c'') ex_p ''k1'' ex_d4)"
  have r: "revoke_api_key ex_il (ex_iam_env (2 * day) ''x'' CHR ''c'') ex_p ''k1'' ex_d4 = (Returns True, ?d)"
    by (simp add: revoke_api_key_def revoke_api_key_row_def Let_def ex_d4_def ex_api_key_def ex_p_def)
  have k: "ex_api_key \<in> set (ia_keys ex_d4)" "ak_id ex_api_key = ''k1''" "ak_token ex_api_key = ex_key_token"
    by (simp_all add: ex_d4_def ex_api_key_def)
  from key_revocation_final [OF ex_d4_reach r k(1,2) rtranclp.rtrancl_refl] show ?thesis by (simp only: k(3))
qed

section \<open>Logging in\<close>

theorem totp_window_witness: "validate_totp ex_il (b32_encode ex_key) (hotp ex_il ex_key (totp_counter (60 * second))) (89 * second)"
  using totp_window [of "60 * second" "89 * second" ex_il ex_key] by simp

theorem password_roundtrip_witness:
  "verify_password ex_il ex_pw (ex_hash ex_pw) = Some True \<and> verify_password ex_il ''guess'' (ex_hash ex_pw) = Some False"
  using password_roundtrip [OF ex_laws_iam(1), of ex_pw "replicate 16 CHR ''a''" ex_pw]
    password_roundtrip [OF ex_laws_iam(1), of ex_pw "replicate 16 CHR ''a''" "''guess''"]
  by (auto simp: ex_hash) (simp add: ex_pw_def)

lemma ex_verify_pw: "verify_password ex_il pw (ex_hash ex_pw) =
    Some (il_argon ex_il pw (replicate 16 CHR ''a'') 3 65536 2 32 = il_argon ex_il ex_pw (replicate 16 CHR ''a'') 3 65536 2 32)"
  by (rule verify_hash_password [OF ex_hash ex_laws_iam(1)])

lemma ex_wrong: "verify_password ex_il ''guess'' (ex_hash ex_pw) = Some False"
  unfolding ex_verify_pw by (simp add: ex_pw_def)

lemma ex_found: "get_owner_by_username ''luna'' ex_d2 = Some ex_owner"
  by (simp add: get_owner_by_username_def ex_d2_def ex_owner_def)

abbreviation ex_login_env :: iam_env where "ex_login_env \<equiv> ex_iam_env (200 * second) ''s2'' CHR ''d''"

lemma ex_healthy: "healthy ex_il ex_login_env ''10.0.0.2'' ex_d2"
proof -
  have "hex_encode (replicate 32 CHR ''d'') \<noteq> hex_encode (replicate 32 CHR ''b'')"
    using hex_encode_inj [of "replicate 32 CHR ''d''" "replicate 32 CHR ''b''"] by auto
  then show ?thesis
    by (simp add: healthy_def random_secret_def) (simp add: ex_d2_def ex_row_def ex_session_token_def)
qed

lemma ex_seen: "failures_seen ex_il ex_login_env ''luna'' ''10.0.0.2'' ex_d2 = 0"
  by (simp add: failures_seen_def login_failures_def Let_def ex_d2_def)

lemma ex_good: "credentials_good ex_il ex_login_env ''luna'' ex_pw ''000000'' ex_d2"
  by (simp add: credentials_good_def ex_found ex_owner_def ex_verify_pw ex_totp)

lemma ex_dummy: "hash_password ex_il ''dummy'' (replicate 16 CHR ''a'') = Some (sv_dummy ex_sv)"
  by (simp add: ex_sv_def ex_hash)

lemma ex_owner_name: "''luna'' = to_lower (il_lower ex_il) (trim_space ''luna'')"
  by (simp only: ex_iam_trim ex_lower)


theorem setup_then_login_witness:
  "\<exists>s d4. login ex_il ex_sv ex_login_env ''luna'' ex_pw ''000000'' ''10.0.0.2'' ''ua'' ex_d2 = (Returns s, d4)"
proof -
  obtain s where confirmed:
    "confirm_setup ex_il (ex_iam_env (120 * second) ''o1'' CHR ''b'') (st_id ex_setup) ''000000'' ''10.0.0.1'' ''ua'' ex_d1 = (Returns s, ex_d2)"
    using ex_confirm by (auto simp: ex_setup_def)
  have seen: "failures_seen ex_il ex_login_env (to_lower (il_lower ex_il) (trim_space ''luna'')) ''10.0.0.2'' ex_d2 < 5"
    unfolding ex_iam_trim ex_lower ex_seen by simp
  have code: "validate_totp ex_il (st_secret ex_setup) ''000000'' (ie_now ex_login_env)"
    by (simp add: ex_setup_def ex_totp)
  from setup_then_login [OF ex_iam_reach(1) ex_laws_iam(1,2) ex_dummy ex_begin confirmed rtranclp.rtrancl_refl ex_healthy seen code]
  show ?thesis by blast
qed

lemma ex_denied:
  "fst (login ex_il ex_sv ex_login_env ''luna'' ''guess'' ''000000'' ''10.0.0.2'' ''ua'' ex_d2) = Fails ErrInvalidCredentials"
proof -
  have "login_failures (il_inet ex_il) (ie_db ex_login_env) (hex_encode (il_sha256 ex_il ''luna'')) ''10.0.0.2'' ex_d2 = Some 0"
    by (simp add: login_failures_def Let_def ex_d2_def)
  moreover have "ow_password ex_owner = ex_hash ex_pw" by (simp add: ex_owner_def)
  ultimately show ?thesis
    by (simp only: login_def Let_def ex_iam_trim ex_lower ex_iam_env_simps if_False option.case ex_found ex_wrong) simp
qed


theorem unaddressed_audit_lost_witness:
  "ia_audit (snd (create_api_key ex_il (ex_iam_env (1000 * second) ''k1'' CHR ''k'') ex_p ''bot'' ''agent'' [''drop.item.create''] None ex_d2))
     = ia_audit ex_d2"
proof -
  have "il_inet ex_il [] = None" by simp
  from unaddressed_audit_lost [OF this] show ?thesis by blast
qed

section \<open>At the edge\<close>

definition ex_server :: iam_server where
  "ex_server = \<lparr>ws_version = ''1'', ws_jwks = None, ws_humans = Some ex_sv, ws_origins = [''https://home.example''], ws_secure = True\<rparr>"

definition ex_edge_request :: request where
  "ex_edge_request = empty_request\<lparr>header := (\<lambda>k. if k = ''Authorization'' then ''Bearer '' @ ex_key_token
     else if k = ''X-HomeHub-Audience'' then ''homehub-drop'' else [])\<rparr>"

abbreviation ex_edge_env :: iam_env where "ex_edge_env \<equiv> ex_iam_env (1000 * second) ''x'' CHR ''r''"


theorem cookie_guard_witness:
  "\<exists>resp. iam_handle ex_il ex_lib ex_server ex_login_env empty_request Delete_sessions ex_d2 = (Some resp, ex_d2) \<and> status resp = 403"
proof -
  have "\<not> same_site ex_il ex_server ex_login_env empty_request ex_d2" by (simp add: same_site_def empty_request_def)
  moreover have "ws_humans ex_server = Some ex_sv" by (simp add: ex_server_def)
  ultimately show ?thesis using cookie_guard [of Delete_sessions] by simp
qed

lemma ex_key_graphic: "ex_key_token \<noteq> []" "list_all graphic ex_key_token" "has_key_prefix ex_key_token"
proof -
  have "list_all graphic (hex_encode (replicate n CHR ''k''))" for n
    by (induction n) (auto simp: hex_encode_def hex_digit_def graphic_def in_range_def)
  then show "ex_key_token \<noteq> []" "list_all graphic ex_key_token" "has_key_prefix ex_key_token"
    by (simp_all add: ex_key_token_def graphic_def in_range_def has_key_prefix_def has_prefix_def)
qed

lemma ex_edge: "\<exists>resp t. edge_authorize ex_il J ex_server ex_edge_env E' ex_edge_request ex_d4 = (Some resp, ex_d5) \<and> status resp = 204 \<and>
    issue_api_key_jwt J ex_sv ex_edge_env ex_api_key ''homehub-drop'' = Some t \<and>
    response_header resp ''Authorization'' = Some (''Bearer '' @ tr_access t)"
proof -
  have bearer: "bearer_token ex_edge_request = Inr ex_key_token"
    using ex_key_graphic(1,2) by (intro bearer_token_graphic) (simp_all add: ex_edge_request_def)
  have aud: "trim_space (header ex_edge_request ''X-HomeHub-Audience'') = ''homehub-drop''"
    by (simp add: ex_edge_request_def trim_space_graphic graphic_def in_range_def)
  have meth: "to_upper u (trim_space (header ex_edge_request ''X-Forwarded-Method'')) = []" for u
    by (simp add: ex_edge_request_def empty_request_def to_upper_def)
  obtain t where t: "issue_api_key_jwt J ex_sv ex_edge_env ex_api_key ''homehub-drop'' = Some t" using ex_key_issue by blast
  have W: "ws_humans ex_server = Some ex_sv" by (simp add: ex_server_def)
  have "edge_authorize ex_il J ex_server ex_edge_env E' ex_edge_request ex_d4 = edge_ok (ak_owner ex_api_key) t ex_d5"
    unfolding edge_authorize_def W option.case Let_def aud meth bearer sum.case ex_il_simps(1) ex_use_key prod.case outcome.case t
    using ex_key_graphic(1,3) by simp
  with t show ?thesis by (simp add: edge_ok_def no_content_def response_header_def)
qed


definition ex_edge_claims :: claims where
  "ex_edge_claims = build_claims ex_signer (1000 * second) (replicate 16 CHR ''r'')
     (key_request (1000 * second) ''homehub-drop'' ex_api_key) [''drop.item.create'']"

definition ex_edge_lib :: jwt_lib where
  "ex_edge_lib = ex_lib\<lparr>lib_claims := (\<lambda>s. if s = ''c'' then Some ex_edge_claims else None)\<rparr>"

lemma ex_edge_issue:
  assumes "issue ex_edge_lib (Some ex_signer) (ie_now ex_edge_env) (ie_rnd ex_edge_env 0 16)
      (key_request (ie_now ex_edge_env) ''homehub-drop'' ex_api_key) = Inr (t, c)"
  shows "c = ex_edge_claims \<and> length t \<le> 200"
  using assms
proof (elim issue_InrE)
  fix sg permissions
  assume sg: "Some ex_signer = Some sg"
    and ps: "collect_scopes [] (rq_permissions (key_request (ie_now ex_edge_env) ''homehub-drop'' ex_api_key)) = Inr permissions"
    and c: "c = build_claims sg (ie_now ex_edge_env) (ie_rnd ex_edge_env 0 16) (key_request (ie_now ex_edge_env) ''homehub-drop'' ex_api_key) permissions"
    and t: "t = (let unsigned = b64_encode Url (lib_put_header ex_edge_lib (token_header sg)) @ ''.'' @
                           b64_encode Url (lib_put_claims ex_edge_lib c)
            in unsigned @ ''.'' @ b64_encode Url (lib_sign ex_edge_lib (sg_key sg) unsigned))"
  have "permissions = [''drop.item.create'']" using ps ex_scopes by (simp add: key_request_def ex_api_key_def)
  moreover have "length t \<le> 200"
    unfolding t by (simp add: Let_def length_b64_encode ex_edge_lib_def ex_lib_def ex_digest_def)
  ultimately show ?thesis using sg by (simp add: c ex_edge_claims_def)
qed


end
