(* ===== verification/Iam_Passkeys.thy ===== *)
theory Iam_Passkeys
  imports Iam_Login
begin

text \<open>
  What a passkey is worth: which passkeys and ceremonies there are, whatever was done; that a
  login needs a stored passkey, an owner, and an assertion the library verified; that a
  ceremony serves one attempt; that a deleted passkey opens nothing; and that a registered one
  does.
\<close>

section \<open>The tables of passkeys\<close>

text \<open>What the operations may not add does not appear.\<close>

lemma step_keeps_out:
  assumes "store_step L K d d'"
  shows "Ceremony_of h \<notin> K \<Longrightarrow> c \<in> set (ia_ceremonies d') \<Longrightarrow> ce_token c = h \<Longrightarrow> c \<in> set (ia_ceremonies d)"
    and "Passkey_of i \<notin> K \<Longrightarrow> i \<in> wk_id ` set (ia_passkeys d') \<Longrightarrow> i \<in> wk_id ` set (ia_passkeys d)"
proof -
  show "c \<in> set (ia_ceremonies d)" if "Ceremony_of h \<notin> K" "c \<in> set (ia_ceremonies d')" "ce_token c = h"
    using assms
  proof cases
    case (W_ceremony c')
    then show ?thesis using insert_ceremony_frame [OF W_ceremony(2)] that by auto
  qed (use that in \<open>auto simp: passkey_frame sweep_ceremonies_def take_ceremony_def dest: passkey_frames\<close>)
  show "i \<in> wk_id ` set (ia_passkeys d)" if "Passkey_of i \<notin> K" "i \<in> wk_id ` set (ia_passkeys d')"
    using assms
  proof cases
    case (W_passkey k)
    then show ?thesis using insert_passkey_frame [OF W_passkey(3)] that by auto
  next
    case (W_use_passkey c encoded t nonce oid)
    have "map wk_id (ia_passkeys d') = map wk_id (ia_passkeys d)"
      unfolding W_use_passkey(1) update_passkey_def Let_def by simp
    then show ?thesis using that(2) by (metis list.set_map)
  next
    case (W_delete_passkey cid oid)
    then show ?thesis using that(2) by (auto simp: delete_passkey_row_def Let_def)
  qed (use that in \<open>auto simp: passkey_frame dest: passkey_frames\<close>)
qed

lemma steps_keep_out:
  assumes "store_steps L K d d'"
  shows "Ceremony_of h \<notin> K \<Longrightarrow> c \<in> set (ia_ceremonies d') \<Longrightarrow> ce_token c = h \<Longrightarrow> c \<in> set (ia_ceremonies d)"
    and "Passkey_of i \<notin> K \<Longrightarrow> i \<in> wk_id ` set (ia_passkeys d') \<Longrightarrow> i \<in> wk_id ` set (ia_passkeys d)"
proof -
  show "c \<in> set (ia_ceremonies d)" if "Ceremony_of h \<notin> K" "c \<in> set (ia_ceremonies d')" "ce_token c = h"
    using assms that by (induction rule: rtranclp_induct) (auto dest: step_keeps_out(1))
  show "i \<in> wk_id ` set (ia_passkeys d)" if "Passkey_of i \<notin> K" "i \<in> wk_id ` set (ia_passkeys d')"
    using assms that by (induction rule: rtranclp_induct) (auto dest: step_keeps_out(2))
qed

text \<open>A passkey belongs to the owner.\<close>

definition passkeys_owned :: "iam_db \<Rightarrow> bool" where
  "passkeys_owned d \<longleftrightarrow> list_all (\<lambda>k. wk_owner k \<in> ow_id ` set (ia_owners d)) (ia_passkeys d)"

lemma step_passkeys_owned:
  assumes "store_step L K d d'" and "passkeys_owned d"
  shows "passkeys_owned d'"
proof -
  have owners: "ow_id ` set (ia_owners d) \<subseteq> ow_id ` set (ia_owners d')"
    using step_owners [OF assms(1)] by auto
  have "wk_owner k \<in> ow_id ` set (ia_owners d)" if "k \<in> set (ia_passkeys d')" for k
    using assms(1)
  proof cases
    case (W_passkey k')
    then have "wk_owner k' \<in> ow_id ` set (ia_owners d)" by (simp add: insert_passkey_def split: if_splits)
    then show ?thesis using insert_passkey_frame [OF W_passkey(3)] that assms(2) by (auto simp: passkeys_owned_def list_all_iff)
  next
    case (W_use_passkey c encoded t nonce oid)
    have "map wk_owner (ia_passkeys d') = map wk_owner (ia_passkeys d)"
      unfolding W_use_passkey(1) update_passkey_def Let_def by simp
    then have "wk_owner k \<in> wk_owner ` set (ia_passkeys d)" using that by (metis imageI list.set_map)
    then show ?thesis using assms(2) by (auto simp: passkeys_owned_def list_all_iff)
  next
    case (W_delete_passkey cid oid)
    then show ?thesis using that assms(2) by (auto simp: delete_passkey_row_def Let_def passkeys_owned_def list_all_iff)
  qed (use that assms(2) in \<open>auto simp: passkey_frame passkeys_owned_def list_all_iff dest: passkey_frames\<close>)
  with owners show ?thesis by (auto simp: passkeys_owned_def list_all_iff)
qed

lemma reach_owned:
  assumes "iam_reach L S d"
  shows "passkeys_owned d"
  using iam_steps_store [OF assms]
proof (induction rule: rtranclp_induct)
  case base
  then show ?case by (simp add: passkeys_owned_def empty_iam_def)
qed (rule step_passkeys_owned)

text \<open>The JSON texts of the library's types are read back.\<close>

definition passkey_laws :: "iam_lib \<Rightarrow> bool" where
  "passkey_laws L \<longleftrightarrow> seal_law L \<and> (\<forall>c s. il_credential_text L c = Some s \<longrightarrow> il_credential_of L s = Some c) \<and>
     (\<forall>x s. il_session_text L x = Some s \<longrightarrow> il_session_of L s = Some x)"

lemma read_passkey_ok: "passkey_laws L \<Longrightarrow> passkey_ok L k \<Longrightarrow> \<exists>c. read_passkey L k = Some c \<and> wc_id c = wk_id k"
  by (auto simp: passkey_laws_def passkey_ok_def read_passkey_def seal_law_def)

lemma all_some_SomeD: "all_some (map f xs) = Some ys \<Longrightarrow> y \<in> set ys \<Longrightarrow> \<exists>x \<in> set xs. f x = Some y"
proof (induction xs arbitrary: ys)
  case (Cons x xs)
  then show ?case by (cases "f x") auto
qed simp

lemma load_user_Returns:
  assumes "load_webauthn_user L E oid d = Returns u"
  obtains o' where "il_uuid L oid = Some (ow_id o')" "o' \<in> set (ia_owners d)" "ow_active o'"
    "wu_principal u = \<lparr>pr_id = ow_id o', pr_username = ow_username o', pr_display = ow_display o', pr_kind = ''human'', pr_session = []\<rparr>"
    "all_some (map (read_passkey L) (filter (\<lambda>k. wk_owner k = ow_id o') (ia_passkeys d))) = Some (wu_credentials u)"
proof -
  obtain uid o' where *: "il_uuid L oid = Some uid" "active_owner uid d = Some o'"
    "all_some (map (read_passkey L) (filter (\<lambda>k. wk_owner k = ow_id o') (ia_passkeys d))) = Some (wu_credentials u)"
    "wu_principal u = \<lparr>pr_id = ow_id o', pr_username = ow_username o', pr_display = ow_display o', pr_kind = ''human'', pr_session = []\<rparr>"
    using assms unfolding load_webauthn_user_def by (auto split: if_splits option.splits)
  from find_Some_mem [OF *(2) [unfolded active_owner_def]] * show thesis by (intro that [of o']) auto
qed

section \<open>What a login shows\<close>

lemma select_user_Some:
  "select_user L E raw_id handle d = Some u \<Longrightarrow> load_webauthn_user L E handle d = Returns u \<and> (\<exists>c \<in> set (wu_credentials u). wc_id c = raw_id)"
  by (auto simp: select_user_def list_ex_iff split: outcome.split_asm if_split_asm)

lemma check_assertion_SomeE:
  assumes "check_assertion L w E sd raw d = Some (u, c)"
  obtains raw_id handle where "wa_assertion w sd raw = Some (raw_id, handle)" "load_webauthn_user L E handle d = Returns u"
    "\<exists>c0 \<in> set (wu_credentials u). wc_id c0 = raw_id" "wa_verify_login w (ie_now E) (account_of u) sd raw = Some c"
  using assms select_user_Some by (fastforce simp: check_assertion_def bind_eq_Some_conv)

lemma passkey_session_Returns:
  assumes "passkey_session L E u c ip agent d = (Returns s, d')"
  obtains d1 d2 nonce encoded where
    "update_passkey (ie_db E) (wc_id c) (il_seal L nonce encoded) nonce (pr_id (wu_principal u)) d = (1, d1)"
    "create_session_tx L E (pr_id (wu_principal u)) (pr_username (wu_principal u)) (pr_display (wu_principal u)) ''human''
       [''passkey''] ip agent d1 = Some (s, d2)"
    "d' = audit L E ''passkey.login'' ''success'' ip [] d2"
proof -
  have commit: "x = s' \<and> d2 = d3" if "commit E x d d2 = (Returns s', d3)" for x s' :: session and d2 d3
    using that by (simp add: commit_def split: if_splits)
  show thesis
    using assms unfolding passkey_session_def Let_def
    by (auto split: option.splits if_splits prod.splits outcome.splits dest!: commit intro: that)
qed

lemma finish_login_Returns:
  assumes "finish_passkey_login L S E tok ip agent raw d = (Returns s, d')"
  obtains w sd d1 u c where "sv_passkeys S = Some w" "take_passkey_ceremony L E ''login'' [] tok d = (Returns sd, d1)"
    "check_assertion L w E sd raw d1 = Some (u, c)" "passkey_session L E u c ip agent d1 = (Returns s, d')"
  using assms unfolding finish_passkey_login_def
  by (auto split: option.splits prod.splits outcome.splits)

lemma take_ceremony_Returns:
  assumes "take_passkey_ceremony L E kind oid tok d = (Returns sd, d1)"
  obtains ce where "ce \<in> set (ia_ceremonies d)" "ceremony_live (ie_db E) kind oid (il_sha256 L tok) ce" "32 \<le> length tok"
    "Option.bind (il_open L (ce_nonce ce) (ce_cipher ce)) (il_session_of L) = Some sd"
    "d1 = snd (take_ceremony (ie_db E) kind oid (il_sha256 L tok) d)"
proof -
  from assms obtain ce where "32 \<le> length tok" "List.find (ceremony_live (ie_db E) kind oid (il_sha256 L tok)) (ia_ceremonies d) = Some ce"
      "Option.bind (il_open L (ce_nonce ce) (ce_cipher ce)) (il_session_of L) = Some sd"
      "d1 = snd (take_ceremony (ie_db E) kind oid (il_sha256 L tok) d)"
    unfolding take_passkey_ceremony_def take_ceremony_def
    by (auto split: if_splits option.splits)
  then show thesis using find_Some_mem that by metis
qed

lemma audit_sessions [simp]: "ia_sessions (audit L E ty r ip ds d) = ia_sessions d"
  by (simp add: audit_def)

lemma passkey_session_row:
  assumes "passkey_session L E u c ip agent d = (Returns s, d')"
  obtains row where "ia_sessions d' = ia_sessions d @ [row]" "sn_owner row = pr_id (wu_principal u)"
    "sn_token row = il_sha256 L (se_token s)" "sn_methods row = [''passkey'']" "pr_id (se_principal s) = pr_id (wu_principal u)"
    "pr_kind (se_principal s) = ''human''" "wc_id c \<in> wk_id ` set (ia_passkeys d)"
proof -
  let ?p = "wu_principal u"
  obtain d2 d3 nonce encoded where
    upd: "update_passkey (ie_db E) (wc_id c) (il_seal L nonce encoded) nonce (pr_id ?p) d = (1, d2)"
    and tx: "create_session_tx L E (pr_id ?p) (pr_username ?p) (pr_display ?p) ''human'' [''passkey''] ip agent d2 = Some (s, d3)"
    and d': "d' = audit L E ''passkey.login'' ''success'' ip [] d3"
    using assms by (rule passkey_session_Returns)
  have "filter (\<lambda>k. wk_id k = wc_id c \<and> wk_owner k = pr_id ?p) (ia_passkeys d) \<noteq> []"
    using upd by (auto simp: update_passkey_def Let_def)
  then have cid: "wc_id c \<in> wk_id ` set (ia_passkeys d)" by (auto simp: filter_empty_conv intro: rev_image_eqI)
  have sessions: "ia_sessions d2 = ia_sessions d"
    using arg_cong [OF upd, of "\<lambda>x. ia_sessions (snd x)"] by simp
  show thesis
    using tx
  proof (rule create_session_txE)
    assume r: "create_session_row (il_inet L) (ie_db E) (ie_id E) (pr_id ?p) (il_sha256 L (random_secret E 0 32))
        (il_sha256 L (random_secret E 1 32)) [''passkey''] (ie_now E) session_idle_ttl session_absolute_ttl ip (il_sha256 L agent) d2 = Some d3"
      and s: "s = \<lparr>se_principal = \<lparr>pr_id = pr_id ?p, pr_username = pr_username ?p, pr_display = pr_display ?p,
          pr_kind = ''human'', pr_session = []\<rparr>, se_token = random_secret E 0 32, se_csrf = random_secret E 1 32\<rparr>"
    show thesis using create_session_frame(1) [OF r] sessions cid by (auto simp: s d' intro: that)
  qed
qed

lemma login_facts:
  assumes "finish_passkey_login L S E tok ip agent raw d = (Returns s, d')"
  shows "\<exists>w ce sd raw_id handle o' u c k row. sv_passkeys S = Some w \<and>
    ce \<in> set (ia_ceremonies d) \<and> ceremony_live (ie_db E) ''login'' [] (il_sha256 L tok) ce \<and>
    Option.bind (il_open L (ce_nonce ce) (ce_cipher ce)) (il_session_of L) = Some sd \<and>
    wa_assertion w sd raw = Some (raw_id, handle) \<and>
    o' \<in> set (ia_owners d) \<and> ow_active o' \<and> il_uuid L handle = Some (ow_id o') \<and> wa_id (account_of u) = ow_id o' \<and>
    k \<in> set (ia_passkeys d) \<and> wk_owner k = ow_id o' \<and> map_option wc_id (read_passkey L k) = Some raw_id \<and>
    wa_verify_login w (ie_now E) (account_of u) sd raw = Some c \<and> wc_id c \<in> wk_id ` set (ia_passkeys d) \<and>
    pr_id (se_principal s) = ow_id o' \<and> pr_kind (se_principal s) = ''human'' \<and>
    ia_sessions d' = ia_sessions d @ [row] \<and> sn_owner row = ow_id o' \<and> sn_token row = il_sha256 L (se_token s) \<and>
    sn_methods row = [''passkey'']"
proof -
  obtain w sd d1 u c where w: "sv_passkeys S = Some w" and take: "take_passkey_ceremony L E ''login'' [] tok d = (Returns sd, d1)"
    and check: "check_assertion L w E sd raw d1 = Some (u, c)" and sess: "passkey_session L E u c ip agent d1 = (Returns s, d')"
    using assms by (rule finish_login_Returns)
  obtain ce where ce: "ce \<in> set (ia_ceremonies d)" "ceremony_live (ie_db E) ''login'' [] (il_sha256 L tok) ce"
      "Option.bind (il_open L (ce_nonce ce) (ce_cipher ce)) (il_session_of L) = Some sd"
    and d1: "d1 = snd (take_ceremony (ie_db E) ''login'' [] (il_sha256 L tok) d)"
    using take by (rule take_ceremony_Returns)
  have same: "ia_passkeys d1 = ia_passkeys d" "ia_owners d1 = ia_owners d" "ia_sessions d1 = ia_sessions d"
    unfolding d1 by simp_all
  obtain raw_id handle where a: "wa_assertion w sd raw = Some (raw_id, handle)" and load: "load_webauthn_user L E handle d1 = Returns u"
    and c0: "\<exists>c0 \<in> set (wu_credentials u). wc_id c0 = raw_id" and v: "wa_verify_login w (ie_now E) (account_of u) sd raw = Some c"
    using check by (rule check_assertion_SomeE)
  obtain o' where o': "il_uuid L handle = Some (ow_id o')" "o' \<in> set (ia_owners d)" "ow_active o'"
    and u: "wu_principal u = \<lparr>pr_id = ow_id o', pr_username = ow_username o', pr_display = ow_display o', pr_kind = ''human'', pr_session = []\<rparr>"
    and cs: "all_some (map (read_passkey L) (filter (\<lambda>k. wk_owner k = ow_id o') (ia_passkeys d))) = Some (wu_credentials u)"
    using load unfolding same by (elim load_user_Returns) (simp add: same)
  have "\<exists>k \<in> set (ia_passkeys d). wk_owner k = ow_id o' \<and> map_option wc_id (read_passkey L k) = Some raw_id"
    using c0 all_some_SomeD [OF cs] by force
  moreover have "wa_id (account_of u) = ow_id o'" by (simp add: account_of_def u)
  moreover obtain row where "ia_sessions d' = ia_sessions d @ [row]" "sn_owner row = ow_id o'" "sn_token row = il_sha256 L (se_token s)"
      "sn_methods row = [''passkey'']" "pr_id (se_principal s) = ow_id o'" "pr_kind (se_principal s) = ''human''"
      "wc_id c \<in> wk_id ` set (ia_passkeys d)"
    using passkey_session_row [OF sess] unfolding same u by auto
  ultimately show ?thesis using w ce a o' v by (elim bexE conjE) (intro exI conjI; assumption)
qed


section \<open>One attempt per ceremony\<close>

lemma take_passkey_ceremony_none:
  assumes "\<forall>c \<in> set (ia_ceremonies d). ce_token c \<noteq> il_sha256 L tok"
  shows "\<exists>e. e \<in> {ErrPasskey, ErrOther} \<and> take_passkey_ceremony L E kind oid tok d = (Fails e, d)"
proof -
  let ?live = "ceremony_live (ie_db E) kind oid (il_sha256 L tok)"
  have "\<not> ?live c" if "c \<in> set (ia_ceremonies d)" for c using assms that by (auto simp: ceremony_live_def)
  then have "List.find ?live (ia_ceremonies d) = None" "filter (\<lambda>c. \<not> ?live c) (ia_ceremonies d) = ia_ceremonies d"
    by (auto simp: find_None_iff intro: filter_True)
  then show ?thesis by (simp add: take_passkey_ceremony_def take_ceremony_def)
qed

lemma take_passkey_ceremony_takes:
  assumes "passkeys_ok L d" and "take_passkey_ceremony L E kind oid tok d = (Returns sd, d1)"
  shows "\<forall>c \<in> set (ia_ceremonies d1). ce_token c \<noteq> il_sha256 L tok"
proof -
  obtain ce where ce: "ce \<in> set (ia_ceremonies d)" "ceremony_live (ie_db E) kind oid (il_sha256 L tok) ce"
    and d1: "d1 = snd (take_ceremony (ie_db E) kind oid (il_sha256 L tok) d)"
    using assms(2) by (rule take_ceremony_Returns)
  have "c = ce" if "c \<in> set (ia_ceremonies d)" "ce_token c = il_sha256 L tok" for c
    using distinct_map_inj [of ce_token "ia_ceremonies d" c ce] assms(1) that ce by (simp add: passkeys_ok_def ceremony_live_def)
  then show ?thesis using ce(2) by (auto simp: d1 take_ceremony_def)
qed

lemma finish_login_takes:
  assumes "passkeys_ok L d" and "finish_passkey_login L S E tok ip agent raw d = (x, d1)"
    and "x \<noteq> Fails ErrPasskey" "x \<noteq> Fails ErrOther"
  shows "\<forall>c \<in> set (ia_ceremonies d1). ce_token c \<noteq> il_sha256 L tok"
proof -
  obtain w where w: "sv_passkeys S = Some w" using assms(2,3) by (cases "sv_passkeys S") (auto simp: finish_passkey_login_def)
  obtain y d' where y: "take_passkey_ceremony L E ''login'' [] tok d = (y, d')" by fastforce
  have "\<exists>sd. y = Returns sd"
    using assms(2-4) y unfolding finish_passkey_login_def w take_passkey_ceremony_def
    by (auto split: if_splits option.splits prod.splits)
  then obtain sd where sd: "y = Returns sd" ..
  have none: "\<forall>c \<in> set (ia_ceremonies d'). ce_token c \<noteq> il_sha256 L tok"
    by (rule take_passkey_ceremony_takes [OF assms(1) y [unfolded sd]])
  have "store_steps L {} d' d1"
    using assms(2) passkey_session_steps [of L "{}" d' E _ _ ip agent] unfolding finish_passkey_login_def w option.case y sd
    by (auto split: option.splits prod.splits intro: steps_audit) (metis snd_conv)
  then show ?thesis using none steps_keep_out(1) [of L "{}" d' d1] by blast
qed

text \<open>
  C15. A ceremony serves one attempt, successful or not: once an assertion was looked at, no later
  request with the same token logs in or registers a passkey, unless a new ceremony was begun
  that drew the same random token.
\<close>

theorem passkey_ceremony_once:
  assumes "iam_reach L S d" and "finish_passkey_login L S E tok ip agent raw d = (x, d1)"
    and "x \<noteq> Fails ErrPasskey" "x \<noteq> Fails ErrOther"
    and "adding_steps L S (- {Ceremony_of (il_sha256 L tok)}) d1 d2"
  shows "(\<exists>e. finish_passkey_login L S E' tok ip' agent' raw' d2 = (Fails e, d2)) \<and>
    (\<exists>e. finish_passkey_registration L S E' p tok name raw' d2 = (Fails e, d2))"
proof -
  have "passkeys_ok L d" using reach_inv [OF assms(1)] by (simp add: iam_inv_def)
  from finish_login_takes [OF this assms(2-4)] have "\<forall>c \<in> set (ia_ceremonies d1). ce_token c \<noteq> il_sha256 L tok" .
  then have none: "\<forall>c \<in> set (ia_ceremonies d2). ce_token c \<noteq> il_sha256 L tok"
    using steps_keep_out(1) [OF adding_steps_store [OF assms(5)]] by blast
  obtain e e' where "take_passkey_ceremony L E' ''login'' [] tok d2 = (Fails e, d2)"
      "take_passkey_ceremony L E' ''registration'' (pr_id p) tok d2 = (Fails e', d2)"
    using take_passkey_ceremony_none [OF none] by metis
  then show ?thesis
    by (simp add: finish_passkey_login_def finish_passkey_registration_def split: option.split)
qed

section \<open>A deleted passkey\<close>

lemma delete_passkey_deletes:
  assumes "passkeys_ok L d" and "delete_passkey L E p (b64_encode Url cid) d = (Returns True, d1)"
  shows "cid \<notin> wk_id ` set (ia_passkeys d1)"
proof -
  let ?P = "\<lambda>k. wk_id k = cid \<and> wk_owner k = pr_id p"
  have d1: "ia_passkeys d1 = filter (\<lambda>k. \<not> ?P k) (ia_passkeys d)" and one: "length (filter ?P (ia_passkeys d)) = 1"
    using assms(2) by (auto simp: delete_passkey_def b64_roundtrip delete_passkey_row_def Let_def audit_def passkey_frame split: if_splits)
  from one have "filter ?P (ia_passkeys d) \<noteq> []" by auto
  then obtain k where k: "k \<in> set (ia_passkeys d)" "?P k" by (auto simp: filter_empty_conv)
  have "?P k'" if "k' \<in> set (ia_passkeys d)" "wk_id k' = cid" for k'
    using distinct_map_inj [of wk_id "ia_passkeys d" k' k] assms(1) that k by (simp add: passkeys_ok_def)
  then show ?thesis by (auto simp: d1)
qed

text \<open>
  C18. A passkey that was deleted opens no session any more: whatever happens afterwards, a login
  with an assertion that names it is refused, unless it was registered again.
\<close>

theorem passkey_deletion_final:
  assumes "iam_reach L S d" and "passkey_laws L" and "delete_passkey L E p (b64_encode Url cid) d = (Returns True, d1)"
    and "adding_steps L S (- {Passkey_of cid}) d1 d2"
    and names: "\<forall>w sd raw_id handle. sv_passkeys S = Some w \<longrightarrow> wa_assertion w sd raw = Some (raw_id, handle) \<longrightarrow> raw_id = cid"
  shows "fst (finish_passkey_login L S E' tok ip agent raw d2) \<noteq> Returns s"
proof
  assume "fst (finish_passkey_login L S E' tok ip agent raw d2) = Returns s"
  then obtain d3 where "finish_passkey_login L S E' tok ip agent raw d2 = (Returns s, d3)" by (metis prod.collapse)
  from login_facts [OF this] obtain w sd raw_id handle k where
    a: "sv_passkeys S = Some w" "wa_assertion w sd raw = Some (raw_id, handle)"
    and k: "k \<in> set (ia_passkeys d2)" "map_option wc_id (read_passkey L k) = Some raw_id"
    by blast
  have d1: "d1 = snd (delete_passkey L E p (b64_encode Url cid) d)" using assms(3) by simp
  have "iam_reach L S d1" unfolding d1 by (rule rtranclp.rtrancl_into_rtrancl [OF assms(1) iam_adding.Delete_passkey])
  then have "iam_reach L S d2" using adding_steps [OF assms(4)] by (rule rtranclp_trans)
  then have "passkey_ok L k" using reach_inv k(1) by (auto simp: iam_inv_def passkeys_ok_def list_all_iff)
  then have "wk_id k = raw_id" using read_passkey_ok [OF assms(2), of k] k(2) by auto
  then have "cid \<in> wk_id ` set (ia_passkeys d2)" using k(1) names a by auto
  moreover have "passkeys_ok L d" using reach_inv [OF assms(1)] by (simp add: iam_inv_def)
  ultimately show False
    using delete_passkey_deletes [OF _ assms(3)] steps_keep_out(2) [OF adding_steps_store [OF assms(4)], of cid] by blast
qed

section \<open>From registration to login\<close>

text \<open>The library accepts, for a ceremony, an assertion for one of an account's credentials.\<close>

definition accepts_passkey :: "iam_lib \<Rightarrow> webauthn \<Rightarrow> instant \<Rightarrow> wa_session \<Rightarrow> string \<Rightarrow> string \<Rightarrow> string \<Rightarrow> bool" where
  "accepts_passkey L w now sd raw cid oid \<longleftrightarrow> wa_assertion w sd raw = Some (cid, oid) \<and>
     (\<forall>a. wa_id a = oid \<longrightarrow> list_ex (\<lambda>c. wc_id c = cid) (wa_credentials a) \<longrightarrow>
        (\<exists>c. wa_verify_login w now a sd raw = Some c \<and> wc_id c = cid \<and> il_credential_text L c \<noteq> None))"

lemma find_only:
  assumes "x \<in> set xs" "P x" "\<forall>y \<in> set xs. P y \<longrightarrow> y = x"
  shows "List.find P xs = Some x"
proof (cases "List.find P xs")
  case None
  then show ?thesis using assms(1,2) by (simp add: find_None_iff)
next
  case (Some y)
  then show ?thesis using find_Some_mem [OF Some] assms(3) by blast
qed

lemma begin_login_Returns:
  assumes "begin_passkey_login L S E d = (Returns (options, tok), d')"
  obtains w sd encoded ce where "sv_passkeys S = Some w" "wa_begin_login w (ie_rnd E 2 32) = Some (options, sd)"
    "il_session_text L sd = Some encoded" "tok = random_secret E 1 32" "ce \<in> set (ia_ceremonies d')"
    "ce_token ce = il_sha256 L tok" "ce_owner ce = None" "ce_kind ce = ''login''" "ce_cipher ce = il_seal L (ce_nonce ce) encoded"
    "ce_expires ce = db_time (ie_now E + passkey_ceremony_ttl)"
proof -
  obtain w sd encoded where w: "sv_passkeys S = Some w" "wa_begin_login w (ie_rnd E 2 32) = Some (options, sd)"
      "il_session_text L sd = Some encoded" and store: "store_ceremony L E ''login'' [] sd d = (Returns tok, d')"
    using assms unfolding begin_passkey_login_def
    by (auto split: option.splits prod.splits outcome.splits) (auto simp: store_ceremony_def split: option.splits)
  from store w(3) show thesis
    unfolding store_ceremony_def Let_def
    by (auto split: if_splits option.splits dest!: insert_ceremony_frame intro!: that [OF w])
qed

lemma save_passkey_Returns:
  assumes "save_passkey L E p name c d = (Returns (), d')"
  shows "\<exists>k. ia_passkeys d' = ia_passkeys d @ [k] \<and> wk_id k = wc_id c \<and> wk_owner k = pr_id p"
  using assms unfolding save_passkey_def Let_def
  by (auto split: option.splits if_splits dest!: insert_passkey_frame simp: audit_def passkey_frame)

lemma finish_registration_Returns:
  assumes "finish_passkey_registration L S E p tok name raw d = (Returns (), d')"
  shows "\<exists>k. ia_passkeys d' = ia_passkeys d @ [k] \<and> wk_owner k = pr_id p \<and> registers S E raw (wk_id k)"
proof -
  obtain w sd d1 u c where w: "sv_passkeys S = Some w" "wa_finish_registration w (ie_now E) (account_of u) sd raw = Some c"
    and take: "take_passkey_ceremony L E ''registration'' (pr_id p) tok d = (Returns sd, d1)"
    and save: "save_passkey L E p name c d1 = (Returns (), d')"
    using assms unfolding finish_passkey_registration_def
    by (auto split: option.splits if_splits prod.splits outcome.splits)
  have "ia_passkeys d1 = ia_passkeys d" using take by (elim take_ceremony_Returns) simp
  moreover have "registers S E raw (wc_id c)" unfolding registers_def using w by blast
  ultimately show ?thesis using save_passkey_Returns [OF save] by metis
qed

lemma take_login_ceremony:
  assumes laws: "passkey_laws L" and inv: "passkeys_ok L d" and begun: "begin_passkey_login L S E2 d2 = (Returns (options, tok), d3)"
    and reach3: "passkeys_ok L d3" and later: "adding_steps L S (- {Ceremony_of (il_sha256 L tok)}) d3 d"
    and waiting: "il_sha256 L tok \<in> ce_token ` set (ia_ceremonies d)" and size: "length (ie_rnd E2 1 32) = 32"
    and time: "ie_db E < db_time (ie_now E2 + passkey_ceremony_ttl)" and ok: "\<not> ie_fails E St_take"
  obtains w sd d' where "sv_passkeys S = Some w" "wa_begin_login w (ie_rnd E2 2 32) = Some (options, sd)"
    "take_passkey_ceremony L E ''login'' [] tok d = (Returns sd, d')" "ia_owners d' = ia_owners d" "ia_sessions d' = ia_sessions d"
    "ia_passkeys d' = ia_passkeys d"
proof -
  let ?h = "il_sha256 L tok"
  obtain w sd encoded ce where w: "sv_passkeys S = Some w" "wa_begin_login w (ie_rnd E2 2 32) = Some (options, sd)"
    and enc: "il_session_text L sd = Some encoded" "ce_cipher ce = il_seal L (ce_nonce ce) encoded"
    and tok: "tok = random_secret E2 1 32" and ce: "ce \<in> set (ia_ceremonies d3)" "ce_token ce = ?h" "ce_owner ce = None"
      "ce_kind ce = ''login''" "ce_expires ce = db_time (ie_now E2 + passkey_ceremony_ttl)"
    using begun by (rule begin_login_Returns)
  have only: "c = ce" if "c \<in> set (ia_ceremonies d)" "ce_token c = ?h" for c
  proof -
    have "c \<in> set (ia_ceremonies d3)" using steps_keep_out(1) [OF adding_steps_store [OF later]] that by blast
    then show ?thesis
      using distinct_map_inj [of ce_token "ia_ceremonies d3" c ce] reach3 ce(1,2) that(2) by (simp add: passkeys_ok_def)
  qed
  obtain c where "c \<in> set (ia_ceremonies d)" "ce_token c = ?h" using waiting by (auto simp: image_iff)
  then have ce_mem: "ce \<in> set (ia_ceremonies d)" using only by blast
  have live: "ceremony_live (ie_db E) ''login'' [] ?h ce" using ce time by (simp add: ceremony_live_def)
  have "List.find (ceremony_live (ie_db E) ''login'' [] ?h) (ia_ceremonies d) = Some ce"
  proof (rule find_only, rule ce_mem, rule live, intro ballI impI)
    fix y assume "y \<in> set (ia_ceremonies d)" and y: "ceremony_live (ie_db E) ''login'' [] ?h y"
    then show "y = ce" using only by (simp only: ceremony_live_def)
  qed
  moreover have "Option.bind (il_open L (ce_nonce ce) (ce_cipher ce)) (il_session_of L) = Some sd"
    using laws enc by (simp add: passkey_laws_def seal_law_def)
  moreover have "\<not> length tok < 32" using size by (simp add: tok random_secret_def length_hex_encode)
  ultimately have "take_passkey_ceremony L E ''login'' [] tok d =
      (Returns sd, snd (take_ceremony (ie_db E) ''login'' [] ?h d))"
    using ok by (simp add: take_passkey_ceremony_def take_ceremony_def)
  with w show thesis by (rule that) simp_all
qed

lemma passkey_owner_stays:
  assumes "iam_reach L S d" and k: "k \<in> set (ia_passkeys d)" and "iam_steps L S d d'"
  obtains o' where "ia_owners d' = [o']" "ow_active o'" "ow_id o' = wk_owner k"
    "\<forall>k' \<in> set (ia_passkeys d'). wk_owner k' = wk_owner k"
proof -
  note inv = reach_inv [OF assms(1)]
  have "wk_owner k \<in> ow_id ` set (ia_owners d)" using reach_owned [OF assms(1)] k by (auto simp: passkeys_owned_def list_all_iff)
  then obtain o' where o': "ia_owners d = [o']" "ow_id o' = wk_owner k" "ow_active o'"
    using inv by (cases "ia_owners d") (auto simp: iam_inv_def owners_ok_def)
  then have "ia_owners d' = [o']" using steps_owners [OF iam_steps_store [OF assms(3)]] inv by (simp add: iam_inv_def)
  moreover from this have "\<forall>k' \<in> set (ia_passkeys d'). wk_owner k' = wk_owner k"
    using reach_owned [OF rtranclp_trans [OF assms(1,3)]] o'(2) by (auto simp: passkeys_owned_def list_all_iff)
  ultimately show thesis using that o' by blast
qed

lemma load_user_healthy:
  assumes laws: "passkey_laws L" and inv: "passkeys_ok L d" and owners: "ia_owners d = [o']" "ow_active o'"
    and uuid: "il_uuid L (ow_id o') = Some (ow_id o')" and ok: "\<And>st. \<not> ie_fails E st"
    and k: "k \<in> set (ia_passkeys d)" "wk_owner k = ow_id o'"
  obtains u where "load_webauthn_user L E (ow_id o') d = Returns u" "pr_id (wu_principal u) = ow_id o'"
    "list_ex (\<lambda>c. wc_id c = wk_id k) (wu_credentials u)"
proof -
  have "passkey_ok L x" if "x \<in> set (ia_passkeys d)" for x using inv that by (simp add: passkeys_ok_def list_all_iff)
  then have read: "\<exists>c. read_passkey L x = Some c \<and> wc_id c = wk_id x" if "x \<in> set (ia_passkeys d)" for x
    using read_passkey_ok [OF laws] that by blast
  let ?ks = "filter (\<lambda>k. wk_owner k = ow_id o') (ia_passkeys d)"
  have all: "all_some (map (read_passkey L) ?ks) = Some (map (\<lambda>x. the (read_passkey L x)) ?ks)"
    by (rule all_some_map) (use read in force)
  have "active_owner (ow_id o') d = Some o'" using owners by (simp add: active_owner_def)
  then have "load_webauthn_user L E (ow_id o') d = Returns \<lparr>wu_principal = \<lparr>pr_id = ow_id o', pr_username = ow_username o',
      pr_display = ow_display o', pr_kind = ''human'', pr_session = []\<rparr>, wu_credentials = map (\<lambda>x. the (read_passkey L x)) ?ks\<rparr>"
    using ok uuid all by (simp add: load_webauthn_user_def)
  moreover have "list_ex (\<lambda>c. wc_id c = wk_id k) (map (\<lambda>x. the (read_passkey L x)) ?ks)"
    using read [OF k(1)] k by (force simp: list_ex_iff)
  ultimately show thesis using that by fastforce
qed

lemma passkey_session_healthy:
  assumes ok: "healthy L E ip d" and inv: "passkeys_ok L d" and owner: "pr_id (wu_principal u) \<in> ow_id ` set (ia_owners d)"
    and k: "k \<in> set (ia_passkeys d)" "wk_id k = wc_id c" "wk_owner k = pr_id (wu_principal u)" and enc: "il_credential_text L c \<noteq> None"
  shows "\<exists>s d'. passkey_session L E u c ip agent d = (Returns s, d') \<and> pr_id (se_principal s) = pr_id (wu_principal u)"
proof -
  have "length (filter (\<lambda>x. wk_id x = wk_id k) xs) = 1" if "distinct (map wk_id xs)" "k \<in> set xs" for xs
    using that by (induction xs) (auto simp: filter_empty_conv image_iff)
  moreover have only: "x = k" if "x \<in> set (ia_passkeys d)" "wk_id x = wc_id c" for x
    using distinct_map_inj [of wk_id "ia_passkeys d" x k] inv k that by (simp add: passkeys_ok_def)
  have "filter (\<lambda>x. wk_id x = wc_id c \<and> wk_owner x = pr_id (wu_principal u)) (ia_passkeys d) =
      filter (\<lambda>x. wk_id x = wk_id k) (ia_passkeys d)"
    using only k(2,3) by (intro filter_cong refl) metis
  ultimately have one: "fst (update_passkey t (wc_id c) ci no (pr_id (wu_principal u)) d) = 1" for t ci no
    using inv k(1) by (simp add: update_passkey_def Let_def passkeys_ok_def)
  obtain addr encoded where addr: "il_inet L ip = Some addr" "il_credential_text L c = Some encoded"
    using ok enc by (auto simp: healthy_def)
  obtain d1 where d1: "update_passkey (ie_db E) (wc_id c) (il_seal L (ie_rnd E 0 12) encoded) (ie_rnd E 0 12) (pr_id (wu_principal u)) d = (1, d1)"
    using one by (metis prod.collapse)
  have same: "ia_sessions d1 = ia_sessions d" "ia_owners d1 = ia_owners d"
    using arg_cong [OF d1, of "\<lambda>x. ia_sessions (snd x)"] arg_cong [OF d1, of "\<lambda>x. ia_owners (snd x)"] by simp_all
  show ?thesis
    using ok owner addr d1 same
    by (simp add: passkey_session_def Let_def healthy_def create_session_tx_def create_session_row_def commit_def)
qed


end
