(* ===== verification/Passkey_Examples.thy ===== *)
theory Passkey_Examples
  imports Iam_Examples Iam_Passkeys
begin

text \<open>
  A passkey is registered, used and deleted: the concrete run on which the properties of
  \<open>Iam_Passkeys\<close> are exercised.
\<close>

definition ex_hex :: "char \<Rightarrow> string" where "ex_hex c = hex_encode (replicate 32 c)"

lemma ex_hex_length: "length (ex_hex c) = 64"
  by (simp add: ex_hex_def length_hex_encode)

lemma ex_secret: "random_secret (ex_iam_env t i c) k 32 = ex_hex c"
  by (simp add: random_secret_def ex_hex_def)

lemma ex_wa_simps:
  "sv_passkeys ex_sv = Some ex_wa" "wa_begin_registration ex_wa a ch = Some (''options'', ch)"
  "wa_finish_registration ex_wa t a sd raw = Some \<lparr>wc_id = ''cred'', wc_data = []\<rparr>"
  "wa_begin_login ex_wa ch = Some (''options'', ch)" "wa_assertion ex_wa sd raw = Some (''cred'', ''o1'')"
  "wa_verify_login ex_wa t a sd raw = (if wa_credentials a = [] then None else Some \<lparr>wc_id = ''cred'', wc_data = []\<rparr>)"
  "il_uuid ex_il s = Some s" "il_credential_text ex_il c = (if wc_data c = [] then Some (wc_id c) else None)"
  "il_credential_of ex_il s = Some \<lparr>wc_id = s, wc_data = []\<rparr>" "il_session_text ex_il s = Some s" "il_session_of ex_il s = Some s"
  by (simp_all add: ex_sv_def ex_wa_def ex_il_def)

lemma ex_passkey_laws: "passkey_laws ex_il"
  using ex_laws_iam(2) by (auto simp: passkey_laws_def ex_wa_simps split: if_splits)

definition ex_begun :: "char \<Rightarrow> string \<Rightarrow> string option \<Rightarrow> instant \<Rightarrow> ceremony" where
  "ex_begun c kind oid t = \<lparr>ce_token = ex_hex c, ce_owner = oid, ce_kind = kind, ce_cipher = replicate 32 c,
     ce_nonce = replicate 12 c, ce_expires = t + 5 * minute\<rparr>"

definition ex_passkey :: passkey where
  "ex_passkey = \<lparr>wk_id = ''cred'', wk_owner = ''o1'', wk_name = ''phone'', wk_cipher = ''cred'', wk_nonce = replicate 12 CHR ''v'',
     wk_created = 1010 * second, wk_used = None\<rparr>"

definition ex_w1 :: iam_db where "ex_w1 = ex_d2\<lparr>ia_ceremonies := [ex_begun CHR ''w'' ''registration'' (Some ''o1'') (1000 * second)]\<rparr>"
definition ex_w2 :: iam_db where "ex_w2 = ex_d2\<lparr>ia_passkeys := [ex_passkey]\<rparr>"
definition ex_w3 :: iam_db where "ex_w3 = ex_w2\<lparr>ia_ceremonies := [ex_begun CHR ''x'' ''login'' None (2000 * second)]\<rparr>"

abbreviation ex_login_env4 :: iam_env where "ex_login_env4 \<equiv> ex_iam_env (2060 * second) ''se2'' CHR ''y''"

lemmas ex_run_simps = ex_wa_simps ex_secret ex_hex_length ex_begun_def load_webauthn_user_def active_owner_def
  read_passkey_def account_of_def Let_def take_passkey_ceremony_def take_ceremony_def ceremony_live_def

lemma ex_d2_simps:
  "ia_owners ex_d2 = [ex_owner]" "ia_ceremonies ex_d2 = []" "ia_passkeys ex_d2 = []" "ow_id ex_owner = ''o1''" "ow_active ex_owner"
  by (simp_all add: ex_d2_def ex_owner_def)

lemma ex_register_begin:
  "begin_passkey_registration ex_il ex_sv (ex_iam_env (1000 * second) ''x'' CHR ''w'') ex_p ex_d2 =
     (Returns (''options'', ex_hex CHR ''w''), ex_w1)"
  by (simp add: begin_passkey_registration_def ex_run_simps ex_d2_simps ex_p_def store_ceremony_def sweep_ceremonies_def
      insert_ceremony_def ex_w1_def db_time_def)

lemma ex_register:
  "finish_passkey_registration ex_il ex_sv (ex_iam_env (1010 * second) ''x'' CHR ''v'') ex_p (ex_hex CHR ''w'') ''phone'' raw ex_w1 =
     (Returns (), ex_w2)"
proof -
  have "trim_space ''phone'' = ''phone''" by (simp add: trim_space_graphic graphic_def in_range_def)
  then show ?thesis
    by (simp add: finish_passkey_registration_def ex_run_simps ex_w1_def ex_d2_simps ex_p_def save_passkey_def insert_passkey_def
        audit_def record_audit_def ex_w2_def ex_passkey_def)
qed

lemma ex_login_begin:
  "begin_passkey_login ex_il ex_sv (ex_iam_env (2000 * second) ''x'' CHR ''x'') ex_w2 = (Returns (''options'', ex_hex CHR ''x''), ex_w3)"
  by (simp add: begin_passkey_login_def ex_run_simps store_ceremony_def sweep_ceremonies_def insert_ceremony_def ex_w3_def ex_w2_def
      ex_d2_simps db_time_def)

lemma ex_reach_w: "iam_reach ex_il ex_sv ex_w1" "iam_reach ex_il ex_sv ex_w2" "iam_reach ex_il ex_sv ex_w3"
proof -
  show 1: "iam_reach ex_il ex_sv ex_w1"
    using rtranclp.rtrancl_into_rtrancl [OF ex_iam_reach(3) Begin_passkey_registration [OF UNIV_I]] unfolding ex_register_begin [symmetric]
    by (metis ex_register_begin snd_conv)
  show 2: "iam_reach ex_il ex_sv ex_w2"
    using rtranclp.rtrancl_into_rtrancl [OF 1 Finish_passkey_registration] ex_register [of "[]"] by (metis UNIV_I snd_conv)
  show "iam_reach ex_il ex_sv ex_w3"
    using rtranclp.rtrancl_into_rtrancl [OF 2 Begin_passkey_login [OF UNIV_I]] ex_login_begin by (metis snd_conv)
qed

lemma ex_healthy_w: "healthy ex_il ex_login_env4 ''10.0.0.3'' ex_w3"
proof -
  have "ex_hex CHR ''y'' \<noteq> ex_session_token"
    unfolding ex_hex_def ex_session_token_def by (rule notI, drule hex_encode_inj) (simp add: numeral_eq_Suc)
  then show ?thesis
    by (simp add: healthy_def ex_secret ex_w3_def ex_w2_def) (simp add: ex_d2_def ex_row_def)
qed


lemma ex_login_end:
  obtains s d5 where
    "finish_passkey_login ex_il ex_sv ex_login_env4 (ex_hex CHR ''x'') ''10.0.0.3'' ''ua'' [] ex_w3 = (Returns s, d5)"
proof -
  let ?u = "\<lparr>wu_principal = \<lparr>pr_id = ow_id ex_owner, pr_username = ow_username ex_owner, pr_display = ow_display ex_owner,
      pr_kind = ''human'', pr_session = []\<rparr>, wu_credentials = [\<lparr>wc_id = ''cred'', wc_data = []\<rparr>]\<rparr>"
  have take: "take_passkey_ceremony ex_il ex_login_env4 ''login'' [] (ex_hex CHR ''x'') ex_w3 = (Returns (replicate 32 CHR ''x''), ex_w2)"
    by (simp add: ex_run_simps ex_w3_def) (simp add: ex_w2_def ex_d2_def)
  have check: "check_assertion ex_il ex_wa ex_login_env4 sd [] ex_w2 = Some (?u, \<lparr>wc_id = ''cred'', wc_data = []\<rparr>)" for sd
    by (simp add: check_assertion_def select_user_def ex_run_simps ex_w2_def ex_d2_simps ex_passkey_def)
  have "healthy ex_il ex_login_env4 ''10.0.0.3'' ex_w2" using ex_healthy_w by (simp add: healthy_def ex_w3_def)
  moreover have "passkeys_ok ex_il ex_w2" using reach_inv [OF ex_reach_w(2)] by (simp add: iam_inv_def)
  ultimately have "\<exists>s d'. passkey_session ex_il ex_login_env4 ?u \<lparr>wc_id = ''cred'', wc_data = []\<rparr> ''10.0.0.3'' ''ua'' ex_w2 = (Returns s, d') \<and>
      pr_id (se_principal s) = pr_id (wu_principal ?u)"
    by (rule passkey_session_healthy [where k = ex_passkey])
      (simp_all add: ex_w2_def ex_d2_simps ex_passkey_def ex_wa_simps)
  then obtain s d' where
    "passkey_session ex_il ex_login_env4 ?u \<lparr>wc_id = ''cred'', wc_data = []\<rparr> ''10.0.0.3'' ''ua'' ex_w2 = (Returns s, d')" by blast
  then show thesis
    by (intro that [of s d']) (simp only: finish_passkey_login_def ex_wa_simps(1) option.case take check prod.case outcome.case)
qed


theorem passkey_ceremony_once_witness:
  "\<exists>d5 e. finish_passkey_login ex_il ex_sv ex_login_env4 (ex_hex CHR ''x'') ''10.0.0.3'' ''ua'' [] d5 = (Fails e, d5)"
proof (rule ex_login_end)
  fix s d5 assume "finish_passkey_login ex_il ex_sv ex_login_env4 (ex_hex CHR ''x'') ''10.0.0.3'' ''ua'' [] ex_w3 = (Returns s, d5)"
  from passkey_ceremony_once [OF ex_reach_w(3) this _ _ rtranclp.rtrancl_refl] show ?thesis by blast
qed

theorem passkey_deletion_final_witness:
  "\<exists>d5. \<forall>s. fst (finish_passkey_login ex_il ex_sv ex_login_env4 (ex_hex CHR ''x'') ''10.0.0.3'' ''ua'' [] d5) \<noteq> Returns s"
proof -
  have "fst (delete_passkey ex_il (ex_iam_env (2050 * second) ''x'' CHR ''z'') ex_p (b64_encode Url ''cred'') ex_w3) = Returns True"
    by (simp add: delete_passkey_def b64_roundtrip delete_passkey_row_def Let_def ex_w3_def ex_w2_def ex_passkey_def ex_p_def)
  then obtain d5 where
    "delete_passkey ex_il (ex_iam_env (2050 * second) ''x'' CHR ''z'') ex_p (b64_encode Url ''cred'') ex_w3 = (Returns True, d5)"
    by (metis prod.collapse)
  then have "fst (finish_passkey_login ex_il ex_sv ex_login_env4 (ex_hex CHR ''x'') ''10.0.0.3'' ''ua'' [] d5) \<noteq> Returns s" for s
    by (rule passkey_deletion_final [OF ex_reach_w(3) ex_passkey_laws _ rtranclp.rtrancl_refl]) (simp add: ex_wa_simps)
  then show ?thesis by blast
qed

end
