(* ===== verification/Sdk_Http.thy ===== *)
theory Sdk_Http
  imports Identity
begin

text \<open>
  The two HTTP parts of the Go SDK: the middlewares of \<open>packages/go-sdk/httpx\<close>, which
  surround every handler of the services that use them, and \<open>FetchJWKSet\<close> of
  \<open>identity/remote.go\<close>, which loads IAM's public keys when a service starts.

  A handler is a function from the request and the request identifier in its context to its
  response, \<open>None\<close> where it panics. What \<open>url.Parse\<close> says of a text, what a server answers
  and the random bytes are arguments.
\<close>

section \<open>Middlewares\<close>

type_synonym 'b handler = "request \<Rightarrow> string \<Rightarrow> 'b response option"

definition add_headers :: "(string \<times> string) list \<Rightarrow> 'b response \<Rightarrow> 'b response" where
  "add_headers hs r = r\<lparr>headers := hs @ headers r\<rparr>"

text \<open>\<open>http.Error\<close>: \<open>plain\<close> makes a body of the text.\<close>

definition http_error :: "(string \<Rightarrow> 'b) \<Rightarrow> nat \<Rightarrow> string \<Rightarrow> 'b response" where
  "http_error plain code e = \<lparr>status = code,
     headers = [(''Content-Type'', ''text/plain; charset=utf-8''), (''X-Content-Type-Options'', ''nosniff'')],
     body = Some (plain e)\<rparr>"

definition request_id_header :: string where "request_id_header = ''X-Request-ID''"

text \<open>\<open>RequestID\<close>: \<open>rnd\<close> is the 16 bytes read, \<open>None\<close> where reading fails.\<close>

definition request_id_of :: "string option \<Rightarrow> request \<Rightarrow> string option" where
  "request_id_of rnd r =
     (let given = header r request_id_header in
      if given = [] \<or> length given > 128 then map_option hex_encode rnd else Some given)"

definition with_request_id :: "(string \<Rightarrow> 'b) \<Rightarrow> string option \<Rightarrow> 'b handler \<Rightarrow> 'b handler" where
  "with_request_id plain rnd next_handler r _ =
     (case request_id_of rnd r of
        None \<Rightarrow> Some (http_error plain 500 ''internal error'')
      | Some i \<Rightarrow> map_option (add_headers [(request_id_header, i)]) (next_handler r i))"

definition recover :: "(string \<Rightarrow> 'b) \<Rightarrow> 'b handler \<Rightarrow> 'b handler" where
  "recover plain next_handler r i =
     (case next_handler r i of
        None \<Rightarrow> Some (http_error plain 500 ''internal error'')
      | Some resp \<Rightarrow> Some resp)"

definition security_headers :: "'b handler \<Rightarrow> 'b handler" where
  "security_headers next_handler r i =
     map_option (add_headers [(''X-Content-Type-Options'', ''nosniff''), (''Referrer-Policy'', ''no-referrer'')])
       (next_handler r i)"

section \<open>Loading the published keys\<close>

text \<open>What is used of a parsed URL.\<close>

record url =
  ur_scheme :: string
  ur_host :: string
  ur_hostname :: string
  ur_user :: bool
  ur_fragment :: string
  ur_text :: string

text \<open>A server's answer: status, and the body, \<open>None\<close> where reading it fails.\<close>

record http_reply =
  re_status :: int
  re_type :: string
  re_body :: "string option"

datatype fetch_error =
    No_client | Invalid_jwks_url | Fetch_failed | Unexpected_status int | Read_failed | Too_large
  | Bad_jwks jwks_error

definition max_jwks_bytes :: nat where "max_jwks_bytes = 64 * 2 ^ 10"

definition http_scheme :: "url \<Rightarrow> bool" where
  "http_scheme u \<longleftrightarrow> ur_scheme u = ''http'' \<or> ur_scheme u = ''https''"

text \<open>
  The client is \<open>None\<close> where there is none; it maps a URL to an answer, \<open>None\<close> where the
  request cannot be built or fails. \<open>decode\<close> is the JSON decoding of a key set.
\<close>

definition fetch_jwks ::
  "(string \<Rightarrow> url option) \<Rightarrow> (string \<Rightarrow> jwk list option) \<Rightarrow> (string \<Rightarrow> http_reply option) option \<Rightarrow> string \<Rightarrow>
   fetch_error + (string \<times> string) list" where
  "fetch_jwks parse decode client endpoint =
     (case client of
        None \<Rightarrow> Inl No_client
      | Some do_get \<Rightarrow>
          (case parse (trim_space endpoint) of
             None \<Rightarrow> Inl Invalid_jwks_url
           | Some u \<Rightarrow>
               if \<not> http_scheme u \<or> ur_host u = [] \<or> ur_user u \<or> ur_fragment u \<noteq> [] then Inl Invalid_jwks_url
               else case do_get (ur_text u) of
                 None \<Rightarrow> Inl Fetch_failed
               | Some rp \<Rightarrow>
                   if re_status rp \<noteq> 200 then Inl (Unexpected_status (re_status rp))
                   else case re_body rp of
                     None \<Rightarrow> Inl Read_failed
                   | Some contents \<Rightarrow>
                       if length (take (max_jwks_bytes + 1) contents) > max_jwks_bytes then Inl Too_large
                       else case parse_jwks (decode (take (max_jwks_bytes + 1) contents)) of
                         Inl e \<Rightarrow> Inl (Bad_jwks e)
                       | Inr keys \<Rightarrow> Inr keys))"

lemma fetch_jwks_InrE:
  assumes "fetch_jwks parse decode client endpoint = Inr keys"
  obtains do_get u rp contents where "client = Some do_get" "parse (trim_space endpoint) = Some u"
    "http_scheme u" "ur_host u \<noteq> []" "\<not> ur_user u" "do_get (ur_text u) = Some rp" "re_status rp = 200"
    "re_body rp = Some contents" "length contents \<le> max_jwks_bytes" "parse_jwks (decode contents) = Inr keys"
  using assms unfolding fetch_jwks_def
  by (auto split: option.split_asm if_split_asm sum.split_asm)

end
