(* ===== verification/Go_Json.thy ===== *)
theory Go_Json
  imports Go_Encoding
begin

text \<open>
  The part of \<open>encoding/json\<close> the services use on documents they do not know in full. A
  document is kept the way \<open>json.RawMessage\<close> keeps it: strings and numbers are their
  literal text, so nothing is lost by reading and writing them again. Reading is a lexer and
  a stack machine that follows the states of Go's scanner (with its nesting limit of
  10,000); writing is \<open>Marshal\<close>, which sorts the keys of a map, leaves out white space and
  escapes \<open><\<close>, \<open>>\<close>, \<open>&\<close> and the two Unicode line separators inside literals. The
  section at the end shows that what was written is read back.
\<close>

section \<open>Documents and tokens\<close>

datatype json =
    JNull
  | JBool bool
  | JNumber string
  | JString string
  | JArray "json list"
  | JObject "(string \<times> json) list"

datatype json_token =
    T_open_obj | T_close_obj | T_open_arr | T_close_arr | T_colon | T_comma
  | T_scalar json
  | T_text string

definition is_hex :: "char \<Rightarrow> bool" where
  "is_hex c \<longleftrightarrow> is_digit c \<or> in_range 65 70 c \<or> in_range 97 102 c"

definition escape_letters :: string where
  "escape_letters = [CHR 0x22, CHR 0x5C, CHR ''/'', CHR ''b'', CHR ''f'', CHR ''n'', CHR ''r'', CHR ''t'']"

text \<open>The width of the unit of a string literal that starts here: 0 where there is none.\<close>

definition unit_width :: "string \<Rightarrow> nat" where
  "unit_width s =
     (case s of
        [] \<Rightarrow> 0
      | c # t \<Rightarrow>
          if c = CHR 0x22 \<or> byte c < 32 then 0
          else if c \<noteq> CHR 0x5C then 1
          else case t of
            [] \<Rightarrow> 0
          | e # u \<Rightarrow>
              if e \<in> set escape_letters then 2
              else if e = CHR ''u'' \<and> 4 \<le> length u \<and> list_all is_hex (take 4 u) then 6 else 0)"

lemma unit_width_le: "unit_width s \<le> length s"
  by (auto simp: unit_width_def split: list.splits)

text \<open>The literal up to the closing quote, and what follows it.\<close>

function lex_text :: "string \<Rightarrow> (string \<times> string) option" where
  "lex_text s =
     (case s of
        [] \<Rightarrow> None
      | c # t \<Rightarrow>
          if c = CHR 0x22 then Some ([], t)
          else if unit_width s = 0 then None
          else map_option (\<lambda>(l, r). (take (unit_width s) s @ l, r)) (lex_text (drop (unit_width s) s)))"
  by pat_completeness auto
termination
  by (relation "measure length") auto

declare lex_text.simps [simp del]

definition number_char :: "char \<Rightarrow> bool" where
  "number_char c \<longleftrightarrow> is_digit c \<or> c \<in> set ''+-.eE''"

fun drop_digits :: "string \<Rightarrow> string" where
  "drop_digits s = dropWhile is_digit s"

text \<open>\<open>-?(0|[1-9][0-9]*)(\.[0-9]+)?([eE][+-]?[0-9]+)?\<close>\<close>

definition json_number :: "string \<Rightarrow> bool" where
  "json_number s =
     (let unsigned = (case s of c # t \<Rightarrow> if c = CHR ''-'' then t else s | [] \<Rightarrow> s);
          digits_then = (\<lambda>k u. case u of c # t \<Rightarrow> is_digit c \<and> k (drop_digits t) | [] \<Rightarrow> False);
          exponent = (\<lambda>u. case u of
             [] \<Rightarrow> True
           | c # t \<Rightarrow> c \<in> set ''eE'' \<and>
               digits_then (\<lambda>v. v = []) (case t of d # v \<Rightarrow> if d \<in> set ''+-'' then v else t | [] \<Rightarrow> t));
          fraction = (\<lambda>u. case u of
             c # t \<Rightarrow> if c = CHR ''.'' then digits_then exponent t else exponent u
           | [] \<Rightarrow> True)
      in case unsigned of
           [] \<Rightarrow> False
         | c # t \<Rightarrow> if c = CHR ''0'' then fraction t else is_digit c \<and> fraction (drop_digits t))"

definition json_space :: "char \<Rightarrow> bool" where
  "json_space c \<longleftrightarrow> byte c \<in> set [32, 9, 10, 13]"

definition punctuation :: "char \<Rightarrow> json_token option" where
  "punctuation = map_of
     [(CHR ''{'', T_open_obj), (CHR ''}'', T_close_obj), (CHR ''['', T_open_arr),
      (CHR '']'', T_close_arr), (CHR '':'', T_colon), (CHR '','', T_comma)]"

text \<open>One token, and the rest; \<open>None\<close> where the text has none.\<close>

definition next_token :: "string \<Rightarrow> (json_token \<times> string) option" where
  "next_token s =
     (case s of
        [] \<Rightarrow> None
      | c # t \<Rightarrow>
          (case punctuation c of
             Some k \<Rightarrow> Some (k, t)
           | None \<Rightarrow>
               if c = CHR 0x22 then map_option (\<lambda>(l, r). (T_text l, r)) (lex_text t)
               else if number_char c then
                 let n = takeWhile number_char s in
                 if json_number n then Some (T_scalar (JNumber n), dropWhile number_char s) else None
               else if has_prefix ''null'' s then Some (T_scalar JNull, drop 4 s)
               else if has_prefix ''true'' s then Some (T_scalar (JBool True), drop 4 s)
               else if has_prefix ''false'' s then Some (T_scalar (JBool False), drop 5 s)
               else None))"

lemma lex_text_shorter: "lex_text s = Some (l, r) \<Longrightarrow> length r < length s"
proof (induction s arbitrary: l rule: lex_text.induct)
  case (1 s)
  then show ?case
    by (subst (asm) (2) lex_text.simps)
      (auto split: list.splits if_split_asm prod.splits, fastforce simp: unit_width_le)
qed

lemma next_token_shorter: "next_token s = Some (k, r) \<Longrightarrow> length r < length s"
proof -
  have "length (dropWhile number_char (c # t)) < length (c # t)" if "number_char c" for c t
    using that length_dropWhile_le [of number_char t] by simp
  then show "next_token s = Some (k, r) \<Longrightarrow> length r < length s"
    by (auto simp: next_token_def Let_def split: list.splits option.splits if_split_asm
        dest!: lex_text_shorter simp del: dropWhile.simps)
qed

function lex :: "string \<Rightarrow> json_token list option" where
  "lex s =
     (let t = dropWhile json_space s in
      if t = [] then Some []
      else case next_token t of
        None \<Rightarrow> None
      | Some (k, r) \<Rightarrow> map_option (Cons k) (lex r))"
  by pat_completeness auto
termination
proof (relation "measure length")
  fix s t :: string and p k r
  assume t: "t = dropWhile json_space s" and n: "next_token t = Some p" "(k, r) = p"
  from n have "length r < length t" by (auto intro: next_token_shorter)
  with t length_dropWhile_le [of json_space s] show "(r, s) \<in> measure length" by simp
qed simp

declare lex.simps [simp del]

section \<open>The stack machine\<close>

datatype json_frame = In_array "json list" | In_object "(string \<times> json) list" | In_member "(string \<times> json) list" string

datatype json_state = Want_value | Want_first_value | Want_first_key | Want_key | Want_colon | Have json

definition max_depth :: nat where "max_depth = 10000"

fun run_json :: "json_token list \<Rightarrow> json_frame list \<Rightarrow> json_state \<Rightarrow> json option" where
  "run_json [] [] (Have v) = Some v"
| "run_json [] _ _ = None"
| "run_json (k # ks) st (Have v) =
     (case (k, st) of
        (T_comma, In_array vs # st') \<Rightarrow> run_json ks (In_array (vs @ [v]) # st') Want_value
      | (T_close_arr, In_array vs # st') \<Rightarrow> run_json ks st' (Have (JArray (vs @ [v])))
      | (T_comma, In_member ms n # st') \<Rightarrow> run_json ks (In_object (ms @ [(n, v)]) # st') Want_key
      | (T_close_obj, In_member ms n # st') \<Rightarrow> run_json ks st' (Have (JObject (ms @ [(n, v)])))
      | _ \<Rightarrow> None)"
| "run_json (k # ks) st Want_colon =
     (if k = T_colon then run_json ks st Want_value else None)"
| "run_json (k # ks) st Want_key =
     (case (k, st) of
        (T_text n, In_object ms # st') \<Rightarrow> run_json ks (In_member ms n # st') Want_colon
      | _ \<Rightarrow> None)"
| "run_json (k # ks) st Want_first_key =
     (case (k, st) of
        (T_text n, In_object ms # st') \<Rightarrow> run_json ks (In_member ms n # st') Want_colon
      | (T_close_obj, In_object ms # st') \<Rightarrow> run_json ks st' (Have (JObject []))
      | _ \<Rightarrow> None)"
| "run_json (k # ks) st w =
     (case k of
        T_scalar v \<Rightarrow> run_json ks st (Have v)
      | T_text l \<Rightarrow> run_json ks st (Have (JString l))
      | T_open_arr \<Rightarrow>
          if length st < max_depth then run_json ks (In_array [] # st) Want_first_value else None
      | T_open_obj \<Rightarrow>
          if length st < max_depth then run_json ks (In_object [] # st) Want_first_key else None
      | T_close_arr \<Rightarrow>
          (case st of
             In_array vs # st' \<Rightarrow> if w = Want_first_value then run_json ks st' (Have (JArray [])) else None
           | _ \<Rightarrow> None)
      | _ \<Rightarrow> None)"

text \<open>\<open>json.Unmarshal\<close> as far as the syntax goes.\<close>

definition json_parse :: "string \<Rightarrow> json option" where
  "json_parse s = Option.bind (lex s) (\<lambda>ks. run_json ks [] Want_value)"

section \<open>Strings\<close>

definition hex_value :: "char \<Rightarrow> nat" where
  "hex_value c = (if is_digit c then byte c - 48 else if in_range 65 70 c then byte c - 55 else byte c - 87)"

definition hex4 :: "string \<Rightarrow> nat" where
  "hex4 s = foldl (\<lambda>n c. 16 * n + hex_value c) 0 (take 4 s)"

definition unescape_letter :: "char \<Rightarrow> char" where
  "unescape_letter e =
     (if e = CHR ''b'' then CHR 0x08 else if e = CHR ''f'' then CHR 0x0C
      else if e = CHR ''n'' then CHR 0x0A else if e = CHR ''r'' then CHR 0x0D
      else if e = CHR ''t'' then CHR 0x09 else e)"

text \<open>The text of a literal: escapes resolved, surrogate pairs joined, bad bytes replaced.\<close>

function unquote :: "string \<Rightarrow> string" where
  "unquote s =
     (case s of
        [] \<Rightarrow> []
      | c # t \<Rightarrow>
          if c \<noteq> CHR 0x5C then
            (let (r, w) = decode_rune s in encode_rune r @ unquote (drop (w - 1) t))
          else case t of
            [] \<Rightarrow> []
          | e # u \<Rightarrow>
              if e \<noteq> CHR ''u'' then unescape_letter e # unquote u
              else
                let r = hex4 u; low = hex4 (drop 6 u) in
                if 55296 \<le> r \<and> r \<le> 56319 \<and> take 2 (drop 4 u) = [CHR 0x5C, CHR ''u''] \<and>
                   56320 \<le> low \<and> low \<le> 57343
                then encode_rune ((r - 55296) * 1024 + (low - 56320) + 65536) @ unquote (drop 10 u)
                else encode_rune r @ unquote (drop 4 u))"
  by pat_completeness auto
termination
  by (relation "measure length") auto

declare unquote.simps [simp del]

definition unicode_escape :: "nat \<Rightarrow> string" where
  "unicode_escape n =
     [CHR 0x5C, CHR ''u'', hex_digit (n div 4096), hex_digit (n div 256 mod 16),
      hex_digit (n div 16 mod 16), hex_digit (n mod 16)]"

definition quote_ascii :: "char \<Rightarrow> string" where
  "quote_ascii c =
     (if c = CHR 0x5C \<or> c = CHR 0x22 then [CHR 0x5C, c]
      else if c = CHR 0x08 then [CHR 0x5C, CHR ''b''] else if c = CHR 0x0C then [CHR 0x5C, CHR ''f'']
      else if c = CHR 0x0A then [CHR 0x5C, CHR ''n''] else if c = CHR 0x0D then [CHR 0x5C, CHR ''r'']
      else if c = CHR 0x09 then [CHR 0x5C, CHR ''t'']
      else if byte c < 32 \<or> c \<in> set ''<>&'' then unicode_escape (byte c)
      else [c])"

text \<open>\<open>Marshal\<close> of a string, without the quotes around it.\<close>

function quote :: "string \<Rightarrow> string" where
  "quote s =
     (case s of
        [] \<Rightarrow> []
      | c # t \<Rightarrow>
          let (r, w) = decode_rune s in
          (if byte c < 128 then quote_ascii c
           else if r = 65533 \<and> w = 1 \<or> r = 8232 \<or> r = 8233 then unicode_escape r
           else take w s) @ quote (drop (w - 1) t))"
  by pat_completeness auto
termination
  by (relation "measure length") auto

declare quote.simps [simp del]

text \<open>\<open>compact\<close> with HTML escaping, inside a literal that is passed through.\<close>

function html_escape :: "string \<Rightarrow> string" where
  "html_escape s =
     (case s of
        [] \<Rightarrow> []
      | c # t \<Rightarrow>
          if c \<in> set ''<>&'' then unicode_escape (byte c) @ html_escape t
          else if take 2 s = [CHR 0xE2, CHR 0x80] \<and> 3 \<le> length s \<and> (s ! 2 = CHR 0xA8 \<or> s ! 2 = CHR 0xA9)
          then unicode_escape (8192 + byte (s ! 2) - 128) @ html_escape (drop 3 s)
          else c # html_escape t)"
  by pat_completeness auto
termination
  by (relation "measure length") auto

declare html_escape.simps [simp del]

section \<open>Decoding into Go values\<close>

text \<open>Into a \<open>string\<close>, a \<open>bool\<close> and a slice that hold their zero value: \<open>null\<close> leaves it.\<close>

fun into_string :: "json \<Rightarrow> string option" where
  "into_string JNull = Some []"
| "into_string (JString l) = Some (unquote l)"
| "into_string _ = None"

fun into_bool :: "json \<Rightarrow> bool option" where
  "into_bool JNull = Some False"
| "into_bool (JBool b) = Some b"
| "into_bool _ = None"

fun into_slice :: "json \<Rightarrow> json list option" where
  "into_slice JNull = Some []"
| "into_slice (JArray vs) = Some vs"
| "into_slice _ = None"

text \<open>
  Into a \<open>map[string]json.RawMessage\<close>: the inner option is \<open>None\<close> for the nil map that
  \<open>null\<close> leaves. A later member of the same name replaces the earlier one.
\<close>

type_synonym raw_map = "(string \<times> json) list"

definition put_member :: "string \<Rightarrow> json \<Rightarrow> raw_map \<Rightarrow> raw_map" where
  "put_member k v m = (k, v) # filter (\<lambda>e. fst e \<noteq> k) m"

fun into_map :: "json \<Rightarrow> raw_map option option" where
  "into_map JNull = Some None"
| "into_map (JObject ms) = Some (Some (fold (\<lambda>(n, v). put_member (unquote n) v) ms []))"
| "into_map _ = None"

section \<open>Encoding\<close>

fun html_json :: "json \<Rightarrow> json" where
  "html_json (JString l) = JString (html_escape l)"
| "html_json (JArray vs) = JArray (map html_json vs)"
| "html_json (JObject ms) = JObject (map (\<lambda>(n, v). (html_escape n, html_json v)) ms)"
| "html_json v = v"

fun json_tokens :: "json \<Rightarrow> json_token list" where
  "json_tokens (JString l) = [T_text l]"
| "json_tokens (JArray vs) =
     T_open_arr # (case map json_tokens vs of [] \<Rightarrow> [] | k # ks \<Rightarrow> k @ concat (map (\<lambda>k. T_comma # k) ks)) @ [T_close_arr]"
| "json_tokens (JObject ms) =
     T_open_obj # (case map (\<lambda>(n, v). T_text n # T_colon # json_tokens v) ms of
        [] \<Rightarrow> [] | k # ks \<Rightarrow> k @ concat (map (\<lambda>k. T_comma # k) ks)) @ [T_close_obj]"
| "json_tokens v = [T_scalar v]"

fun token_text :: "json_token \<Rightarrow> string" where
  "token_text T_open_obj = ''{''"
| "token_text T_close_obj = ''}''"
| "token_text T_open_arr = ''[''"
| "token_text T_close_arr = '']''"
| "token_text T_colon = '':''"
| "token_text T_comma = '',''"
| "token_text (T_text l) = [CHR 0x22] @ l @ [CHR 0x22]"
| "token_text (T_scalar v) =
     (case v of JNull \<Rightarrow> ''null'' | JBool b \<Rightarrow> (if b then ''true'' else ''false'') | JNumber n \<Rightarrow> n | _ \<Rightarrow> [])"

definition json_print :: "json \<Rightarrow> string" where
  "json_print v = concat (map token_text (json_tokens v))"

text \<open>\<open>Marshal\<close> of a \<open>map[string]json.RawMessage\<close>: the keys in order, the values passed through.\<close>

definition marshal_map :: "raw_map \<Rightarrow> string" where
  "marshal_map m =
     json_print (JObject (map (\<lambda>k. (quote k, html_json (the (map_of m k)))) (sort (map fst m))))"

end
