(* ===== verification/Go_Json_Facts.thy ===== *)
theory Go_Json_Facts
  imports Go_Json
begin

text \<open>
  Reading back what was written. \<open>json_ok n v\<close> holds of a document whose literals are well
  formed and which nests at most \<open>n\<close> deep: the documents the parser returns are of this
  form, and on these the parser undoes the printer.
\<close>

section \<open>Literals\<close>

definition literal :: "string \<Rightarrow> bool" where
  "literal l \<longleftrightarrow> lex_text (l @ [CHR 0x22]) = Some (l, [])"

lemma unit_width_cases:
  assumes "0 < unit_width s"
  obtains (plain) c t where "s = c # t" "c \<noteq> CHR 0x22" "32 \<le> byte c" "c \<noteq> CHR 0x5C" "unit_width s = 1"
  | (letter) e u where "s = CHR 0x5C # e # u" "e \<in> set escape_letters" "unit_width s = 2"
  | (unicode) u where "s = CHR 0x5C # CHR ''u'' # u" "4 \<le> length u" "list_all is_hex (take 4 u)" "unit_width s = 6"
proof -
  from assms obtain c t where s: "s = c # t" and c: "c \<noteq> CHR 0x22" "\<not> byte c < 32"
    unfolding unit_width_def by (cases s) (simp_all split: if_split_asm)
  show thesis
  proof (cases "c = CHR 0x5C")
    case False
    with s c show thesis by (intro plain) (simp_all add: unit_width_def)
  next
    case True
    with assms s obtain e u where t: "t = e # u" unfolding unit_width_def by (cases t) simp_all
    have w: "unit_width s = (if e \<in> set escape_letters then 2
        else if e = CHR ''u'' \<and> 4 \<le> length u \<and> list_all is_hex (take 4 u) then 6 else 0)"
      unfolding s t True unit_width_def by simp
    show thesis
    proof (cases "e \<in> set escape_letters")
      case True
      with w show thesis by (intro letter) (simp_all add: s t \<open>c = CHR 0x5C\<close>)
    next
      case False
      with w assms have e: "e = CHR ''u'' \<and> 4 \<le> length u \<and> list_all is_hex (take 4 u)" by presburger
      with w False have "unit_width s = 6" by (simp only: if_False if_True simp_thms)
      then show thesis using s t \<open>c = CHR 0x5C\<close> e by (intro unicode [of u]) blast+
    qed
  qed
qed

lemma u_no_escape_letter: "CHR ''u'' \<notin> set escape_letters"
  by (simp add: escape_letters_def)

lemma unit_width_plain: "c \<noteq> CHR 0x22 \<Longrightarrow> 32 \<le> byte c \<Longrightarrow> c \<noteq> CHR 0x5C \<Longrightarrow> unit_width (c # t) = 1"
  by (simp add: unit_width_def)

lemma unit_width_letter: "e \<in> set escape_letters \<Longrightarrow> unit_width (CHR 0x5C # e # u) = 2"
  by (simp add: unit_width_def)

lemma unit_width_unicode: "4 \<le> length u \<Longrightarrow> list_all is_hex (take 4 u) \<Longrightarrow> unit_width (CHR 0x5C # CHR ''u'' # u) = 6"
  using u_no_escape_letter by (simp add: unit_width_def)

lemma unit_width_prefix:
  assumes "0 < unit_width s" and "take (unit_width s) s' = take (unit_width s) s"
  shows "unit_width s' = unit_width s"
  using assms(1)
proof (cases rule: unit_width_cases)
  case (plain c t)
  then obtain t' where "s' = c # t'" using assms(2) by (cases s') auto
  then show ?thesis using plain by (simp add: unit_width_plain)
next
  case (letter e u)
  then have "take 2 s' = [CHR 0x5C, e]" using assms(2) by simp
  then obtain u' where "s' = CHR 0x5C # e # u'" by (metis append_Cons append_Nil append_take_drop_id)
  then show ?thesis using letter by (simp add: unit_width_letter)
next
  case (unicode u)
  then have t: "take 6 s' = CHR 0x5C # CHR ''u'' # take 4 u" using assms(2) by simp
  then obtain u' where s': "s' = CHR 0x5C # CHR ''u'' # u'" by (metis append_Cons append_take_drop_id)
  with t have "take 4 u' = take 4 u" by simp
  moreover from this have "4 \<le> length u'" using unicode(2) by (metis length_take min_def nle_le)
  ultimately show ?thesis using unicode s' by (simp add: unit_width_unicode)
qed

lemma unit_width_append: "0 < unit_width s \<Longrightarrow> unit_width (s @ t) = unit_width s"
  by (rule unit_width_prefix) (simp_all add: unit_width_le)

lemma unit_width_take: "0 < unit_width s \<Longrightarrow> unit_width (take (unit_width s) s @ t) = unit_width s"
  by (rule unit_width_prefix) (simp_all add: unit_width_le)

lemma lex_text_unit:
  assumes "0 < unit_width s"
  shows "lex_text s = map_option (\<lambda>(l, r). (take (unit_width s) s @ l, r)) (lex_text (drop (unit_width s) s))"
  using assms by (subst lex_text.simps) (auto simp: unit_width_def split: list.splits)

lemma lex_text_quote [simp]: "lex_text (CHR 0x22 # t) = Some ([], t)"
  by (subst lex_text.simps) simp

lemma lex_text_cases:
  assumes "lex_text s = Some (l, r)"
  obtains (close) "s = CHR 0x22 # r" "l = []"
  | (unit) l' where "0 < unit_width s" "l = take (unit_width s) s @ l'" "lex_text (drop (unit_width s) s) = Some (l', r)"
  using assms by (subst (asm) lex_text.simps) (auto split: list.splits if_split_asm)

lemma lex_text_Some: "lex_text s = Some (l, r) \<Longrightarrow> s = l @ CHR 0x22 # r \<and> lex_text (l @ CHR 0x22 # r') = Some (l, r')"
proof (induction s arbitrary: l rule: lex_text.induct)
  case (1 s)
  from 1(2) show ?case
  proof (cases rule: lex_text_cases)
    case close
    then show ?thesis by simp
  next
    case (unit l')
    let ?w = "unit_width s" and ?tail = "l' @ CHR 0x22 # r'"
    obtain c t where s: "s = c # t" "c \<noteq> CHR 0x22" using unit(1) by (auto simp: unit_width_def split: list.splits if_split_asm)
    have ih: "drop ?w s = l' @ CHR 0x22 # r \<and> lex_text ?tail = Some (l', r')"
      using 1(1) [OF s(1) s(2) _ unit(3)] unit(1) by simp
    have "s = take ?w s @ drop ?w s" by simp
    then have "s = l @ CHR 0x22 # r" using ih unit(2) by (metis append_assoc)
    moreover have w: "unit_width (take ?w s @ ?tail) = ?w" by (rule unit_width_take [OF unit(1)])
    have len: "length (take ?w s) = ?w" using unit_width_le [of s] by simp
    have "lex_text (take ?w s @ ?tail) = Some (take ?w s @ l', r')"
      using ih len by (subst lex_text_unit) (simp_all add: w unit(1))
    ultimately show ?thesis using unit(2) by simp
  qed
qed

lemma literalI: "lex_text s = Some (l, r) \<Longrightarrow> literal l"
  using lex_text_Some [of s l r "[]"] by (simp add: literal_def)

lemma lex_text_literal: "literal l \<Longrightarrow> lex_text (l @ CHR 0x22 # r) = Some (l, r)"
  using lex_text_Some [of "l @ [CHR 0x22]" l "[]" r] by (simp add: literal_def)

lemma literal_Nil [simp, intro]: "literal []"
  by (simp add: literal_def)

lemma literal_unit:
  assumes "unit_width (u @ l) = length u" "u \<noteq> []" "literal l"
  shows "literal (u @ l)"
proof -
  have "unit_width (u @ l @ [CHR 0x22]) = length u"
    using unit_width_append [of "u @ l" "[CHR 0x22]"] assms(1,2) by simp
  then show ?thesis
    using assms(2,3) unfolding literal_def append_assoc by (subst lex_text_unit) simp_all
qed

lemma literal_induct [consumes 1, case_names Nil unit]:
  assumes "literal l" and "P []"
    and "\<And>l. 0 < unit_width l \<Longrightarrow> literal (drop (unit_width l) l) \<Longrightarrow> P (drop (unit_width l) l) \<Longrightarrow> P l"
  shows "P l"
  using assms(1)
proof (induction "length l" arbitrary: l rule: less_induct)
  case less
  have lx: "lex_text (l @ [CHR 0x22]) = Some (l, [])" using less(2) by (simp add: literal_def)
  then show ?case
  proof (cases rule: lex_text_cases)
    case close
    then show ?thesis using assms(2) by simp
  next
    case (unit l')
    let ?w = "unit_width (l @ [CHR 0x22])"
    have tail: "drop ?w (l @ [CHR 0x22]) = l' @ [CHR 0x22]" "literal l'"
      using lex_text_Some [OF unit(3)] literalI [OF unit(3)] by auto
    have le: "?w \<le> length l" using arg_cong [OF unit(2), of length] unit_width_le [of "l @ [CHR 0x22]"] by simp
    have l: "l = take ?w l @ l'" using unit(2) le by simp
    have w: "unit_width l = ?w" by (rule unit_width_prefix [OF unit(1)]) (simp add: le)
    have d: "drop (unit_width l) l = l'" using l le unfolding w
      by (metis append_eq_conv_conj length_take min.absorb2)
    have "length l' < length l" using arg_cong [OF l, of length] unit(1) le by simp
    then have "P l'" using less(1) tail(2) by blast
    then show ?thesis using assms(3) [of l] unit(1) w d tail(2) by simp
  qed
qed

section \<open>Tokens\<close>

fun is_scalar :: "json_token \<Rightarrow> bool" where
  "is_scalar (T_scalar _) = True"
| "is_scalar _ = False"

fun scalar_ok :: "json \<Rightarrow> bool" where
  "scalar_ok JNull = True"
| "scalar_ok (JBool _) = True"
| "scalar_ok (JNumber n) = (json_number n \<and> list_all number_char n)"
| "scalar_ok _ = False"

fun token_ok :: "json_token \<Rightarrow> bool" where
  "token_ok (T_scalar v) = scalar_ok v"
| "token_ok (T_text l) = literal l"
| "token_ok _ = True"

definition no_number :: "string \<Rightarrow> bool" where
  "no_number r \<longleftrightarrow> (case r of [] \<Rightarrow> True | c # _ \<Rightarrow> \<not> number_char c)"

lemma number_char_other:
  assumes "number_char c"
  shows "c \<noteq> CHR 0x22" "punctuation c = None" "\<not> json_space c"
  using assms by (auto simp: number_char_def punctuation_def json_space_def char_class_defs)

lemma takeWhile_number: "list_all number_char n \<Longrightarrow> no_number r \<Longrightarrow>
    takeWhile number_char (n @ r) = n \<and> dropWhile number_char (n @ r) = r"
  by (cases r) (auto simp: no_number_def list_all_iff takeWhile_append dropWhile_append)

lemma next_token_number:
  assumes "json_number n" "list_all number_char n" "no_number r"
  shows "next_token (n @ r) = Some (T_scalar (JNumber n), r)"
proof -
  obtain c t where n: "n = c # t" using assms(1) by (cases n) (simp_all add: json_number_def)
  have c: "number_char c" using assms(2) n by simp
  have "takeWhile number_char (c # t @ r) = n" "dropWhile number_char (c # t @ r) = r"
    using takeWhile_number [OF assms(2,3)] n by simp_all
  then show ?thesis
    using number_char_other [OF c] c assms(1) n unfolding next_token_def by (simp del: takeWhile.simps dropWhile.simps)
qed

lemma next_token_text:
  assumes "token_ok k" and "is_scalar k \<Longrightarrow> no_number r"
  shows "next_token (token_text k @ r) = Some (k, r)"
proof (cases k)
  case (T_text l)
  then show ?thesis using assms(1) by (simp add: next_token_def punctuation_def lex_text_literal)
next
  case (T_scalar v)
  have word: "\<not> number_char CHR ''n''" "\<not> number_char CHR ''t''" "\<not> number_char CHR ''f''"
    by (simp_all add: number_char_def char_class_defs)
  from T_scalar assms show ?thesis
    by (cases v) (auto simp: next_token_number, auto simp: next_token_def punctuation_def has_prefix_def word)
qed (simp_all add: next_token_def punctuation_def)

lemma scalar_text_head:
  assumes "scalar_ok v"
  shows "token_text (T_scalar v) \<noteq> [] \<and> \<not> json_space (hd (token_text (T_scalar v)))"
proof (cases v)
  case (JNumber n)
  then have "json_number n" "list_all number_char n" using assms by simp_all
  then show ?thesis using number_char_other(3) JNumber by (cases n) (simp_all add: json_number_def)
qed (use assms in \<open>simp_all add: json_space_def\<close>)

lemma token_text_head:
  assumes "token_ok k"
  shows "token_text k \<noteq> [] \<and> \<not> json_space (hd (token_text k)) \<and> (\<not> is_scalar k \<longrightarrow> \<not> number_char (hd (token_text k)))"
proof (cases k)
  case (T_scalar v)
  then show ?thesis using assms scalar_text_head [of v] by (simp del: token_text.simps)
qed (simp_all add: json_space_def number_char_def char_class_defs)

lemma lex_step:
  assumes "token_ok k" and "is_scalar k \<Longrightarrow> no_number r" and "lex r = Some ks"
  shows "lex (token_text k @ r) = Some (k # ks)"
proof -
  define t where "t = token_text k @ r"
  have "t \<noteq> []" "dropWhile json_space t = t"
    using token_text_head [OF assms(1)] unfolding t_def by (cases "token_text k"; simp)+
  moreover have "next_token t = Some (k, r)" unfolding t_def by (rule next_token_text [OF assms(1,2)])
  ultimately show ?thesis
    unfolding t_def [symmetric] by (subst lex.simps) (simp add: assms(3))
qed

lemma lex_tokens:
  assumes "list_all token_ok ks" and "successively (\<lambda>a b. \<not> (is_scalar a \<and> is_scalar b)) ks"
  shows "lex (concat (map token_text ks)) = Some ks"
  using assms
proof (induction ks)
  case Nil
  then show ?case by (subst lex.simps) simp
next
  case (Cons k ks)
  have "no_number (concat (map token_text ks))" if "is_scalar k"
  proof (cases ks)
    case (Cons j js)
    then have "token_ok j" "\<not> is_scalar j" using Cons.prems that by auto
    then show ?thesis using Cons token_text_head [of j] by (cases "token_text j") (simp_all add: no_number_def)
  qed (simp add: no_number_def)
  moreover have "lex (concat (map token_text ks)) = Some ks" using Cons by (cases ks) auto
  ultimately show ?case using Cons.prems(1) by (simp add: lex_step)
qed

lemma punctuation_ok: "punctuation c = Some k \<Longrightarrow> token_ok k"
  unfolding punctuation_def by (drule map_of_SomeD) auto

lemma next_token_ok: "next_token s = Some (k, r) \<Longrightarrow> token_ok k"
proof (cases s)
  case (Cons c t)
  have num: "list_all number_char (takeWhile number_char t)" for t
    by (auto simp: list_all_iff dest: set_takeWhileD)
  assume "next_token s = Some (k, r)"
  then consider "punctuation c = Some k" | l where "lex_text t = Some (l, r)" "k = T_text l"
    | "json_number (takeWhile number_char s)" "k = T_scalar (JNumber (takeWhile number_char s))"
    | "k = T_scalar JNull" | b where "k = T_scalar (JBool b)"
    unfolding next_token_def Cons Let_def list.case
    by (simp only: split: option.splits if_split_asm) (auto simp del: takeWhile.simps)
  then show ?thesis
    by cases (simp_all add: punctuation_ok num literalI del: takeWhile.simps)
qed (simp add: next_token_def)

lemma lex_ok: "lex s = Some ks \<Longrightarrow> list_all token_ok ks"
proof (induction s arbitrary: ks rule: lex.induct)
  case (1 s)
  then show ?case
    by (subst (asm) (2) lex.simps)
      (auto simp: Let_def next_token_ok split: if_split_asm option.splits)
qed

section \<open>The stack machine\<close>

fun json_ok :: "nat \<Rightarrow> json \<Rightarrow> bool" where
  "json_ok n (JString l) = literal l"
| "json_ok n (JArray vs) = (0 < n \<and> (\<forall>v \<in> set vs. json_ok (n - 1) v))"
| "json_ok n (JObject ms) = (0 < n \<and> (\<forall>m \<in> set ms. literal (fst m) \<and> json_ok (n - 1) (snd m)))"
| "json_ok n v = scalar_ok v"

lemma run_no_adjacent:
  "run_json ks st w = Some v \<Longrightarrow> successively (\<lambda>a b. \<not> (is_scalar a \<and> is_scalar b)) ks \<and>
     (case w of Have u \<Rightarrow> ks = [] \<or> \<not> is_scalar (hd ks) | _ \<Rightarrow> True)"
  by (induction ks st w rule: run_json.induct)
    (auto simp: successively_Cons split: json_token.splits list.splits json_frame.splits json_state.splits if_split_asm)

lemma json_tokens_array: "json_tokens (JArray (v # vs)) =
    T_open_arr # json_tokens v @ concat (map (\<lambda>u. T_comma # json_tokens u) vs) @ [T_close_arr]"
  by (simp add: comp_def)

lemma json_tokens_object: "json_tokens (JObject ((k, v) # ms)) =
    T_open_obj # T_text k # T_colon # json_tokens v @
      concat (map (\<lambda>(n, u). T_comma # T_text n # T_colon # json_tokens u) ms) @ [T_close_obj]"
  by (simp add: comp_def case_prod_beta')

lemma run_more_values:
  assumes "\<And>u ks us. u \<in> set vs \<Longrightarrow>
      run_json (json_tokens u @ ks) (In_array us # st) Want_value = run_json ks (In_array us # st) (Have u)"
  shows "run_json (concat (map (\<lambda>u. T_comma # json_tokens u) vs) @ T_close_arr # ks) (In_array us # st) (Have v) =
    run_json ks st (Have (JArray (us @ v # vs)))"
  using assms
proof (induction vs arbitrary: us v)
  case (Cons u vs)
  then show ?case using Cons.IH [of "us @ [v]" u] by simp
qed simp

lemma run_more_members:
  assumes "\<And>m u ks ns. (m, u) \<in> set ms \<Longrightarrow>
      run_json (json_tokens u @ ks) (In_member ns m # st) Want_value = run_json ks (In_member ns m # st) (Have u)"
  shows "run_json (concat (map (\<lambda>(n, u). T_comma # T_text n # T_colon # json_tokens u) ms) @ T_close_obj # ks)
      (In_member ns k # st) (Have v) = run_json ks st (Have (JObject (ns @ (k, v) # ms)))"
  using assms
proof (induction ms arbitrary: ns k v)
  case (Cons m ms)
  obtain n u where m: "m = (n, u)" by fastforce
  then show ?case using Cons.IH [of "ns @ [(k, v)]" n u] Cons.prems by simp
qed simp

lemma run_tokens:
  assumes "json_ok n v" and "n + length st \<le> max_depth" and "w = Want_value \<or> w = Want_first_value"
  shows "run_json (json_tokens v @ ks) st w = run_json ks st (Have v)"
  using assms
proof (induction v arbitrary: n st w ks)
  case (JArray vs)
  have n: "0 < n" "\<forall>v \<in> set vs. json_ok (n - 1) v" using JArray.prems(1) by simp_all
  have len: "length st < max_depth" using JArray.prems(2) n by simp
  have step: "run_json (json_tokens u @ ks) (In_array us # st) w = run_json ks (In_array us # st) (Have u)"
    if "u \<in> set vs" "w = Want_value \<or> w = Want_first_value" for u ks us w
    using JArray.IH [OF that(1), of "n - 1" "In_array us # st" w ks] n that JArray.prems(2) by simp
  show ?case
  proof (cases vs)
    case Nil
    then show ?thesis using JArray.prems(3) len by auto
  next
    case (Cons u us)
    have "run_json (json_tokens (JArray vs) @ ks) st w =
        run_json (json_tokens u @ concat (map (\<lambda>u. T_comma # json_tokens u) us) @ T_close_arr # ks)
          (In_array [] # st) Want_first_value"
      using JArray.prems(3) len unfolding Cons json_tokens_array by auto
    also have "\<dots> = run_json (concat (map (\<lambda>u. T_comma # json_tokens u) us) @ T_close_arr # ks)
          (In_array [] # st) (Have u)"
      using Cons by (intro step) simp_all
    also have "\<dots> = run_json ks st (Have (JArray vs))"
      using run_more_values [of us st ks "[]" u] step Cons by simp
    finally show ?thesis .
  qed
next
  case (JObject ms)
  have n: "0 < n" "\<forall>m \<in> set ms. json_ok (n - 1) (snd m)" using JObject.prems(1) by simp_all
  have len: "length st < max_depth" using JObject.prems(2) n by simp
  have step: "run_json (json_tokens u @ ks) (In_member us m # st) Want_value = run_json ks (In_member us m # st) (Have u)"
    if "(m, u) \<in> set ms" for m u ks us
    using JObject.IH [OF that(1), of u "n - 1" "In_member us m # st" Want_value ks] n that(1) JObject.prems(2) by fastforce
  show ?case
  proof (cases ms)
    case Nil
    then show ?thesis using JObject.prems(3) len by auto
  next
    case (Cons m us)
    obtain k u where m: "m = (k, u)" by fastforce
    have "run_json (json_tokens (JObject ms) @ ks) st w =
        run_json (json_tokens u @ concat (map (\<lambda>(n, u). T_comma # T_text n # T_colon # json_tokens u) us) @ T_close_obj # ks)
          (In_member [] k # st) Want_value"
      using JObject.prems(3) len unfolding Cons m json_tokens_object by auto
    also have "\<dots> = run_json (concat (map (\<lambda>(n, u). T_comma # T_text n # T_colon # json_tokens u) us) @ T_close_obj # ks)
          (In_member [] k # st) (Have u)"
      using Cons m by (intro step) simp
    also have "\<dots> = run_json ks st (Have (JObject ms))"
      using run_more_members [of us st ks "[]" k u] step Cons m by simp
    finally show ?thesis .
  qed
qed auto

fun frame_ok :: "nat \<Rightarrow> json_frame \<Rightarrow> bool" where
  "frame_ok n (In_array vs) = (\<forall>v \<in> set vs. json_ok n v)"
| "frame_ok n (In_object ms) = (\<forall>m \<in> set ms. literal (fst m) \<and> json_ok n (snd m))"
| "frame_ok n (In_member ms k) = (literal k \<and> (\<forall>m \<in> set ms. literal (fst m) \<and> json_ok n (snd m)))"

fun stack_ok :: "json_frame list \<Rightarrow> bool" where
  "stack_ok [] = True"
| "stack_ok (f # st) = (length st < max_depth \<and> frame_ok (max_depth - Suc (length st)) f \<and> stack_ok st)"

definition state_ok :: "nat \<Rightarrow> json_state \<Rightarrow> bool" where
  "state_ok n w \<longleftrightarrow> (case w of Have v \<Rightarrow> json_ok n v | _ \<Rightarrow> True)"

lemma json_ok_scalar: "scalar_ok v \<Longrightarrow> json_ok n v"
  by (cases v) simp_all

lemma run_ok:
  "run_json ks st w = Some v \<Longrightarrow> list_all token_ok ks \<Longrightarrow> stack_ok st \<Longrightarrow> state_ok (max_depth - length st) w \<Longrightarrow>
     json_ok max_depth v"
proof (induction ks st w rule: run_json.induct)
  case (1 v)
  then show ?case by (simp add: state_ok_def)
qed (auto simp: state_ok_def json_ok_scalar
  split: json_token.splits list.splits json_frame.splits if_split_asm)

lemma json_tokens_ok: "json_ok n v \<Longrightarrow> list_all token_ok (json_tokens v)"
proof (induction v arbitrary: n)
  case (JArray vs)
  then have all: "\<And>u. u \<in> set vs \<Longrightarrow> list_all token_ok (json_tokens u)" by fastforce
  show ?case
  proof (cases vs)
    case (Cons u us)
    show ?thesis using all unfolding Cons json_tokens_array by (auto simp: list_all_iff)
  qed simp
next
  case (JObject ms)
  then have all: "\<And>k u. (k, u) \<in> set ms \<Longrightarrow> literal k \<and> list_all token_ok (json_tokens u)" by fastforce
  show ?case
  proof (cases ms)
    case (Cons m us)
    obtain k u where m: "m = (k, u)" by fastforce
    have "literal k \<and> list_all token_ok (json_tokens u)"
      and "\<And>k u. (k, u) \<in> set us \<Longrightarrow> literal k \<and> list_all token_ok (json_tokens u)"
      using all unfolding Cons m by (meson list.set_intros)+
    then show ?thesis unfolding Cons m json_tokens_object by (fastforce simp: list_all_iff)
  qed simp
qed auto

text \<open>What is printed is read back, and what is read can be printed.\<close>

theorem json_roundtrip:
  assumes "json_ok max_depth v"
  shows "json_parse (json_print v) = Some v"
proof -
  have run: "run_json (json_tokens v) [] Want_value = Some v"
    using run_tokens [OF assms, of "[]" Want_value "[]"] by simp
  have "lex (json_print v) = Some (json_tokens v)"
    unfolding json_print_def using run_no_adjacent [OF run] json_tokens_ok [OF assms] by (intro lex_tokens) blast+
  then show ?thesis by (simp add: json_parse_def run)
qed

lemma json_parse_ok: "json_parse s = Some v \<Longrightarrow> json_ok max_depth v"
  unfolding json_parse_def
  by (auto split: Option.bind_splits dest!: lex_ok elim!: run_ok simp: state_ok_def)

end
