(* ===== verification/Go_Json_Text.thy ===== *)
theory Go_Json_Text
  imports Go_Json_Facts
begin

text \<open>
  The text of string literals: quoting is undone by unquoting on valid UTF-8, unquoting
  yields valid UTF-8, and the HTML escaping of \<open>Marshal\<close> leaves literals well formed and
  does not change the text they stand for.
\<close>

section \<open>UTF-8\<close>

lemma decode_rune_ascii_eq: "byte c < 128 \<Longrightarrow> decode_rune (c # s) = (byte c, 1)"
  by simp

lemma encode_rune_byte: "byte c < 128 \<Longrightarrow> encode_rune (byte c) = [c]"
  by (simp add: encode_rune_def)

text \<open>Decoding looks at no more than the continuation bytes that follow.\<close>

lemma decode_rune_cong:
  assumes "takeWhile continuation (take 3 s) = takeWhile continuation (take 3 t)"
  shows "decode_rune (a # s) = decode_rune (a # t)"
proof -
  have not_cont: "\<not> in_range lo hi b" if "\<not> continuation b" "128 \<le> lo" "hi \<le> 191" for lo hi b
    using that by (auto simp: in_range_def continuation_def)
  have only: "decode_rune (a # s) = decode_rune (a # takeWhile continuation (take 3 s))" for s
  proof -
    consider "s = []" | b where "s = [b]" | b c where "s = [b, c]" | b c d u where "s = b # c # d # u"
      by (metis neq_Nil_conv)
    then show ?thesis
    proof cases
      case (4 b c d u)
      show ?thesis unfolding 4
        by (cases "continuation b"; cases "continuation c"; cases "continuation d") (simp_all add: Let_def not_cont numeral_3_eq_3)
    next
      case (3 b c)
      show ?thesis unfolding 3
        by (cases "continuation b"; cases "continuation c") (simp_all add: Let_def not_cont numeral_3_eq_3)
    qed (simp_all add: Let_def not_cont)
  qed
  show ?thesis using only [of s] only [of t] assms by simp
qed

lemma byte_char_of' [simp]: "n < 256 \<Longrightarrow> byte (char_of (n :: nat)) = n"
  by (rule byte_char_of)

text \<open>A sequence of bytes that decodes is the encoding of its code point.\<close>

definition continuations :: "string \<Rightarrow> bool" where
  "continuations s \<longleftrightarrow> list_all continuation s"

lemma char_of_eq_byte: "n = byte c \<Longrightarrow> char_of n = c"
  by simp

lemma continuation_range: "continuation b \<longleftrightarrow> (\<exists>y. byte b = 128 + y \<and> y < 64)"
  by (auto simp: continuation_def in_range_def intro!: exI [of _ "byte b - 128"])

lemma in_range_continuation: "in_range lo hi b \<Longrightarrow> 128 \<le> lo \<Longrightarrow> hi \<le> 191 \<Longrightarrow> continuation b"
  by (simp add: in_range_def continuation_def)

lemma low_digit: "z < 64 \<Longrightarrow> (m * 64 + z) div 64 = m \<and> (m * 64 + z) mod 64 = (z :: nat)"
  by simp

lemma encode_two:
  assumes "194 \<le> byte a" "byte a \<le> 223" "continuation b"
  shows "encode_rune ((byte a - 192) * 64 + (byte b - 128)) = [a, b]"
proof -
  define x where "x = byte a - 192"
  obtain y where y: "byte b = 128 + y" "y < 64" using assms(3) continuation_range by blast
  have x: "byte a = 192 + x" "2 \<le> x" "x < 32" using assms(1,2) by (simp_all add: x_def)
  have "\<not> x * 64 + y < 128" "x * 64 + y < 2048" "(x * 64 + y) div 64 = x" "(x * 64 + y) mod 64 = y"
    using x y by simp_all
  then show ?thesis using x y by (simp add: encode_rune_def char_of_eq_byte)
qed

lemma encode_three:
  assumes "224 \<le> byte a" "byte a \<le> 239" "continuation c"
    and "in_range (if byte a = 224 then 160 else 128) (if byte a = 237 then 159 else 191) b"
  shows "encode_rune ((byte a - 224) * 4096 + (byte b - 128) * 64 + (byte c - 128)) = [a, b, c]"
proof -
  define x where "x = byte a - 224"
  have "continuation b" using assms(4) by (rule in_range_continuation) auto
  then obtain y where y: "byte b = 128 + y" "y < 64" using continuation_range by blast
  obtain z where z: "byte c = 128 + z" "z < 64" using assms(3) continuation_range by blast
  have x: "byte a = 224 + x" "x < 16" using assms(1,2) by (simp_all add: x_def)
  define r where "r = x * 4096 + y * 64 + z"
  have lo: "x = 0 \<Longrightarrow> 32 \<le> y" and sur: "x = 13 \<Longrightarrow> y < 32"
    using assms(4) x y by (simp_all add: in_range_def)
  have "2048 \<le> r" using lo x by (cases "x = 0") (simp_all add: r_def)
  moreover have "\<not> (55296 \<le> r \<and> r \<le> 57343)"
  proof
    assume r: "55296 \<le> r \<and> r \<le> 57343"
    then have "\<not> x < 13" "\<not> 13 < x" using y z unfolding r_def by linarith+
    then have "x = 13" by simp
    with sur r z show False unfolding r_def by simp
  qed
  moreover have "r < 65536" using x y z by (simp add: r_def)
  moreover have "r div 4096 = x" "r div 64 mod 64 = y" "r mod 64 = z"
  proof -
    have r: "r = (x * 64 + y) * 64 + z" by (simp add: r_def)
    have d: "r div 64 = x * 64 + y" "r mod 64 = z" using low_digit [OF z(2), of "x * 64 + y"] unfolding r by blast+
    have "r div 4096 = r div 64 div 64" by (simp add: div_mult2_eq [symmetric])
    then show "r div 4096 = x" "r div 64 mod 64 = y" "r mod 64 = z"
      using d low_digit [OF y(2), of x] by simp_all
  qed
  ultimately have "encode_rune r = [char_of (224 + x), char_of (128 + y), char_of (128 + z)]"
    unfolding encode_rune_def by auto
  then have "encode_rune r = [a, b, c]" using x y z by (simp add: char_of_eq_byte)
  then show ?thesis using x y z by (simp add: r_def)
qed

lemma encode_four:
  assumes "240 \<le> byte a" "byte a \<le> 244" "continuation c" "continuation d"
    and "in_range (if byte a = 240 then 144 else 128) (if byte a = 244 then 143 else 191) b"
  shows "encode_rune ((byte a - 240) * 262144 + (byte b - 128) * 4096 + (byte c - 128) * 64 + (byte d - 128)) = [a, b, c, d]"
proof -
  define x where "x = byte a - 240"
  have "continuation b" using assms(5) by (rule in_range_continuation) auto
  then obtain y where y: "byte b = 128 + y" "y < 64" using continuation_range by blast
  obtain z where z: "byte c = 128 + z" "z < 64" using assms(3) continuation_range by blast
  obtain u where u: "byte d = 128 + u" "u < 64" using assms(4) continuation_range by blast
  have x: "byte a = 240 + x" "x \<le> 4" using assms(1,2) by (simp_all add: x_def)
  define r where "r = x * 262144 + y * 4096 + z * 64 + u"
  have lo: "x = 0 \<Longrightarrow> 16 \<le> y" and hi: "x = 4 \<Longrightarrow> y < 16"
    using assms(5) x y by (simp_all add: in_range_def)
  have "65536 \<le> r" using lo x by (cases "x = 0") (simp_all add: r_def)
  moreover have "r \<le> 1114111" using hi x y z u by (cases "x = 4") (simp_all add: r_def)
  moreover have "r div 262144 = x" "r div 4096 mod 64 = y" "r div 64 mod 64 = z" "r mod 64 = u"
  proof -
    have r: "r = ((x * 64 + y) * 64 + z) * 64 + u" by (simp add: r_def)
    have d: "r div 64 = (x * 64 + y) * 64 + z" "r mod 64 = u"
      using low_digit [OF u(2), of "(x * 64 + y) * 64 + z"] unfolding r by blast+
    have e: "r div 4096 = r div 64 div 64" "r div 262144 = r div 64 div 64 div 64"
      by (simp_all add: div_mult2_eq [symmetric])
    show "r div 262144 = x" "r div 4096 mod 64 = y" "r div 64 mod 64 = z" "r mod 64 = u"
      using d e low_digit [OF z(2), of "x * 64 + y"] low_digit [OF y(2), of x] by simp_all
  qed
  ultimately have "encode_rune r = [char_of (240 + x), char_of (128 + y), char_of (128 + z), char_of (128 + u)]"
    unfolding encode_rune_def by auto
  then have "encode_rune r = [a, b, c, d]" using x y z u by (simp add: char_of_eq_byte)
  then show ?thesis using x y z u by (simp add: r_def)
qed

lemma decode_rune_multi:
  assumes "decode_rune (a # s) = (r, w)" and "2 \<le> w"
  obtains cs t where "s = cs @ t" "length cs = w - 1" "list_all continuation cs" "encode_rune r = a # cs"
    "\<And>x. decode_rune (a # cs @ x) = (r, w)"
proof -
  have w: "snd (decode_rune (a # s)) \<noteq> 1" using assms by simp
  consider b t where "s = b # t" "194 \<le> byte a" "byte a \<le> 223" "continuation b"
      "decode_rune (a # s) = ((byte a - 192) * 64 + (byte b - 128), 2)"
    | b c t where "s = b # c # t" "224 \<le> byte a" "byte a \<le> 239" "continuation c"
      "in_range (if byte a = 224 then 160 else 128) (if byte a = 237 then 159 else 191) b"
      "decode_rune (a # s) = ((byte a - 224) * 4096 + (byte b - 128) * 64 + (byte c - 128), 3)"
    | b c d t where "s = b # c # d # t" "240 \<le> byte a" "byte a \<le> 244" "continuation c" "continuation d"
      "in_range (if byte a = 240 then 144 else 128) (if byte a = 244 then 143 else 191) b"
      "decode_rune (a # s) = ((byte a - 240) * 262144 + (byte b - 128) * 4096 + (byte c - 128) * 64 + (byte d - 128), 4)"
    using w unfolding decode_rune.simps Let_def
    by (simp only: split: if_split_asm list.split_asm) (simp_all only: snd_conv simp_thms if_True if_False list.case)
  then show thesis
  proof cases
    case (1 b t)
    then show thesis using assms encode_two [of a b] by (intro that [of "[b]" t]) simp_all
  next
    case (2 b c t)
    then have "continuation b" by (auto intro: in_range_continuation)
    then show thesis using 2 assms encode_three [of a c b] by (intro that [of "[b, c]" t]) simp_all
  next
    case (3 b c d t)
    then have "continuation b" by (auto intro: in_range_continuation)
    then show thesis using 3 assms encode_four [of a c d b] by (intro that [of "[b, c, d]" t]) simp_all
  qed
qed

lemma decode_two: "2 \<le> x \<Longrightarrow> x < 32 \<Longrightarrow> y < 64 \<Longrightarrow>
    decode_rune (char_of (192 + x) # char_of (128 + y) # s) = (x * 64 + y, 2)"
  by (simp add: continuation_def in_range_def byte_char_of)

lemma decode_three: "x < 16 \<Longrightarrow> y < 64 \<Longrightarrow> z < 64 \<Longrightarrow> (x = 0 \<longrightarrow> 32 \<le> y) \<Longrightarrow> (x = 13 \<longrightarrow> y < 32) \<Longrightarrow>
    decode_rune (char_of (224 + x) # char_of (128 + y) # char_of (128 + z) # s) = (x * 4096 + y * 64 + z, 3)"
  by (auto simp: continuation_def in_range_def byte_char_of)

lemma decode_four: "x < 5 \<Longrightarrow> y < 64 \<Longrightarrow> z < 64 \<Longrightarrow> u < 64 \<Longrightarrow> (x = 0 \<longrightarrow> 16 \<le> y) \<Longrightarrow> (x = 4 \<longrightarrow> y < 16) \<Longrightarrow>
    decode_rune (char_of (240 + x) # char_of (128 + y) # char_of (128 + z) # char_of (128 + u) # s) =
      (x * 262144 + y * 4096 + z * 64 + u, 4)"
  by (auto simp: continuation_def in_range_def byte_char_of)

lemma encode_rune_three: "2048 \<le> r \<Longrightarrow> r < 65536 \<Longrightarrow> \<not> (55296 \<le> r \<and> r \<le> 57343) \<Longrightarrow> encode_rune r =
    [char_of (224 + r div 4096), char_of (128 + r div 64 mod 64), char_of (128 + r mod 64)]"
  unfolding encode_rune_def by auto

lemma encode_rune_four: "65536 \<le> r \<Longrightarrow> r \<le> 1114111 \<Longrightarrow> encode_rune r =
    [char_of (240 + r div 262144), char_of (128 + r div 4096 mod 64), char_of (128 + r div 64 mod 64), char_of (128 + r mod 64)]"
  unfolding encode_rune_def by auto

lemma decode_encode: "\<exists>q. decode_rune (encode_rune r @ s) = (q, length (encode_rune r)) \<and> (q, length (encode_rune r)) \<noteq> (65533, 1)"
proof -
  consider "r < 128" | "128 \<le> r" "r < 2048" | "(55296 \<le> r \<and> r \<le> 57343) \<or> 1114111 < r"
    | "2048 \<le> r" "r < 65536" "\<not> (55296 \<le> r \<and> r \<le> 57343)" | "65536 \<le> r" "r \<le> 1114111"
    by linarith
  then show ?thesis
  proof cases
    case 1
    then show ?thesis by (simp add: encode_rune_def byte_char_of)
  next
    case 2
    then have "2 \<le> r div 64" "r div 64 < 32" by linarith+
    then show ?thesis
      using 2 decode_two [of "r div 64" "r mod 64" s] by (simp add: encode_rune_def del: decode_rune.simps)
  next
    case 3
    then have e: "encode_rune r = [char_of (224 + 15 :: nat), char_of (128 + 63 :: nat), char_of (128 + 61 :: nat)]"
      by (auto simp: encode_rune_def)
    show ?thesis unfolding e using decode_three [of 15 63 61 s] by (simp del: decode_rune.simps)
  next
    case 4
    have d: "r div 4096 < 16" using 4 by linarith
    have "32 \<le> r div 64 mod 64" if "r div 4096 = 0" using that 4 by (simp add: div_eq_0_iff)
    moreover have "r div 64 mod 64 < 32" if "r div 4096 = 13"
    proof -
      have "r < 55296" using 4(3) that by linarith
      then have "r div 64 < 864" by linarith
      moreover have "r div 64 div 64 = 13" using that by (simp add: div_mult2_eq [symmetric])
      ultimately show ?thesis by (simp add: modulo_nat_def)
    qed
    ultimately show ?thesis
      using 4 d decode_three [of "r div 4096" "r div 64 mod 64" "r mod 64" s]
      unfolding encode_rune_three [OF 4] by (simp del: decode_rune.simps)
  next
    case 5
    have d: "r div 262144 < 5" using 5 by linarith
    have q: "r div 262144 = r div 4096 div 64" by (simp add: div_mult2_eq [symmetric])
    have "16 \<le> r div 4096 mod 64" if "r div 262144 = 0" using that 5 q by (simp add: div_eq_0_iff)
    moreover have "r div 4096 mod 64 < 16" if "r div 262144 = 4"
    proof -
      have "r div 4096 < 272" using 5 by linarith
      then show ?thesis using that q by (simp add: modulo_nat_def)
    qed
    ultimately show ?thesis
      using 5 d decode_four [of "r div 262144" "r div 4096 mod 64" "r div 64 mod 64" "r mod 64" s]
      unfolding encode_rune_four [OF 5] by (simp del: decode_rune.simps)
  qed
qed

lemma utf8_valid_encode: "utf8_valid s \<Longrightarrow> utf8_valid (encode_rune r @ s)"
proof -
  obtain q where q: "decode_rune (encode_rune r @ s) = (q, length (encode_rune r))" "(q, length (encode_rune r)) \<noteq> (65533, 1)"
    using decode_encode by blast
  have "encode_rune r @ s \<noteq> []" by (auto simp: encode_rune_def)
  then have "runes (encode_rune r @ s) = (q, length (encode_rune r)) # runes s"
    using q(1) by (subst runes.simps) (simp del: decode_rune.simps)
  then show "utf8_valid s \<Longrightarrow> ?thesis" using q(2) by (simp add: utf8_valid_def)
qed

lemma utf8_valid_ascii: "byte c < 128 \<Longrightarrow> utf8_valid s \<Longrightarrow> utf8_valid (c # s)"
  using utf8_valid_encode [of s "byte c"] by (simp add: encode_rune_byte)

lemma utf8_valid_Nil [simp]: "utf8_valid []"
  by (simp add: utf8_valid_def)

section \<open>Unquoting\<close>

lemma unquote_Nil [simp]: "unquote [] = []"
  by (subst unquote.simps) simp

lemma unquote_plain: "c \<noteq> CHR 0x5C \<Longrightarrow> unquote (c # t) =
    encode_rune (fst (decode_rune (c # t))) @ unquote (drop (snd (decode_rune (c # t)) - 1) t)"
  by (subst unquote.simps) (simp add: case_prod_beta' Let_def del: decode_rune.simps)

lemma unquote_letter: "e \<noteq> CHR ''u'' \<Longrightarrow> unquote (CHR 0x5C # e # u) = unescape_letter e # unquote u"
  by (subst unquote.simps) simp

lemma unquote_unicode: "unquote (CHR 0x5C # CHR ''u'' # u) =
    (let r = hex4 u; low = hex4 (drop 6 u) in
     if 55296 \<le> r \<and> r \<le> 56319 \<and> take 2 (drop 4 u) = [CHR 0x5C, CHR ''u''] \<and> 56320 \<le> low \<and> low \<le> 57343
     then encode_rune ((r - 55296) * 1024 + (low - 56320) + 65536) @ unquote (drop 10 u)
     else encode_rune r @ unquote (drop 4 u))"
  by (subst unquote.simps) (simp add: Let_def)

lemma unquote_unicode_single: "\<not> (55296 \<le> hex4 u \<and> hex4 u \<le> 56319) \<Longrightarrow>
    unquote (CHR 0x5C # CHR ''u'' # u) = encode_rune (hex4 u) @ unquote (drop 4 u)"
  unfolding unquote_unicode Let_def by (rule if_not_P) blast

lemma unquote_ascii: "c \<noteq> CHR 0x5C \<Longrightarrow> byte c < 128 \<Longrightarrow> unquote (c # t) = c # unquote t"
  by (simp add: unquote_plain encode_rune_byte)

lemma escape_letter_ascii:
  assumes "e \<in> set escape_letters"
  shows "byte (unescape_letter e) < 128" "e \<noteq> CHR ''u''" "byte e < 128" "e \<notin> set ''<>&''"
  using assms unfolding escape_letters_def list.set insert_iff empty_iff
  by (elim disjE; simp add: unescape_letter_def)+

lemma literal_cases:
  assumes "literal l"
  obtains (empty) "l = []"
  | (plain) c t where "l = c # t" "c \<noteq> CHR 0x22" "32 \<le> byte c" "c \<noteq> CHR 0x5C" "literal t"
  | (letter) e u where "l = CHR 0x5C # e # u" "e \<in> set escape_letters" "literal u"
  | (unicode) u where "l = CHR 0x5C # CHR ''u'' # u" "4 \<le> length u" "list_all is_hex (take 4 u)" "literal (drop 4 u)"
proof (cases "l = []")
  case False
  have "l = [] \<or> (0 < unit_width l \<and> literal (drop (unit_width l) l))"
    using assms by (induction rule: literal_induct) simp_all
  with False have unit: "0 < unit_width l" "literal (drop (unit_width l) l)" by blast+
  from unit(1) show thesis
  proof (cases rule: unit_width_cases)
    case (plain c t)
    with unit(2) show thesis by (intro that(2)) simp_all
  next
    case (letter e u)
    with unit(2) show thesis by (intro that(3)) simp_all
  next
    case (unicode u)
    with unit(2) show thesis by (intro that(4)) (simp_all add: eval_nat_numeral)
  qed
qed (rule that(1))

lemma literal_plain_iff:
  assumes "c \<noteq> CHR 0x22" "32 \<le> byte c" "c \<noteq> CHR 0x5C"
  shows "literal (c # t) \<longleftrightarrow> literal t"
proof
  assume "literal (c # t)"
  then show "literal t" using assms by (cases rule: literal_cases) auto
next
  assume "literal t"
  then show "literal (c # t)" using literal_unit [of "[c]" t] assms by (simp add: unit_width_plain)
qed

lemma continuation_plain: "continuation c \<Longrightarrow> c \<noteq> CHR 0x22 \<and> 32 \<le> byte c \<and> c \<noteq> CHR 0x5C"
  by (auto simp: continuation_def in_range_def)

lemma literal_continuations: "list_all continuation cs \<Longrightarrow> literal (cs @ t) \<longleftrightarrow> literal t"
  by (induction cs) (auto simp: literal_plain_iff continuation_plain)

lemma literal_surrogate:
  assumes "literal u" "take 2 u = [CHR 0x5C, CHR ''u'']"
  shows "literal (drop 6 u)"
proof -
  obtain v where v: "u = CHR 0x5C # CHR ''u'' # v"
    using assms(2) by (metis append_Cons append_take_drop_id)
  from assms(1) show ?thesis
  proof (cases rule: literal_cases)
    case (unicode v)
    then show ?thesis by simp
  next
    case (letter e w)
    then have "e = CHR ''u''" using v by (simp only: list.inject)
    then show ?thesis using escape_letter_ascii(2) [OF letter(2)] by contradiction
  next
    case (plain c t)
    then show ?thesis using v by (simp only: list.inject)
  next
    case empty
    then show ?thesis by simp
  qed
qed

text \<open>The first step of \<open>unquote\<close> on a literal, and what is left.\<close>

lemma unquote_step:
  assumes "literal l" "l \<noteq> []"
  obtains r l' where "unquote l = encode_rune r @ unquote l'" "literal l'" "length l' < length l"
  using assms(1)
proof (cases rule: literal_cases)
  case (plain c t)
  obtain r w where rw: "decode_rune (c # t) = (r, w)" by fastforce
  have u: "unquote l = encode_rune r @ unquote (drop (w - 1) t)"
    using unquote_plain [OF plain(4), of t] rw plain(1) by (simp del: decode_rune.simps)
  show thesis
  proof (cases "2 \<le> w")
    case True
    obtain cs t' where "t = cs @ t'" "length cs = w - 1" "list_all continuation cs"
      using decode_rune_multi [OF rw True] by blast
    then show thesis using u plain literal_continuations [of cs t'] by (intro that [of r t']) simp_all
  next
    case False
    then show thesis using u plain by (intro that [of r t]) simp_all
  qed
next
  case (letter e u)
  have "[unescape_letter e] = encode_rune (byte (unescape_letter e))"
    using escape_letter_ascii [OF letter(2)] by (simp add: encode_rune_byte)
  then show thesis
    using letter unquote_letter [OF escape_letter_ascii(2) [OF letter(2)], of u]
    by (intro that [of "byte (unescape_letter e)" u]) simp_all
next
  case (unicode u)
  have len: "length (drop 10 u) < length l" "length (drop 4 u) < length l" using unicode(1) by simp_all
  have "literal (drop 10 u)" if "take 2 (drop 4 u) = [CHR 0x5C, CHR ''u'']"
    using literal_surrogate [OF unicode(4) that] by simp
  note pair = that [OF _ this len(1)]
  show thesis
  proof (cases "unquote l = encode_rune (hex4 u) @ unquote (drop 4 u)")
    case True
    then show thesis by (rule that [OF _ unicode(4) len(2)])
  next
    case False
    obtain r where "take 2 (drop 4 u) = [CHR 0x5C, CHR ''u'']" "unquote l = encode_rune r @ unquote (drop 10 u)"
      using False unquote_unicode [of u] unfolding unicode(1) [symmetric] Let_def
      by (metis (no_types, lifting))
    then show thesis by (intro pair)
  qed
next
  case empty
  then show thesis using assms(2) by contradiction
qed

lemma unquote_valid: "literal l \<Longrightarrow> utf8_valid (unquote l)"
proof (induction "length l" arbitrary: l rule: less_induct)
  case less
  show ?case
  proof (cases "l = []")
    case False
    with less show ?thesis using unquote_step [OF less(2) False] utf8_valid_encode by metis
  qed simp
qed

section \<open>Quoting\<close>

lemma hex_value_digit: "n < 16 \<Longrightarrow> hex_value (hex_digit n) = n \<and> is_hex (hex_digit n)"
  using byte_hex_digit [of n] by (auto simp: hex_value_def is_hex_def char_class_defs)

lemma hex_digits: "r < 65536 \<Longrightarrow> r div 4096 < 16 \<and> r div 256 mod 16 < 16 \<and> r div 16 mod 16 < 16 \<and> r mod 16 < (16 :: nat)"
  by linarith

lemma length_unicode_escape [simp]: "length (unicode_escape r) = 6"
  by (simp add: unicode_escape_def)

lemma unicode_escape_split:
  assumes "r < 65536"
  obtains h where "unicode_escape r = CHR 0x5C # CHR ''u'' # h" "length h = 4" "list_all is_hex h"
    "\<And>t. hex4 (h @ t) = r"
proof -
  let ?h = "[hex_digit (r div 4096), hex_digit (r div 256 mod 16), hex_digit (r div 16 mod 16), hex_digit (r mod 16)]"
  have compose: "m = 16 * q + l" if "q = m div 16" "l = m mod 16" for m q l :: nat
    using that by simp
  have d: "r div 256 = r div 16 div 16" "r div 4096 = r div 256 div 16"
    by (simp_all add: div_mult2_eq [symmetric])
  have "r = 16 * (16 * (16 * (r div 4096) + r div 256 mod 16) + r div 16 mod 16) + r mod 16"
    using compose [OF refl refl, of r] compose [OF d(1) refl] compose [OF d(2) refl] by presburger
  then have "hex4 (?h @ t) = r" for t
    using hex_digits [OF assms] by (simp add: hex4_def hex_value_digit)
  then show thesis
    using hex_digits [OF assms] by (intro that [of ?h]) (simp_all add: unicode_escape_def hex_value_digit)
qed

lemma unquote_unicode_escape:
  assumes "r < 65536" "r < 55296 \<or> 56319 < r"
  shows "unquote (unicode_escape r @ t) = encode_rune r @ unquote t"
proof -
  obtain h where h: "unicode_escape r = CHR 0x5C # CHR ''u'' # h" "length h = 4" "hex4 (h @ t) = r"
    using unicode_escape_split [OF assms(1)] by metis
  then show ?thesis using unquote_unicode_single [of "h @ t"] assms(2) by auto
qed

lemma literal_unicode_escape: "r < 65536 \<Longrightarrow> literal t \<Longrightarrow> literal (unicode_escape r @ t)"
  by (rule unicode_escape_split [of r], assumption, rule literal_unit)
    (simp_all add: unit_width_unicode list_all_append [symmetric])

lemma literal_letter: "e \<in> set escape_letters \<Longrightarrow> literal u \<Longrightarrow> literal (CHR 0x5C # e # u)"
  using literal_unit [of "[CHR 0x5C, e]" u] by (simp add: unit_width_letter)

lemma quote_ascii_cases:
  obtains (letter) e where "quote_ascii c = [CHR 0x5C, e]" "e \<in> set escape_letters" "unescape_letter e = c"
  | (unicode) "quote_ascii c = unicode_escape (byte c)" "c \<noteq> CHR 0x5C"
  | (plain) "quote_ascii c = [c]" "c \<noteq> CHR 0x5C" "c \<noteq> CHR 0x22" "32 \<le> byte c"
proof -
  have letters: "CHR 0x22 \<in> set escape_letters" "CHR 0x5C \<in> set escape_letters" "CHR ''b'' \<in> set escape_letters"
    "CHR ''f'' \<in> set escape_letters" "CHR ''n'' \<in> set escape_letters" "CHR ''r'' \<in> set escape_letters"
    "CHR ''t'' \<in> set escape_letters"
    by (simp_all add: escape_letters_def)
  have images: "unescape_letter (CHR 0x22) = CHR 0x22" "unescape_letter (CHR 0x5C) = CHR 0x5C"
    "unescape_letter CHR ''b'' = CHR 0x08" "unescape_letter CHR ''f'' = CHR 0x0C" "unescape_letter CHR ''n'' = CHR 0x0A"
    "unescape_letter CHR ''r'' = CHR 0x0D" "unescape_letter CHR ''t'' = CHR 0x09"
    by (simp_all add: unescape_letter_def)
  show thesis
  proof (cases "c \<in> {CHR 0x5C, CHR 0x22, CHR 0x08, CHR 0x0C, CHR 0x0A, CHR 0x0D, CHR 0x09}")
    case True
    then show thesis unfolding insert_iff empty_iff
      by (elim disjE FalseE)
        (rule letter [OF _ letters(2)], simp add: quote_ascii_def, simp only: images(2),
         rule letter [OF _ letters(1)], simp add: quote_ascii_def, simp only: images(1),
         rule letter [OF _ letters(3)], simp add: quote_ascii_def, simp only: images(3),
         rule letter [OF _ letters(4)], simp add: quote_ascii_def, simp only: images(4),
         rule letter [OF _ letters(5)], simp add: quote_ascii_def, simp only: images(5),
         rule letter [OF _ letters(6)], simp add: quote_ascii_def, simp only: images(6),
         rule letter [OF _ letters(7)], simp add: quote_ascii_def, simp only: images(7))
  next
    case False
    then have ne: "c \<noteq> CHR 0x5C" "c \<noteq> CHR 0x22" "c \<noteq> CHR 0x08" "c \<noteq> CHR 0x0C" "c \<noteq> CHR 0x0A" "c \<noteq> CHR 0x0D" "c \<noteq> CHR 0x09"
      unfolding insert_iff empty_iff by blast+
    then have "quote_ascii c = (if byte c < 32 \<or> c \<in> set ''<>&'' then unicode_escape (byte c) else [c])"
      unfolding quote_ascii_def by (simp only: if_False simp_thms)
    then show thesis
    proof (cases "byte c < 32 \<or> c \<in> set ''<>&''")
      case True
      with \<open>quote_ascii c = _\<close> ne(1) show thesis by (intro unicode) (simp_all only: if_True not_False_eq_True)
    next
      case False
      with \<open>quote_ascii c = _\<close> ne(1,2) show thesis by (intro plain) (simp_all only: if_False not_less de_Morgan_disj not_False_eq_True)
    qed
  qed
qed

lemma quote_Nil [simp]: "quote [] = []"
  by (subst quote.simps) simp

lemma quote_ascii_step: "byte c < 128 \<Longrightarrow> quote (c # t) = quote_ascii c @ quote t"
  by (subst quote.simps) simp

lemma quote_multi_step: "\<not> byte c < 128 \<Longrightarrow> decode_rune (c # t) = (r, w) \<Longrightarrow> quote (c # t) =
    (if r = 65533 \<and> w = 1 \<or> r = 8232 \<or> r = 8233 then unicode_escape r else take w (c # t)) @ quote (drop (w - 1) t)"
  by (subst quote.simps) (simp del: decode_rune.simps)

lemma decode_rune_width_pos: "decode_rune (c # t) = (r, w) \<Longrightarrow> 1 \<le> w \<and> w \<le> Suc (length t)"
  using decode_rune_width [of "c # t"] by (simp del: decode_rune.simps)

lemma decode_rune_one: "decode_rune (c # t) = (r, 1) \<Longrightarrow> \<not> byte c < 128 \<Longrightarrow> r = 65533"
  unfolding decode_rune.simps Let_def by (simp only: if_False split: if_split_asm list.split_asm) simp_all

lemma utf8_valid_step:
  assumes "utf8_valid (c # t)" "\<not> byte c < 128"
  obtains r w cs t' where "decode_rune (c # t) = (r, w)" "2 \<le> w" "t = cs @ t'" "length cs = w - 1"
    "list_all continuation cs" "encode_rune r = c # cs" "\<And>x. decode_rune (c # cs @ x) = (r, w)" "utf8_valid t'"
proof -
  obtain r w where rw: "decode_rune (c # t) = (r, w)" by fastforce
  have v: "(r, w) \<noteq> (65533, 1)" "list_all (\<lambda>r. r \<noteq> (65533, 1)) (runes (drop (w - 1) t))"
    using assms(1) rw unfolding utf8_valid_def runes_Cons by (simp_all del: decode_rune.simps)
  have "w \<noteq> 1" using decode_rune_one rw v(1) assms(2) by blast
  then have w: "2 \<le> w" using decode_rune_width_pos [OF rw] by linarith
  obtain cs t' where "t = cs @ t'" "length cs = w - 1" "list_all continuation cs" "encode_rune r = c # cs"
    "\<And>x. decode_rune (c # cs @ x) = (r, w)" using decode_rune_multi [OF rw w] by metis
  with rw w v(2) show thesis by (intro that [of r w cs t']) (simp_all add: utf8_valid_def del: decode_rune.simps)
qed

theorem unquote_quote: "utf8_valid s \<Longrightarrow> unquote (quote s) = s"
proof (induction "length s" arbitrary: s rule: less_induct)
  case less
  show ?case
  proof (cases s)
    case (Cons c t)
    show ?thesis
    proof (cases "byte c < 128")
      case True
      have "utf8_valid t" using less(2) True unfolding Cons utf8_valid_def runes_Cons by simp
      with less(1) [of t] have ih: "unquote (quote t) = t" by (simp add: Cons)
      show ?thesis
      proof (cases c rule: quote_ascii_cases)
        case (letter e)
        then show ?thesis
          using ih True escape_letter_ascii(2) [OF letter(2)] by (simp add: Cons quote_ascii_step unquote_letter)
      next
        case unicode
        then show ?thesis
          using ih True unquote_unicode_escape [of "byte c"] by (simp add: Cons quote_ascii_step encode_rune_byte)
      next
        case plain
        then show ?thesis using ih True by (simp add: Cons quote_ascii_step unquote_ascii)
      qed
    next
      case False
      obtain r w cs t' where d: "decode_rune (c # t) = (r, w)" "2 \<le> w" "t = cs @ t'" "length cs = w - 1"
          "list_all continuation cs" "encode_rune r = c # cs" "\<And>x. decode_rune (c # cs @ x) = (r, w)" "utf8_valid t'"
        using utf8_valid_step [OF less(2) [unfolded Cons] False] by metis
      have ih: "unquote (quote t') = t'" using less(1) [of t'] d(3,8) by (simp add: Cons)
      have c: "c \<noteq> CHR 0x5C" using False by auto
      have rest: "drop (w - 1) t = t'" "take w (c # t) = c # cs" using d(2-4) by (simp_all add: take_Cons')
      show ?thesis
      proof (cases "r = 8232 \<or> r = 8233")
        case True
        then have "unquote (unicode_escape r @ quote t') = encode_rune r @ unquote (quote t')"
          by (intro unquote_unicode_escape) auto
        then show ?thesis
          unfolding Cons quote_multi_step [OF False d(1)] rest using True d(3,6) ih by simp
      next
        case no: False
        have "unquote (c # cs @ quote t') = encode_rune r @ unquote (quote t')"
          using unquote_plain [OF c, of "cs @ quote t'"] d(4,7) by (simp del: decode_rune.simps)
        then show ?thesis
          unfolding Cons quote_multi_step [OF False d(1)] rest using no d(2,3,6) ih by simp
      qed
    qed
  qed simp
qed

lemma literal_quote: "literal (quote s)"
proof (induction "length s" arbitrary: s rule: less_induct)
  case less
  show ?case
  proof (cases s)
    case (Cons c t)
    have ih: "literal (quote (drop n t))" for n using less(1) [of "drop n t"] by (simp add: Cons)
    show ?thesis
    proof (cases "byte c < 128")
      case True
      then show ?thesis
        using ih [of 0] unfolding Cons quote_ascii_step [OF True]
        by (cases c rule: quote_ascii_cases) (simp_all add: literal_letter literal_unicode_escape literal_plain_iff)
    next
      case False
      obtain r w where rw: "decode_rune (c # t) = (r, w)" by fastforce
      have plain: "c \<noteq> CHR 0x22" "32 \<le> byte c" "c \<noteq> CHR 0x5C" using False by auto
      show ?thesis
      proof (cases "r = 65533 \<and> w = 1 \<or> r = 8232 \<or> r = 8233")
        case True
        then have "literal (unicode_escape r @ quote (drop (w - 1) t))"
          using ih by (intro literal_unicode_escape) auto
        then show ?thesis unfolding Cons quote_multi_step [OF False rw] using True by simp
      next
        case no: False
        then have "w \<noteq> 1" using decode_rune_one rw False by blast
        then have w: "2 \<le> w" using decode_rune_width_pos [OF rw] by linarith
        obtain cs t' where d: "t = cs @ t'" "length cs = w - 1" "list_all continuation cs"
          using decode_rune_multi [OF rw w] by metis
        have "take w (c # t) = c # cs" using d w by (simp add: take_Cons')
        then show ?thesis
          unfolding Cons quote_multi_step [OF False rw]
          using no ih literal_continuations [OF d(3)] literal_plain_iff [OF plain] by (simp only: if_False append_Cons)
      qed
    qed
  qed simp
qed

section \<open>HTML escaping\<close>

lemma html_escape_Nil [simp]: "html_escape [] = []"
  by (subst html_escape.simps) simp

definition line_separator :: "string \<Rightarrow> bool" where
  "line_separator s \<longleftrightarrow> take 2 s = [CHR 0xE2, CHR 0x80] \<and> 3 \<le> length s \<and> (s ! 2 = CHR 0xA8 \<or> s ! 2 = CHR 0xA9)"

lemma html_escape_special: "c \<in> set ''<>&'' \<Longrightarrow> html_escape (c # t) = unicode_escape (byte c) @ html_escape t"
  by (subst html_escape.simps) (simp only: list.case if_True)

lemma html_escape_separator: "line_separator (c # t) \<Longrightarrow>
    html_escape (c # t) = unicode_escape (8192 + byte (t ! 1) - 128) @ html_escape (drop 2 t)"
proof -
  assume l: "line_separator (c # t)"
  then have "c = CHR 0xE2" by (cases t) (simp_all add: line_separator_def)
  then have "c \<notin> set ''<>&''" by simp
  with l show ?thesis
    unfolding line_separator_def
    by (subst html_escape.simps) (simp only: list.case if_False if_True simp_thms, simp)
qed

lemma html_escape_plain: "c \<notin> set ''<>&'' \<Longrightarrow> \<not> line_separator (c # t) \<Longrightarrow> html_escape (c # t) = c # html_escape t"
  unfolding line_separator_def by (subst html_escape.simps) (simp only: list.case if_False)

lemma html_escape_ascii: "c \<notin> set ''<>&'' \<Longrightarrow> byte c < 128 \<Longrightarrow> html_escape (c # t) = c # html_escape t"
proof -
  assume "c \<notin> set ''<>&''" "byte c < 128"
  moreover have "\<not> line_separator (c # t)" using \<open>byte c < 128\<close> by (auto simp: line_separator_def)
  ultimately show ?thesis by (simp only: html_escape_plain not_False_eq_True)
qed

lemma html_escape_continuations: "list_all continuation cs \<Longrightarrow> html_escape (cs @ t) = cs @ html_escape t"
proof (induction cs)
  case (Cons c cs)
  then have "c \<notin> set ''<>&''" "\<not> line_separator (c # cs @ t)"
    by (auto simp: continuation_def in_range_def line_separator_def)
  then show ?case using Cons by (simp add: html_escape_plain)
qed simp

lemma line_separator_obtain:
  assumes "line_separator s"
  obtains d t where "s = [CHR 0xE2, CHR 0x80, d] @ t" "d = CHR 0xA8 \<or> d = CHR 0xA9"
    "encode_rune (8192 + byte d - 128) = [CHR 0xE2, CHR 0x80, d]"
    "\<And>x. decode_rune ([CHR 0xE2, CHR 0x80, d] @ x) = (8192 + byte d - 128, 3)"
    "8192 + byte d - 128 < 65536" "8192 + byte d - 128 < 55296"
proof -
  obtain a b d t where s: "s = a # b # d # t"
    using assms unfolding line_separator_def by (metis Suc_le_length_iff numeral_3_eq_3)
  then have d: "a = CHR 0xE2" "b = CHR 0x80" "d = CHR 0xA8 \<or> d = CHR 0xA9"
    using assms by (simp_all add: line_separator_def)
  have "encode_rune (8192 + byte d - 128) = [CHR 0xE2, CHR 0x80, d]"
    using d(3) by (elim disjE) (simp_all add: encode_rune_def char_eq_byte byte_char_of)
  moreover have "decode_rune ([CHR 0xE2, CHR 0x80, d] @ x) = (8192 + byte d - 128, 3)" for x
    using d(3) by (elim disjE) (simp_all add: in_range_def continuation_def)
  ultimately show thesis using s d by (intro that [of d t]) auto
qed

lemma take_takeWhile': "takeWhile P (take n xs) = take n (takeWhile P xs)"
  by (induction xs arbitrary: n) (simp_all add: take_Cons')

lemma html_escape_head: "t = [] \<or> \<not> continuation (hd t) \<Longrightarrow> html_escape t = [] \<or> \<not> continuation (hd (html_escape t))"
proof (cases t)
  case (Cons c u)
  assume "t = [] \<or> \<not> continuation (hd t)"
  then have c: "\<not> continuation c" by (simp add: Cons)
  have b: "\<not> continuation (CHR 0x5C)" by (simp add: continuation_def in_range_def)
  consider "c \<in> set ''<>&''" | "line_separator (c # u)" | "c \<notin> set ''<>&''" "\<not> line_separator (c # u)" by blast
  then show ?thesis
    unfolding Cons using b c
    by cases (simp_all only: html_escape_special html_escape_separator html_escape_plain unicode_escape_def
        append_Cons list.sel not_False_eq_True simp_thms)
qed simp

lemma html_escape_continuation_prefix: "takeWhile continuation (html_escape t) = takeWhile continuation t"
proof -
  define cs u where "cs = takeWhile continuation t" and "u = dropWhile continuation t"
  have t: "t = cs @ u" and cs: "list_all continuation cs" and u: "u = [] \<or> \<not> continuation (hd u)"
    using hd_dropWhile [of continuation t] by (auto simp: cs_def u_def list_all_iff dest: set_takeWhileD)
  have "takeWhile continuation (cs @ v) = cs" if "v = [] \<or> \<not> continuation (hd v)" for v
    using cs that by (cases v) (auto simp: list_all_iff takeWhile_append)
  then show ?thesis
    using html_escape_head [OF u] u unfolding t html_escape_continuations [OF cs] by metis
qed

lemma is_hex_plain: "is_hex c \<Longrightarrow> c \<notin> set ''<>&''" "is_hex c \<Longrightarrow> byte c < 128"
  by (auto simp: is_hex_def char_class_defs)

lemma html_escape_hex: "list_all is_hex h \<Longrightarrow> html_escape (h @ t) = h @ html_escape t"
proof (induction h)
  case (Cons c h)
  then show ?case using html_escape_ascii [OF is_hex_plain, of c] by simp
qed simp

lemma html_escape_letter: "e \<in> set escape_letters \<Longrightarrow> html_escape (CHR 0x5C # e # u) = CHR 0x5C # e # html_escape u"
  using escape_letter_ascii(3,4) [of e] by (simp add: html_escape_ascii)

lemma html_escape_unicode: "list_all is_hex h \<Longrightarrow>
    html_escape (CHR 0x5C # CHR ''u'' # h @ t) = CHR 0x5C # CHR ''u'' # h @ html_escape t"
  by (simp add: html_escape_ascii html_escape_hex)

definition low_surrogate :: "string \<Rightarrow> bool" where
  "low_surrogate v \<longleftrightarrow> take 2 v = [CHR 0x5C, CHR ''u''] \<and> 56320 \<le> hex4 (drop 2 v) \<and> hex4 (drop 2 v) \<le> 57343"

lemma low_surrogate_escape: "r < 56320 \<Longrightarrow> \<not> low_surrogate (unicode_escape r @ t)"
  by (rule unicode_escape_split [of r]) (simp_all add: low_surrogate_def)

lemma low_surrogate_head: "c \<noteq> CHR 0x5C \<Longrightarrow> \<not> low_surrogate (c # t)"
  by (simp add: low_surrogate_def)

lemma low_surrogate_letter: "e \<noteq> CHR ''u'' \<Longrightarrow> \<not> low_surrogate (CHR 0x5C # e # t)"
  by (simp add: low_surrogate_def)

lemma hex4_append: "length h = 4 \<Longrightarrow> hex4 (h @ t) = hex4 h"
  by (simp add: hex4_def)

lemma low_surrogate_html:
  assumes "literal v"
  shows "low_surrogate (html_escape v) = low_surrogate v"
  using assms
proof (cases rule: literal_cases)
  case (plain c t)
  consider "c \<in> set ''<>&''" | "line_separator (c # t)" | "c \<notin> set ''<>&''" "\<not> line_separator (c # t)" by blast
  then have "\<not> low_surrogate (html_escape (c # t))"
  proof cases
    case 1
    then have "byte c < 56320" by auto
    then show ?thesis using low_surrogate_escape by (simp only: html_escape_special [OF 1] not_False_eq_True)
  next
    case 2
    then obtain d x where "c # t = [CHR 0xE2, CHR 0x80, d] @ x" "8192 + byte d - 128 < 55296"
      using line_separator_obtain by metis
    then show ?thesis using html_escape_separator [OF 2] low_surrogate_escape [of "8192 + byte d - 128"] by simp
  next
    case 3
    then show ?thesis using plain(4) by (simp only: html_escape_plain low_surrogate_head not_False_eq_True)
  qed
  then show ?thesis using low_surrogate_head plain(1,4) by blast
next
  case (letter e u)
  then show ?thesis
    using escape_letter_ascii(2) [OF letter(2)] by (simp add: html_escape_letter low_surrogate_letter)
next
  case (unicode u)
  then have "html_escape v = CHR 0x5C # CHR ''u'' # take 4 u @ html_escape (drop 4 u)"
    using html_escape_unicode [OF unicode(3), of "drop 4 u"] by simp
  then show ?thesis using unicode hex4_append [of "take 4 u"] by (simp add: low_surrogate_def hex4_def)
qed simp

lemma unquote_unicode': "unquote (CHR 0x5C # CHR ''u'' # u) =
    (if 55296 \<le> hex4 u \<and> hex4 u \<le> 56319 \<and> low_surrogate (drop 4 u)
     then encode_rune ((hex4 u - 55296) * 1024 + (hex4 (drop 6 u) - 56320) + 65536) @ unquote (drop 10 u)
     else encode_rune (hex4 u) @ unquote (drop 4 u))"
  unfolding unquote_unicode Let_def low_surrogate_def by (simp add: conj_assoc)

lemma literal_unicodeD:
  assumes "literal (CHR 0x5C # CHR ''u'' # w)"
  shows "4 \<le> length w \<and> list_all is_hex (take 4 w) \<and> literal (drop 4 w)"
  using assms
proof (cases rule: literal_cases)
  case (letter e u)
  then have "e = CHR ''u''" by (simp only: list.inject)
  then show ?thesis using escape_letter_ascii(2) [OF letter(2)] by contradiction
next
  case (plain c t)
  then show ?thesis by (simp only: list.inject)
next
  case (unicode u)
  then have "u = w" by (simp only: list.inject)
  then show ?thesis using unicode by blast
qed simp

lemma html_escape_low_surrogate:
  assumes "low_surrogate v" "literal v"
  obtains w where "v = CHR 0x5C # CHR ''u'' # w" "literal (drop 4 w)" "4 \<le> length w"
    "html_escape v = CHR 0x5C # CHR ''u'' # take 4 w @ html_escape (drop 4 w)"
proof -
  obtain w where w: "v = CHR 0x5C # CHR ''u'' # w"
    using assms(1) unfolding low_surrogate_def by (metis append_Cons append_take_drop_id)
  have d: "4 \<le> length w" "list_all is_hex (take 4 w)" "literal (drop 4 w)"
    using literal_unicodeD assms(2) unfolding w by blast+
  have "html_escape v = CHR 0x5C # CHR ''u'' # take 4 w @ html_escape (drop 4 w)"
    using html_escape_unicode [OF d(2), of "drop 4 w"] by (simp only: w append_take_drop_id)
  then show thesis using w d by (intro that)
qed

lemma unquote_pair: "length h = 4 \<Longrightarrow> length k = 4 \<Longrightarrow>
    unquote (CHR 0x5C # CHR ''u'' # h @ CHR 0x5C # CHR ''u'' # k @ t) =
      (if 55296 \<le> hex4 h \<and> hex4 h \<le> 56319 \<and> 56320 \<le> hex4 k \<and> hex4 k \<le> 57343
       then encode_rune ((hex4 h - 55296) * 1024 + (hex4 k - 56320) + 65536) @ unquote t
       else encode_rune (hex4 h) @ unquote (CHR 0x5C # CHR ''u'' # k @ t))"
  using unquote_unicode' [of "h @ CHR 0x5C # CHR ''u'' # k @ t"]
  by (simp add: hex4_append low_surrogate_def)

lemma unquote_single: "length h = 4 \<Longrightarrow> \<not> low_surrogate v \<Longrightarrow>
    unquote (CHR 0x5C # CHR ''u'' # h @ v) = encode_rune (hex4 h) @ unquote v"
  using unquote_unicode' [of "h @ v"] by (simp add: hex4_append)

lemma unquote_html_unicode:
  assumes "length h = 4" "literal v" "unquote (html_escape v) = unquote v"
    and "\<And>w. literal w \<Longrightarrow> length w < length v \<Longrightarrow> unquote (html_escape w) = unquote w"
  shows "unquote (CHR 0x5C # CHR ''u'' # h @ html_escape v) = unquote (CHR 0x5C # CHR ''u'' # h @ v)"
proof (cases "low_surrogate v")
  case True
  obtain w where w: "v = CHR 0x5C # CHR ''u'' # w" "literal (drop 4 w)" "4 \<le> length w"
      "html_escape v = CHR 0x5C # CHR ''u'' # take 4 w @ html_escape (drop 4 w)"
    using html_escape_low_surrogate [OF True assms(2)] by metis
  have v: "v = CHR 0x5C # CHR ''u'' # take 4 w @ drop 4 w" by (simp only: w(1) append_take_drop_id)
  have "unquote (html_escape (drop 4 w)) = unquote (drop 4 w)"
    using assms(4) [OF w(2)] by (simp add: w(1))
  moreover have "length (take 4 w) = 4" using w(3) by simp
  moreover have "unquote (CHR 0x5C # CHR ''u'' # take 4 w @ html_escape (drop 4 w)) = unquote (CHR 0x5C # CHR ''u'' # take 4 w @ drop 4 w)"
    using assms(3) by (simp only: w(4) v [symmetric])
  ultimately have "unquote (CHR 0x5C # CHR ''u'' # h @ CHR 0x5C # CHR ''u'' # take 4 w @ html_escape (drop 4 w)) =
      unquote (CHR 0x5C # CHR ''u'' # h @ CHR 0x5C # CHR ''u'' # take 4 w @ drop 4 w)"
    using assms(1) by (simp only: unquote_pair)
  then show ?thesis by (simp only: w(4) v [symmetric])
next
  case False
  then show ?thesis
    using assms(1,3) unquote_single [OF assms(1)] low_surrogate_html [OF assms(2)] by metis
qed

text \<open>Escaping keeps a literal well formed and does not change what it stands for.\<close>

definition html_same :: "string \<Rightarrow> bool" where
  "html_same l \<longleftrightarrow> literal (html_escape l) \<and> unquote (html_escape l) = unquote l"

lemma html_same_special:
  assumes "c \<in> set ''<>&''" "html_same t"
  shows "html_same (c # t)"
proof -
  have c: "byte c < 128" "byte c < 55296" "byte c < 65536" "c \<noteq> CHR 0x5C" using assms(1) by auto
  show ?thesis
    using assms(2) c unfolding html_same_def html_escape_special [OF assms(1)]
    by (simp only: literal_unicode_escape unquote_unicode_escape encode_rune_byte unquote_ascii append_Cons append_Nil simp_thms)
qed

lemma html_same_separator:
  assumes "line_separator (c # t)" "html_same (drop 2 t)"
  shows "html_same (c # t)"
proof -
  obtain d x where d: "c # t = [CHR 0xE2, CHR 0x80, d] @ x" and "d = CHR 0xA8 \<or> d = CHR 0xA9"
    and d': "encode_rune (8192 + byte d - 128) = [CHR 0xE2, CHR 0x80, d]"
      "\<And>x. decode_rune ([CHR 0xE2, CHR 0x80, d] @ x) = (8192 + byte d - 128, 3)"
      "8192 + byte d - 128 < 65536" "8192 + byte d - 128 < 55296"
    by (rule line_separator_obtain [OF assms(1)]) (rule that)
  have t: "t ! 1 = d" "drop 2 t = x" "c = CHR 0xE2" "t = [CHR 0x80, d] @ x" using d by auto
  have e: "html_escape (c # t) = unicode_escape (8192 + byte d - 128) @ html_escape x"
    using html_escape_separator [OF assms(1)] by (simp only: t(1,2))
  have "unquote (c # t) = encode_rune (8192 + byte d - 128) @ unquote x"
    using unquote_plain [of c t] d'(2) [of x] unfolding d [symmetric] by (simp add: t del: decode_rune.simps)
  then show ?thesis
    using assms(2) d'(3,4) unfolding html_same_def e t(2)
    by (simp only: literal_unicode_escape unquote_unicode_escape simp_thms)
qed

lemma html_same_other:
  assumes c: "c \<noteq> CHR 0x22" "32 \<le> byte c" "c \<noteq> CHR 0x5C" and no: "c \<notin> set ''<>&''" "\<not> line_separator (c # t)"
    and t: "literal t" and ih: "\<And>n. literal (drop n t) \<Longrightarrow> html_same (drop n t)"
  shows "html_same (c # t)"
proof -
  obtain r w where rw: "decode_rune (c # t) = (r, w)" by fastforce
  have iht: "literal (html_escape t)" "unquote (html_escape t) = unquote t" using ih [of 0] t by (simp_all add: html_same_def)
  have "unquote (c # html_escape t) = unquote (c # t)"
  proof (cases "2 \<le> w")
    case True
    obtain cs t' where d: "t = cs @ t'" "length cs = w - 1" "list_all continuation cs"
        "\<And>x. decode_rune (c # cs @ x) = (r, w)"
      using decode_rune_multi [OF rw True] by metis
    have "literal t'" using t d(1,3) literal_continuations by simp
    then have "unquote (html_escape t') = unquote t'" using ih [of "w - 1"] d(1,2) by (simp add: html_same_def)
    then have "unquote (c # cs @ html_escape t') = unquote (c # cs @ t')"
      using unquote_plain [OF c(3), of "cs @ html_escape t'"] unquote_plain [OF c(3), of "cs @ t'"] d(2,4)
      by (simp del: decode_rune.simps)
    then show ?thesis by (simp only: d(1) html_escape_continuations [OF d(3)])
  next
    case False
    have "decode_rune (c # html_escape t) = (r, w)"
      using decode_rune_cong [of "html_escape t" t c] rw
      by (simp only: take_takeWhile' html_escape_continuation_prefix)
    then show ?thesis
      using False iht rw unquote_plain [OF c(3), of "html_escape t"] unquote_plain [OF c(3), of t]
      by (simp del: decode_rune.simps)
  qed
  then show ?thesis
    using iht(1) unfolding html_same_def html_escape_plain [OF no] literal_plain_iff [OF c] by blast
qed

theorem html_escape_literal: "literal l \<Longrightarrow> html_same l"
proof (induction "length l" arbitrary: l rule: less_induct)
  case less
  note IH = less(1)
  from less(2) show ?case
  proof (cases rule: literal_cases)
    case (plain c t)
    have ih: "html_same (drop n t)" if "literal (drop n t)" for n using IH [OF _ that] plain(1) by simp
    consider "c \<in> set ''<>&''" | "line_separator (c # t)" | "c \<notin> set ''<>&''" "\<not> line_separator (c # t)" by blast
    then show ?thesis
    proof cases
      case 1
      then show ?thesis using html_same_special ih [of 0] plain(1,5) by (simp only: drop_0)
    next
      case 2
      obtain d x where "c # t = [CHR 0xE2, CHR 0x80, d] @ x" "d = CHR 0xA8 \<or> d = CHR 0xA9"
        using line_separator_obtain [OF 2] by metis
      then have "literal (drop 2 t)"
        using plain(5) literal_continuations [of "[CHR 0x80, d]" x] by (auto simp: continuation_def in_range_def)
      then show ?thesis using html_same_separator [OF 2] ih plain(1) by blast
    next
      case 3
      then show ?thesis using html_same_other [OF plain(2-4) 3 plain(5)] ih plain(1) by blast
    qed
  next
    case (letter e u)
    then have "html_same u" using IH [of u] by simp
    then show ?thesis
      using letter(2) escape_letter_ascii(2) [OF letter(2)] unfolding letter(1) html_same_def
      by (simp only: html_escape_letter unquote_letter literal_letter simp_thms not_False_eq_True)
  next
    case (unicode u)
    define h v where "h = take 4 u" and "v = drop 4 u"
    have hv: "u = h @ v" "length h = 4" "list_all is_hex h" "literal v" using unicode by (simp_all add: h_def v_def)
    have v: "literal (html_escape v) \<and> unquote (html_escape v) = unquote v" using IH [of v] hv unicode(1) by (simp add: html_same_def)
    have e: "html_escape l = CHR 0x5C # CHR ''u'' # h @ html_escape v"
      using html_escape_unicode [OF hv(3), of v] unicode(1) hv(1) by simp
    have "literal ([CHR 0x5C, CHR ''u''] @ h @ html_escape v)"
      using literal_unit [of "[CHR 0x5C, CHR ''u''] @ h" "html_escape v"] v hv by (simp add: unit_width_unicode)
    moreover have "unquote (CHR 0x5C # CHR ''u'' # h @ html_escape v) = unquote l"
      unfolding unicode(1) hv(1)
    proof (rule unquote_html_unicode [OF hv(2,4)])
      show "unquote (html_escape v) = unquote v" using v by blast
      show "unquote (html_escape w) = unquote w" if "literal w" "length w < length v" for w
        using IH [OF _ that(1)] that(2) hv(1) unicode(1) by (simp add: html_same_def)
    qed
    ultimately show ?thesis unfolding html_same_def e by simp
  qed (simp add: html_same_def)
qed

section \<open>Maps of raw values\<close>

lemma html_json_ok: "json_ok n v \<Longrightarrow> json_ok n (html_json v)"
proof (induction v arbitrary: n)
  case (JString l)
  then show ?case using html_escape_literal [of l] by (simp add: html_same_def)
next
  case (JObject ms)
  have "literal (html_escape (fst m)) \<and> json_ok (n - 1) (html_json (snd m))" if "m \<in> set ms" for m
    using JObject that html_escape_literal [of "fst m"] by (cases m) (fastforce simp: html_same_def)
  then show ?case using JObject.prems by (auto simp: case_prod_beta')
qed auto

lemma html_json_into:
  assumes "json_ok n v"
  shows "into_string (html_json v) = into_string v" "into_bool (html_json v) = into_bool v"
    "into_slice (html_json v) = map_option (map html_json) (into_slice v)"
  using assms html_escape_literal by (cases v; simp add: html_same_def)+

lemma put_member_map_of: "map_of (put_member k v m) = (map_of m)(k \<mapsto> v)"
proof -
  have "map_of (filter (\<lambda>e. fst e \<noteq> k) m) x = (if x = k then None else map_of m x)" for x
    by (induction m) auto
  then show ?thesis by (auto simp: put_member_def fun_eq_iff)
qed

lemma put_member_distinct: "distinct (map fst m) \<Longrightarrow> distinct (map fst (put_member k v m))"
  by (auto simp: put_member_def distinct_map_filter)

lemma put_member_set: "e \<in> set (put_member k v m) \<Longrightarrow> e = (k, v) \<or> e \<in> set m"
  by (auto simp: put_member_def)

lemma fold_put_member:
  "distinct (map fst m) \<Longrightarrow> distinct (map fst (fold (\<lambda>(n, v). put_member (unquote n) v) ms m))"
  "e \<in> set (fold (\<lambda>(n, v). put_member (unquote n) v) ms m) \<Longrightarrow>
     e \<in> set m \<or> (\<exists>(n, v) \<in> set ms. e = (unquote n, v))"
proof (induction ms arbitrary: m)
  case (Cons x ms)
  obtain n v where x: "x = (n, v)" by fastforce
  { case 1
    then show ?case using Cons.IH(1) [OF put_member_distinct] by (simp add: x) }
  { case 2
    then show ?case using Cons.IH(2) [of "put_member (unquote n) v m"] put_member_set [of e "unquote n" v m] by (auto simp: x) }
qed simp_all

lemma into_map_ok:
  assumes "into_map v = Some (Some m)" "json_ok n v"
  shows "distinct (map fst m)" "(k, u) \<in> set m \<Longrightarrow> utf8_valid k \<and> json_ok (n - 1) u" "0 < n"
proof -
  obtain ms where v: "v = JObject ms" and m: "m = fold (\<lambda>(n, v). put_member (unquote n) v) ms []"
    using assms(1) by (cases v) auto
  show "distinct (map fst m)" unfolding m by (rule fold_put_member(1)) simp
  show "utf8_valid k \<and> json_ok (n - 1) u" if "(k, u) \<in> set m"
    using fold_put_member(2) [OF that [unfolded m]] assms(2) unquote_valid unfolding v by fastforce
  show "0 < n" using assms(2) v by simp
qed

lemma fold_put_distinct:
  assumes "distinct ks" "\<And>k. k \<in> set ks \<Longrightarrow> unquote (q k) = k"
  shows "map_of (fold (\<lambda>(n, v). put_member (unquote n) v) (map (\<lambda>k. (q k, f k)) ks) m) =
    (\<lambda>k. if k \<in> set ks then Some (f k) else map_of m k)"
  using assms
proof (induction ks arbitrary: m)
  case (Cons k ks)
  then show ?case by (auto simp: put_member_map_of fun_eq_iff)
qed simp

definition raw_ok :: "raw_map \<Rightarrow> bool" where
  "raw_ok m \<longleftrightarrow> distinct (map fst m) \<and> (\<forall>(k, v) \<in> set m. utf8_valid k \<and> json_ok (max_depth - 1) v)"

text \<open>What \<open>Marshal\<close> writes for a map is read back as that map, its literals HTML escaped.\<close>

theorem marshal_map_roundtrip:
  assumes "raw_ok m"
  obtains v m' where "json_parse (marshal_map m) = Some v" "into_map v = Some (Some m')"
    "map_of m' = (\<lambda>k. map_option html_json (map_of m k))" "distinct (map fst m')"
proof -
  let ?ks = "sort (map fst m)"
  let ?f = "\<lambda>k. html_json (the (map_of m k))"
  let ?v = "JObject (map (\<lambda>k. (quote k, ?f k)) ?ks)"
  let ?m = "fold (\<lambda>(n, v). put_member (unquote n) v) (map (\<lambda>k. (quote k, ?f k)) ?ks) []"
  have d: "distinct ?ks" using assms by (simp add: raw_ok_def)
  have m: "utf8_valid k \<and> json_ok (max_depth - 1) v" if "(k, v) \<in> set m" for k v
    using assms that by (auto simp: raw_ok_def)
  have lookup: "\<exists>v. map_of m k = Some v \<and> utf8_valid k \<and> json_ok (max_depth - 1) v" if "k \<in> set ?ks" for k
    using that m map_of_SomeD [of m k] weak_map_of_SomeI [of k _ m] by fastforce
  have "json_ok max_depth ?v"
    using lookup literal_quote html_json_ok by (fastforce simp: max_depth_def)
  then have "json_parse (marshal_map m) = Some ?v"
    unfolding marshal_map_def by (rule json_roundtrip)
  moreover have "into_map ?v = Some (Some ?m)" by simp
  moreover have "map_of ?m = (\<lambda>k. map_option html_json (map_of m k))"
  proof -
    have q: "unquote (quote k) = k" if "k \<in> set ?ks" for k using lookup [OF that] unquote_quote by blast
    have dom: "k \<in> set ?ks \<longleftrightarrow> map_of m k \<noteq> None" for k by (auto simp: map_of_eq_None_iff)
    have "map_of ?m = (\<lambda>k. if k \<in> set ?ks then Some (?f k) else map_of [] k)"
      by (rule fold_put_distinct [OF d q])
    also have "\<dots> = (\<lambda>k. map_option html_json (map_of m k))"
      unfolding dom by (auto simp: fun_eq_iff)
    finally show ?thesis .
  qed
  moreover have "distinct (map fst ?m)" by (rule fold_put_member(1)) simp
  ultimately show thesis by (rule that)
qed

end
