(* ===== verification/Gateway.thy ===== *)
theory Gateway
  imports Sdk_Http Go_Json_Text
begin

text \<open>
  \<open>services/ai-gateway\<close>: \<open>internal/config\<close> and \<open>internal/gateway\<close>. The configuration is a
  list of providers and a list of model aliases; \<open>New\<close> turns a valid one into a router; the
  router decides whether a chat request may go out, rewrites its model alias into the
  provider's name of the model, and sends it. The JSON of a request is read and written by
  the functions of \<open>Go_Json\<close>. What \<open>url.Parse\<close>, \<open>net.ParseIP\<close>, the file system and the
  provider answer are arguments.
\<close>

section \<open>Configuration\<close>

record gw_provider =
  gp_id :: string
  gp_base_url :: string
  gp_key_file :: string

record gw_model =
  gm_id :: string
  gm_description :: string
  gm_provider :: string
  gm_upstream :: string

record gateway_config =
  gc_providers :: "gw_provider list"
  gc_models :: "gw_model list"

datatype gateway_config_error =
    Open_config | Decode_config | Multiple_values | Trailing_data
  | Nothing_configured
  | Invalid_provider_id string | Duplicate_provider_id string | Insecure_base_url string | No_key_file string
  | Invalid_alias string | Duplicate_alias string | Unknown_provider string string | No_upstream_model string
  | Read_key string | Empty_key string

text \<open>\<open>strings.EqualFold(s, "localhost")\<close>: the long s folds to s.\<close>

definition equal_fold_localhost :: "string \<Rightarrow> bool" where
  "equal_fold_localhost s \<longleftrightarrow>
     map (\<lambda>(r, w). if r = 383 then 115 else if 65 \<le> r \<and> r \<le> 90 then r + 32 else r) (runes s) =
     map byte ''localhost''"

text \<open>\<open>loopback\<close> stands for \<open>net.ParseIP(host).IsLoopback()\<close>.\<close>

definition is_loopback_http :: "(string \<Rightarrow> bool) \<Rightarrow> url \<Rightarrow> bool" where
  "is_loopback_http loopback u \<longleftrightarrow>
     ur_scheme u = ''http'' \<and> (equal_fold_localhost (ur_hostname u) \<or> loopback (ur_hostname u))"

definition secure_url :: "(string \<Rightarrow> url option) \<Rightarrow> (string \<Rightarrow> bool) \<Rightarrow> string \<Rightarrow> bool" where
  "secure_url parse loopback s \<longleftrightarrow>
     (case parse (trim_right_char CHR ''/'' s) of
        None \<Rightarrow> False
      | Some u \<Rightarrow> \<not> (ur_host u = [] \<or> (ur_scheme u \<noteq> ''https'' \<and> \<not> is_loopback_http loopback u)))"

fun validate_providers ::
  "(string \<Rightarrow> url option) \<Rightarrow> (string \<Rightarrow> bool) \<Rightarrow> string list \<Rightarrow> gw_provider list \<Rightarrow> gateway_config_error + string list" where
  "validate_providers parse loopback seen [] = Inr seen"
| "validate_providers parse loopback seen (p # ps) =
     (if \<not> match_slug 1 62 (gp_id p) then Inl (Invalid_provider_id (gp_id p))
      else if gp_id p \<in> set seen then Inl (Duplicate_provider_id (gp_id p))
      else if \<not> secure_url parse loopback (gp_base_url p) then Inl (Insecure_base_url (gp_id p))
      else if trim_space (gp_key_file p) = [] then Inl (No_key_file (gp_id p))
      else validate_providers parse loopback (gp_id p # seen) ps)"

fun validate_models :: "string list \<Rightarrow> string list \<Rightarrow> gw_model list \<Rightarrow> gateway_config_error + string list" where
  "validate_models providers seen [] = Inr seen"
| "validate_models providers seen (m # ms) =
     (if \<not> match_slug 1 62 (gm_id m) then Inl (Invalid_alias (gm_id m))
      else if gm_id m \<in> set seen then Inl (Duplicate_alias (gm_id m))
      else if gm_provider m \<notin> set providers then Inl (Unknown_provider (gm_id m) (gm_provider m))
      else if trim_space (gm_upstream m) = [] then Inl (No_upstream_model (gm_id m))
      else validate_models providers (gm_id m # seen) ms)"

definition validate_config ::
  "(string \<Rightarrow> url option) \<Rightarrow> (string \<Rightarrow> bool) \<Rightarrow> gateway_config \<Rightarrow> gateway_config_error option" where
  "validate_config parse loopback cfg =
     (if gc_providers cfg = [] \<or> gc_models cfg = [] then Some Nothing_configured
      else case validate_providers parse loopback [] (gc_providers cfg) of
        Inl e \<Rightarrow> Some e
      | Inr providers \<Rightarrow>
          (case validate_models providers [] (gc_models cfg) of Inl e \<Rightarrow> Some e | Inr _ \<Rightarrow> None))"

text \<open>
  \<open>Load\<close>: the first megabyte of the file (\<open>None\<close> where it cannot be opened) is decoded with
  unknown fields refused, and nothing may follow the document.
\<close>

datatype trailing = At_end | Another_value | Garbage

definition load_gateway_config ::
  "(string \<Rightarrow> url option) \<Rightarrow> (string \<Rightarrow> bool) \<Rightarrow> (string \<Rightarrow> (gateway_config \<times> trailing) option) \<Rightarrow> string option \<Rightarrow>
   gateway_config_error + gateway_config" where
  "load_gateway_config parse loopback decode contents =
     (case contents of
        None \<Rightarrow> Inl Open_config
      | Some s \<Rightarrow>
          (case decode (take (2 ^ 20) s) of
             None \<Rightarrow> Inl Decode_config
           | Some (cfg, Another_value) \<Rightarrow> Inl Multiple_values
           | Some (cfg, Garbage) \<Rightarrow> Inl Trailing_data
           | Some (cfg, At_end) \<Rightarrow>
               (case validate_config parse loopback cfg of Some e \<Rightarrow> Inl e | None \<Rightarrow> Inr cfg)))"

section \<open>The router\<close>

record public_model =
  pm_id :: string
  pm_object :: string
  pm_owner :: string
  pm_description :: string

record model_route =
  mr_model :: public_model
  mr_upstream :: string
  mr_provider :: string

record upstream_provider =
  pv_id :: string
  pv_endpoint :: string
  pv_key :: string

record router =
  ro_models :: "(string \<times> model_route) list"
  ro_list :: "public_model list"
  ro_providers :: "(string \<times> upstream_provider) list"

definition public_of :: "gw_model \<Rightarrow> public_model" where
  "public_of m = \<lparr>pm_id = gm_id m, pm_object = ''model'', pm_owner = ''homehub'', pm_description = gm_description m\<rparr>"

definition route_of :: "gw_model \<Rightarrow> model_route" where
  "route_of m = \<lparr>mr_model = public_of m, mr_upstream = gm_upstream m, mr_provider = gm_provider m\<rparr>"

fun load_providers ::
  "(string \<Rightarrow> string option) \<Rightarrow> gw_provider list \<Rightarrow> gateway_config_error + (string \<times> upstream_provider) list" where
  "load_providers files [] = Inr []"
| "load_providers files (p # ps) =
     (case files (gp_key_file p) of
        None \<Rightarrow> Inl (Read_key (gp_id p))
      | Some value \<Rightarrow>
          if trim_space value = [] then Inl (Empty_key (gp_id p))
          else case load_providers files ps of
            Inl e \<Rightarrow> Inl e
          | Inr rest \<Rightarrow>
              Inr ((gp_id p, \<lparr>pv_id = gp_id p,
                     pv_endpoint = trim_right_char CHR ''/'' (gp_base_url p) @ ''/chat/completions'',
                     pv_key = trim_space value\<rparr>) # rest))"

definition new_router ::
  "(string \<Rightarrow> url option) \<Rightarrow> (string \<Rightarrow> bool) \<Rightarrow> (string \<Rightarrow> string option) \<Rightarrow> gateway_config \<Rightarrow>
   gateway_config_error + router" where
  "new_router parse loopback files cfg =
     (case validate_config parse loopback cfg of
        Some e \<Rightarrow> Inl e
      | None \<Rightarrow>
          (case load_providers files (gc_providers cfg) of
             Inl e \<Rightarrow> Inl e
           | Inr ps \<Rightarrow> Inr \<lparr>ro_models = map (\<lambda>m. (gm_id m, route_of m)) (gc_models cfg),
                          ro_list = map public_of (gc_models cfg), ro_providers = ps\<rparr>))"

definition models_allowed :: "router \<Rightarrow> string list \<Rightarrow> public_model list" where
  "models_allowed R allowed = filter (\<lambda>m. pm_id m \<in> set allowed) (ro_list R)"

definition model_ids :: "router \<Rightarrow> string list" where
  "model_ids R = map pm_id (ro_list R)"

section \<open>Chat completions\<close>

datatype gateway_error = Invalid_request | Model_forbidden | Model_not_found | Provider_failed

definition rewrite_request :: "router \<Rightarrow> string \<Rightarrow> string list \<Rightarrow> gateway_error + (string \<times> bool \<times> string)" where
  "rewrite_request R raw allowed =
     (if raw = [] then Inl Invalid_request
      else case Option.bind (json_parse raw) into_map of
        Some (Some envelope) \<Rightarrow>
          (case Option.bind (map_of envelope ''model'') into_string of
             None \<Rightarrow> Inl Invalid_request
           | Some alias \<Rightarrow>
               if trim_space alias = [] then Inl Invalid_request
               else case Option.bind (map_of envelope ''messages'') into_slice of
                 None \<Rightarrow> Inl Invalid_request
               | Some messages \<Rightarrow>
                   if messages = [] then Inl Invalid_request
                   else if alias \<notin> set allowed then Inl Model_forbidden
                   else case map_of (ro_models R) alias of
                     None \<Rightarrow> Inl Model_not_found
                   | Some route \<Rightarrow>
                       (case (case map_of envelope ''stream'' of None \<Rightarrow> Some False | Some v \<Rightarrow> into_bool v) of
                          None \<Rightarrow> Inl Invalid_request
                        | Some stream \<Rightarrow>
                            Inr (alias, stream,
                              marshal_map (put_member ''model'' (JString (quote (mr_upstream route))) envelope))))
      | _ \<Rightarrow> Inl Invalid_request)"

record provider_request =
  pq_url :: string
  pq_headers :: "(string \<times> string) list"
  pq_body :: string

text \<open>
  A provider's answer: its status, its content type and what reading its body yields, after
  which the body is at its end.
\<close>

datatype read_result = More | Eof | Broken

record provider_reply =
  pr_status :: int
  pr_type :: string
  pr_reads :: "(string \<times> read_result) list"

record gateway_result =
  gs_reply :: provider_reply
  gs_alias :: string
  gs_provider :: string
  gs_stream :: bool

text \<open>The zero values a lookup in a Go map yields for a key that is absent.\<close>

definition zero_route :: model_route where
  "zero_route = \<lparr>mr_model = \<lparr>pm_id = [], pm_object = [], pm_owner = [], pm_description = []\<rparr>, mr_upstream = [], mr_provider = []\<rparr>"

definition zero_provider :: upstream_provider where
  "zero_provider = \<lparr>pv_id = [], pv_endpoint = [], pv_key = []\<rparr>"

definition lookup_or :: "'a \<Rightarrow> (string \<times> 'a) list \<Rightarrow> string \<Rightarrow> 'a" where
  "lookup_or z m k = (case map_of m k of None \<Rightarrow> z | Some x \<Rightarrow> x)"

definition provider_request_of :: "upstream_provider \<Rightarrow> bool \<Rightarrow> string \<Rightarrow> string \<Rightarrow> provider_request" where
  "provider_request_of p stream rid out =
     \<lparr>pq_url = pv_endpoint p,
      pq_headers =
        [(''Authorization'', ''Bearer '' @ pv_key p), (''Content-Type'', ''application/json''),
         (''Accept'', if stream then ''text/event-stream'' else ''application/json''),
         (''User-Agent'', ''HomeHub-AI-Gateway/0.1'')] @
        (if rid \<noteq> [] then [(''X-Request-ID'', rid)] else []),
      pq_body = out\<rparr>"

text \<open>
  \<open>Complete\<close>: the request that goes out, if any, and the result. The provider answers \<open>None\<close>
  where the request cannot be built or the transport fails.
\<close>

definition complete ::
  "router \<Rightarrow> (provider_request \<Rightarrow> provider_reply option) \<Rightarrow> string \<Rightarrow> string list \<Rightarrow> string \<Rightarrow>
   provider_request option \<times> (gateway_error + gateway_result)" where
  "complete R client raw allowed rid =
     (case rewrite_request R raw allowed of
        Inl e \<Rightarrow> (None, Inl e)
      | Inr (alias, stream, out) \<Rightarrow>
          let route = lookup_or zero_route (ro_models R) alias;
              p = lookup_or zero_provider (ro_providers R) (mr_provider route);
              q = provider_request_of p stream rid out in
          (Some q, case client q of
             None \<Rightarrow> Inl Provider_failed
           | Some rp \<Rightarrow> Inr \<lparr>gs_reply = rp, gs_alias = pm_id (mr_model route), gs_provider = pv_id p, gs_stream = stream\<rparr>))"

section \<open>What a valid configuration gives\<close>

lemma validate_providers_Inr:
  "validate_providers parse loopback seen ps = Inr out \<Longrightarrow>
     set out = set seen \<union> gp_id ` set ps \<and> distinct (map gp_id ps) \<and> set seen \<inter> gp_id ` set ps = {} \<and>
     (\<forall>p \<in> set ps. match_slug 1 62 (gp_id p) \<and> secure_url parse loopback (gp_base_url p) \<and> trim_space (gp_key_file p) \<noteq> [])"
proof (induction ps arbitrary: seen)
  case (Cons p ps)
  have p: "match_slug 1 62 (gp_id p)" "gp_id p \<notin> set seen" "secure_url parse loopback (gp_base_url p)"
    "trim_space (gp_key_file p) \<noteq> []" "validate_providers parse loopback (gp_id p # seen) ps = Inr out"
    using Cons.prems by (simp_all split: if_split_asm)
  from Cons.IH [OF p(5)] p(1-4) show ?case by auto
qed simp

lemma validate_models_Inr:
  "validate_models providers seen ms = Inr out \<Longrightarrow>
     distinct (map gm_id ms) \<and> set seen \<inter> gm_id ` set ms = {} \<and>
     (\<forall>m \<in> set ms. match_slug 1 62 (gm_id m) \<and> gm_provider m \<in> set providers \<and> trim_space (gm_upstream m) \<noteq> [])"
proof (induction ms arbitrary: seen)
  case (Cons m ms)
  have m: "match_slug 1 62 (gm_id m)" "gm_id m \<notin> set seen" "gm_provider m \<in> set providers"
    "trim_space (gm_upstream m) \<noteq> []" "validate_models providers (gm_id m # seen) ms = Inr out"
    using Cons.prems by (simp_all split: if_split_asm)
  from Cons.IH [OF m(5)] m(1-4) show ?case by auto
qed simp

lemma validate_config_None:
  assumes "validate_config parse loopback cfg = None"
  shows "gc_providers cfg \<noteq> []" "gc_models cfg \<noteq> []"
    "distinct (map gp_id (gc_providers cfg))" "distinct (map gm_id (gc_models cfg))"
    "p \<in> set (gc_providers cfg) \<Longrightarrow> match_slug 1 62 (gp_id p) \<and> secure_url parse loopback (gp_base_url p)"
    "m \<in> set (gc_models cfg) \<Longrightarrow> match_slug 1 62 (gm_id m) \<and> gm_provider m \<in> gp_id ` set (gc_providers cfg) \<and>
       trim_space (gm_upstream m) \<noteq> []"
proof -
  obtain ps ms where v: "validate_providers parse loopback [] (gc_providers cfg) = Inr ps"
      "validate_models ps [] (gc_models cfg) = Inr ms" "gc_providers cfg \<noteq> []" "gc_models cfg \<noteq> []"
    using assms unfolding validate_config_def by (auto split: if_split_asm sum.split_asm)
  note p = validate_providers_Inr [OF v(1)] and m = validate_models_Inr [OF v(2)]
  show "gc_providers cfg \<noteq> []" "gc_models cfg \<noteq> []" by (rule v(3), rule v(4))
  show "distinct (map gp_id (gc_providers cfg))" "distinct (map gm_id (gc_models cfg))" using p m by blast+
  show "match_slug 1 62 (gp_id p) \<and> secure_url parse loopback (gp_base_url p)" if "p \<in> set (gc_providers cfg)"
    using p that by blast
  show "match_slug 1 62 (gm_id m) \<and> gm_provider m \<in> gp_id ` set (gc_providers cfg) \<and> trim_space (gm_upstream m) \<noteq> []"
    if "m \<in> set (gc_models cfg)"
    using m p that by auto
qed

lemma load_providers_Inr:
  assumes "load_providers files ps = Inr qs" "distinct (map gp_id ps)" "p \<in> set ps"
  shows "\<exists>key. files (gp_key_file p) = Some key \<and> trim_space key \<noteq> [] \<and>
    map_of qs (gp_id p) = Some \<lparr>pv_id = gp_id p,
      pv_endpoint = trim_right_char CHR ''/'' (gp_base_url p) @ ''/chat/completions'', pv_key = trim_space key\<rparr>"
  using assms
proof (induction ps arbitrary: qs)
  case (Cons a ps)
  then obtain key rest where a: "files (gp_key_file a) = Some key" "trim_space key \<noteq> []" "load_providers files ps = Inr rest"
      "qs = (gp_id a, \<lparr>pv_id = gp_id a,
        pv_endpoint = trim_right_char CHR ''/'' (gp_base_url a) @ ''/chat/completions'', pv_key = trim_space key\<rparr>) # rest"
    by (auto split: option.split_asm if_split_asm sum.split_asm)
  show ?case
  proof (cases "p = a")
    case True
    then show ?thesis using a by simp
  next
    case False
    then have "p \<in> set ps" using Cons.prems(3) by simp
    moreover from this have "gp_id p \<noteq> gp_id a" using Cons.prems(2) by (metis distinct.simps(2) image_eqI list.set_map list.simps(9))
    ultimately show ?thesis using Cons.IH [OF a(3)] Cons.prems(2) a(4) by simp
  qed
qed simp

lemma new_router_InrE:
  assumes "new_router parse loopback files cfg = Inr R"
  obtains ps where "validate_config parse loopback cfg = None" "load_providers files (gc_providers cfg) = Inr ps"
    "R = \<lparr>ro_models = map (\<lambda>m. (gm_id m, route_of m)) (gc_models cfg),
       ro_list = map public_of (gc_models cfg), ro_providers = ps\<rparr>"
  using assms unfolding new_router_def by (auto split: option.split_asm sum.split_asm)

text \<open>What a route leads to: the configured model and its provider with the key read for it.\<close>

lemma new_router_route:
  assumes "new_router parse loopback files cfg = Inr R" and "map_of (ro_models R) alias = Some route"
  obtains m p key where "m \<in> set (gc_models cfg)" "gm_id m = alias" "route = route_of m"
    "p \<in> set (gc_providers cfg)" "gp_id p = gm_provider m" "files (gp_key_file p) = Some key"
    "lookup_or zero_provider (ro_providers R) (mr_provider route) = \<lparr>pv_id = gp_id p,
      pv_endpoint = trim_right_char CHR ''/'' (gp_base_url p) @ ''/chat/completions'', pv_key = trim_space key\<rparr>"
    "secure_url parse loopback (gp_base_url p)"
proof -
  obtain ps where ps: "validate_config parse loopback cfg = None" "load_providers files (gc_providers cfg) = Inr ps"
      "R = \<lparr>ro_models = map (\<lambda>m. (gm_id m, route_of m)) (gc_models cfg),
         ro_list = map public_of (gc_models cfg), ro_providers = ps\<rparr>"
    using new_router_InrE [OF assms(1)] by metis
  have "(alias, route) \<in> set (map (\<lambda>m. (gm_id m, route_of m)) (gc_models cfg))"
    using assms(2) ps(3) by (auto dest: map_of_SomeD)
  then obtain m where m: "m \<in> set (gc_models cfg)" "gm_id m = alias" "route = route_of m" by auto
  obtain p where p: "p \<in> set (gc_providers cfg)" "gp_id p = gm_provider m"
    using validate_config_None(6) [OF ps(1) m(1)] by auto
  obtain key where key: "files (gp_key_file p) = Some key"
      "map_of ps (gp_id p) = Some \<lparr>pv_id = gp_id p,
        pv_endpoint = trim_right_char CHR ''/'' (gp_base_url p) @ ''/chat/completions'', pv_key = trim_space key\<rparr>"
    using load_providers_Inr [OF ps(2) validate_config_None(3) [OF ps(1)] p(1)] by blast
  show thesis
    using m p key validate_config_None(5) [OF ps(1) p(1)] ps(3)
    by (intro that [of m p key]) (simp_all add: lookup_or_def route_of_def)
qed

section \<open>What goes out\<close>

lemma rewrite_InrE:
  assumes "rewrite_request R raw allowed = Inr (alias, stream, out)"
  obtains v envelope mv messages route where "json_parse raw = Some v" "into_map v = Some (Some envelope)"
    "map_of envelope ''model'' = Some mv" "into_string mv = Some alias" "trim_space alias \<noteq> []"
    "Option.bind (map_of envelope ''messages'') into_slice = Some messages" "messages \<noteq> []"
    "alias \<in> set allowed" "map_of (ro_models R) alias = Some route"
    "(case map_of envelope ''stream'' of None \<Rightarrow> Some False | Some v \<Rightarrow> into_bool v) = Some stream"
    "out = marshal_map (put_member ''model'' (JString (quote (mr_upstream route))) envelope)"
proof -
  obtain envelope where e: "Option.bind (json_parse raw) into_map = Some (Some envelope)" "raw \<noteq> []"
    using assms unfolding rewrite_request_def by (auto split: if_split_asm option.split_asm)
  obtain al where al: "Option.bind (map_of envelope ''model'') into_string = Some al" "trim_space al \<noteq> []"
    using assms e unfolding rewrite_request_def by (auto split: if_split_asm option.split_asm)
  obtain messages where ms: "Option.bind (map_of envelope ''messages'') into_slice = Some messages" "messages \<noteq> []"
    using assms e al unfolding rewrite_request_def by (auto split: if_split_asm option.split_asm)
  obtain route str where r: "al \<in> set allowed" "map_of (ro_models R) al = Some route"
      "(case map_of envelope ''stream'' of None \<Rightarrow> Some False | Some v \<Rightarrow> into_bool v) = Some str"
    using assms e al ms unfolding rewrite_request_def by (auto split: if_split_asm option.split_asm)
  have eq: "alias = al" "stream = str" "out = marshal_map (put_member ''model'' (JString (quote (mr_upstream route))) envelope)"
    using assms e al ms r unfolding rewrite_request_def by simp_all
  obtain v where v: "json_parse raw = Some v" "into_map v = Some (Some envelope)"
    using e(1) by (auto simp: bind_eq_Some_conv)
  obtain mv where "map_of envelope ''model'' = Some mv" "into_string mv = Some al"
    using al(1) by (auto simp: bind_eq_Some_conv)
  then show thesis using v al(2) ms r eq that by blast
qed

lemma ascii_utf8: "list_all is_ascii s \<Longrightarrow> utf8_valid s"
  by (induction s) (simp_all add: utf8_valid_ascii is_ascii_def)

text \<open>A member replaced by a string: the outgoing body, read back, is the incoming object otherwise.\<close>

lemma replace_member:
  assumes "json_parse raw = Some v" "into_map v = Some (Some envelope)" "utf8_valid name" "utf8_valid value"
  obtains v' envelope' where
    "json_parse (marshal_map (put_member name (JString (quote value)) envelope)) = Some v'"
    "into_map v' = Some (Some envelope')"
    "Option.bind (map_of envelope' name) into_string = Some value"
    "\<And>k. k \<noteq> name \<Longrightarrow> map_of envelope' k = map_option html_json (map_of envelope k)"
proof -
  let ?m = "put_member name (JString (quote value)) envelope"
  have ok: "json_ok max_depth v" by (rule json_parse_ok [OF assms(1)])
  have up: "json_ok n (JString (quote value))" for n by (simp add: literal_quote)
  have "utf8_valid k \<and> json_ok (max_depth - 1) u" if "(k, u) \<in> set ?m" for k u
    using put_member_set [OF that] into_map_ok(2) [OF assms(2) ok] up assms(3) by auto
  then have "raw_ok ?m"
    using put_member_distinct [OF into_map_ok(1) [OF assms(2) ok]] by (auto simp: raw_ok_def)
  then obtain v' m' where v': "json_parse (marshal_map ?m) = Some v'" "into_map v' = Some (Some m')"
      "map_of m' = (\<lambda>k. map_option html_json (map_of ?m k))"
    using marshal_map_roundtrip by metis
  have "into_string (html_json (JString (quote value))) = Some value"
    using html_json_into(1) [OF up] unquote_quote [OF assms(4)] by simp
  then have "Option.bind (map_of m' name) into_string = Some value"
    by (simp add: v'(3) put_member_map_of)
  moreover have "map_of m' k = map_option html_json (map_of envelope k)" if "k \<noteq> name" for k
    using that by (simp add: v'(3) put_member_map_of)
  ultimately show thesis using v'(1,2) that by blast
qed

lemma model_utf8: "utf8_valid ''model''"
  by (rule ascii_utf8) (simp add: is_ascii_def)

end
