(* ===== verification/Gateway_Api.thy ===== *)
theory Gateway_Api
  imports Gateway
begin

text \<open>
  \<open>services/ai-gateway/internal/httpapi\<close> and the start-up in \<open>cmd/ai-gateway\<close>: which models a
  token may use, the two protected handlers, the copying of a provider's body and the chain
  of handlers a request passes. Every answer comes with the request that went to a provider,
  if one did.
\<close>

datatype write_event = Wrote string | Flushed

datatype copy_end = Copied | Write_failed | Read_error

datatype gateway_body =
    Gw_error string
  | Gw_models "public_model list"
  | Gw_copied "write_event list" copy_end
  | Gw_plain string

type_synonym gateway_answer = "provider_request option \<times> gateway_body response"

definition gw_json :: "nat \<Rightarrow> gateway_body \<Rightarrow> gateway_body response" where
  "gw_json code b = \<lparr>status = code, headers = json_headers, body = Some b\<rparr>"

definition gw_error :: "nat \<Rightarrow> string \<Rightarrow> gateway_body response" where
  "gw_error code e = gw_json code (Gw_error e)"

definition gw_no_content :: "gateway_body response" where
  "gw_no_content = \<lparr>status = 204, headers = [], body = None\<rparr>"

definition max_request_body :: nat where "max_request_body = 4 * 2 ^ 20"

definition gateway_audience :: string where "gateway_audience = ''homehub-ai-gateway''"

definition model_permission :: string where "model_permission = ''ai.model.''"

section \<open>Which models a token may use\<close>

definition allowed_models :: "string list \<Rightarrow> claims option \<Rightarrow> string list option" where
  "allowed_models ids claims =
     (case claims of
        None \<Rightarrow> None
      | Some c \<Rightarrow>
          if tc_aud c \<noteq> gateway_audience \<or> tc_azp c = [] then None
          else if has_permission c system_root then Some ids
          else
            let allowed = map (trim_prefix model_permission) (filter (has_prefix model_permission) (tc_permissions c)) in
            if allowed \<noteq> [] then Some allowed else None)"

section \<open>Handlers\<close>

definition models_handler :: "router \<Rightarrow> claims option \<Rightarrow> gateway_body response" where
  "models_handler R claims =
     (case allowed_models (model_ids R) claims of
        None \<Rightarrow> gw_error 403 ''invalid_delegation''
      | Some models \<Rightarrow> gw_json 200 (Gw_models (models_allowed R models)))"

definition copy_response_headers :: "string \<Rightarrow> bool \<Rightarrow> (string \<times> string) list" where
  "copy_response_headers source_type stream =
     (''Content-Type'', if source_type \<noteq> [] then source_type
        else if stream then ''text/event-stream'' else ''application/json'') #
     (if stream then [(''Cache-Control'', ''no-cache''), (''X-Accel-Buffering'', ''no'')] else [])"

text \<open>
  \<open>copyBody\<close>; \<open>ok n\<close> says whether the \<open>n\<close>-th write to the client succeeds. Both the loop for
  streams and \<open>io.Copy\<close> write every non-empty read before they look at its error; the loop
  flushes after each write.
\<close>

fun copy_body :: "(nat \<Rightarrow> bool) \<Rightarrow> bool \<Rightarrow> nat \<Rightarrow> (string \<times> read_result) list \<Rightarrow> write_event list \<times> copy_end" where
  "copy_body ok stream n [] = ([], Copied)"
| "copy_body ok stream n ((bytes, r) # reads) =
     (if bytes \<noteq> [] \<and> \<not> ok n then ([], Write_failed)
      else
        let written = (if bytes = [] then [] else if stream then [Wrote bytes, Flushed] else [Wrote bytes]) in
        case r of
          Eof \<Rightarrow> (written, Copied)
        | Broken \<Rightarrow> (written, Read_error)
        | More \<Rightarrow> (case copy_body ok stream (if bytes = [] then n else n + 1) reads of (es, e) \<Rightarrow> (written @ es, e)))"

fun gateway_error_response :: "gateway_error \<Rightarrow> gateway_body response" where
  "gateway_error_response Invalid_request = gw_error 400 ''invalid_request''"
| "gateway_error_response Model_forbidden = gw_error 403 ''model_not_allowed''"
| "gateway_error_response Model_not_found = gw_error 404 ''model_not_found''"
| "gateway_error_response Provider_failed = gw_error 502 ''provider_unavailable''"

text \<open>
  The answer to a result. A provider's status below 200 never ends a round trip of the
  client, so the conversion of an accepted status loses nothing.
\<close>

definition result_response :: "(nat \<Rightarrow> bool) \<Rightarrow> gateway_result \<Rightarrow> gateway_body response" where
  "result_response ok g =
     (let code = pr_status (gs_reply g) in
      if code < 200 \<or> code \<ge> 300 then
        (if code = 429 then gw_error 429 ''upstream_rate_limited''
         else if code = 401 \<or> code = 403 then gw_error 502 ''provider_auth_failed''
         else gw_error 502 ''provider_error'')
      else
        (case copy_body ok (gs_stream g) 0 (pr_reads (gs_reply g)) of
           (es, e) \<Rightarrow> \<lparr>status = nat code, headers = copy_response_headers (pr_type (gs_reply g)) (gs_stream g),
                      body = Some (Gw_copied es e)\<rparr>))"

text \<open>The body of a request is \<open>None\<close> where reading it fails.\<close>

definition chat_completions ::
  "router \<Rightarrow> (provider_request \<Rightarrow> provider_reply option) \<Rightarrow> (nat \<Rightarrow> bool) \<Rightarrow> claims option \<Rightarrow> string option \<Rightarrow> string \<Rightarrow>
   gateway_answer" where
  "chat_completions R client ok claims raw rid =
     (case allowed_models (model_ids R) claims of
        None \<Rightarrow> (None, gw_error 403 ''invalid_delegation'')
      | Some models \<Rightarrow>
          (case raw of
             None \<Rightarrow> (None, gw_error 400 ''invalid_request'')
           | Some bytes \<Rightarrow>
               if length bytes > max_request_body then (None, gw_error 400 ''invalid_request'')
               else case complete R client bytes models rid of
                 (sent, Inl e) \<Rightarrow> (sent, gateway_error_response e)
               | (sent, Inr g) \<Rightarrow> (sent, result_response ok g)))"

section \<open>Routing\<close>

text \<open>What \<open>http.ServeMux\<close> answers where no handler is registered for the path or for the method.\<close>

definition mux_refusal :: "nat \<Rightarrow> gateway_body response" where
  "mux_refusal code =
     http_error Gw_plain code (if code = 404 then ''404 page not found'' else ''Method Not Allowed'')"

datatype gateway_route = Gw_health | Gw_list_models | Gw_chat | Gw_unknown nat

text \<open>The two multiplexers; a \<open>GET\<close> pattern serves \<open>HEAD\<close> as well.\<close>

definition gateway_route_of :: "string \<Rightarrow> string \<Rightarrow> gateway_route" where
  "gateway_route_of m path =
     (if path \<in> {''/health/live'', ''/health/ready''} \<and> m \<in> {''GET'', ''HEAD''} then Gw_health
      else if path = ''/v1/models'' then (if m \<in> {''GET'', ''HEAD''} then Gw_list_models else Gw_unknown 405)
      else if path = ''/v1/chat/completions'' then (if m = ''POST'' then Gw_chat else Gw_unknown 405)
      else Gw_unknown 404)"

definition gateway_handler ::
  "router \<Rightarrow> (string \<Rightarrow> identity_error + claims) \<Rightarrow> (provider_request \<Rightarrow> provider_reply option) \<Rightarrow> (nat \<Rightarrow> bool) \<Rightarrow>
   string option \<Rightarrow> request \<Rightarrow> string \<Rightarrow> gateway_answer" where
  "gateway_handler R vfy client ok raw r rid =
     (case gateway_route_of (http_method r) (url_path r) of
        Gw_health \<Rightarrow> (None, gw_no_content)
      | route \<Rightarrow>
          (case authenticate vfy [] r of
             Inl (code, e) \<Rightarrow> (None, gw_error code e)
           | Inr c \<Rightarrow>
               (case route of
                  Gw_list_models \<Rightarrow> (None, models_handler R (Some c))
                | Gw_chat \<Rightarrow> chat_completions R client ok (Some c) raw rid
                | Gw_unknown code \<Rightarrow> (None, mux_refusal code)
                | Gw_health \<Rightarrow> (None, gw_no_content))))"

text \<open>
  The handler behind \<open>RequestID\<close>, \<open>Recover\<close> and \<open>SecurityHeaders\<close>. None of the handlers
  panics. The first component follows the request identifier the handler is given.
\<close>

definition gateway_serve ::
  "router \<Rightarrow> (string \<Rightarrow> identity_error + claims) \<Rightarrow> (provider_request \<Rightarrow> provider_reply option) \<Rightarrow> (nat \<Rightarrow> bool) \<Rightarrow>
   string option \<Rightarrow> string option \<Rightarrow> request \<Rightarrow> provider_request option \<times> gateway_body response option" where
  "gateway_serve R vfy client ok raw rnd r =
     (Option.bind (request_id_of rnd r) (\<lambda>rid. fst (gateway_handler R vfy client ok raw r rid)),
      with_request_id Gw_plain rnd (recover Gw_plain (security_headers
        (\<lambda>r rid. Some (snd (gateway_handler R vfy client ok raw r rid))))) r [])"

section \<open>Start-up\<close>

datatype gateway_start_error = Load_keys fetch_error | Init_verifier identity_error | Bad_config gateway_config_error

definition gateway_start ::
  "fetch_error + (string \<times> string) list \<Rightarrow> gateway_config_error + gateway_config \<Rightarrow>
   (gateway_config \<Rightarrow> gateway_config_error + router) \<Rightarrow> gateway_start_error + (verifier \<times> router)" where
  "gateway_start keys cfg mk =
     (case keys of
        Inl e \<Rightarrow> Inl (Load_keys e)
      | Inr ks \<Rightarrow>
          (case new_verifier ks gateway_audience (2 * minute) of
             Inl e \<Rightarrow> Inl (Init_verifier e)
           | Inr v \<Rightarrow>
               (case cfg of
                  Inl e \<Rightarrow> Inl (Bad_config e)
                | Inr c \<Rightarrow> (case mk c of Inl e \<Rightarrow> Inl (Bad_config e) | Inr R \<Rightarrow> Inr (v, R)))))"

section \<open>Lemmas\<close>

lemma allowed_models_SomeE:
  assumes "allowed_models ids claims = Some allowed"
  obtains c where "claims = Some c" "tc_aud c = gateway_audience" "tc_azp c \<noteq> []"
    "system_root \<in> set (tc_permissions c) \<and> allowed = ids \<or>
     system_root \<notin> set (tc_permissions c) \<and> (\<forall>m. m \<in> set allowed \<longleftrightarrow> model_permission @ m \<in> set (tc_permissions c))"
proof -
  obtain c where c: "claims = Some c" using assms by (cases claims) (simp_all add: allowed_models_def)
  have "m \<in> set (map (trim_prefix model_permission) (filter (has_prefix model_permission) ps)) \<longleftrightarrow>
      model_permission @ m \<in> set ps" for m ps
    by (auto simp: has_prefix_iff image_iff)
  then show thesis
    using assms c by (intro that [of c]) (auto simp: allowed_models_def Let_def has_permission_iff split: if_split_asm)
qed

text \<open>What is written is what was read, up to the first error.\<close>

fun written_bytes :: "write_event list \<Rightarrow> string" where
  "written_bytes [] = []"
| "written_bytes (Wrote s # es) = s @ written_bytes es"
| "written_bytes (Flushed # es) = written_bytes es"

fun read_bytes :: "(string \<times> read_result) list \<Rightarrow> string" where
  "read_bytes [] = []"
| "read_bytes ((s, r) # reads) = s @ (if r = More then read_bytes reads else [])"

lemma written_bytes_append [simp]: "written_bytes (es @ fs) = written_bytes es @ written_bytes fs"
  by (induction es rule: written_bytes.induct) simp_all

lemma copy_body_bytes: "(\<And>n. ok n) \<Longrightarrow> written_bytes (fst (copy_body ok stream n reads)) = read_bytes reads"
  by (induction ok stream n reads rule: copy_body.induct)
    (auto simp: Let_def split: prod.split read_result.split)

lemma copy_body_prefix: "\<exists>rest. read_bytes reads = written_bytes (fst (copy_body ok stream n reads)) @ rest"
proof (induction ok stream n reads rule: copy_body.induct)
  case (2 ok stream n bytes r reads)
  then show ?case by (auto simp: Let_def split: prod.split read_result.split)
qed simp

lemma copy_body_copied: "snd (copy_body ok stream n reads) = Copied \<Longrightarrow> written_bytes (fst (copy_body ok stream n reads)) = read_bytes reads"
proof (induction ok stream n reads rule: copy_body.induct)
  case (2 ok stream n bytes r reads)
  then show ?case by (auto simp: Let_def split: prod.splits read_result.splits if_split_asm)
qed simp

end
