(* ===== verification/Gateway_Safety.thy ===== *)
theory Gateway_Safety
  imports Gateway_Api
begin

text \<open>
  What the AI gateway promises: a provider is called only for a model the token grants, with
  the provider's own key and the caller's request unchanged but for the model name; the
  models it lists are the ones it forwards for; a provider's answer is passed on as it is.
\<close>

lemma gateway_serve_sent:
  assumes "gateway_serve R vfy client ok raw rnd r = (Some q, resp)"
  obtains c rid models bytes where "authenticate vfy [] r = Inr c" "http_method r = ''POST''"
    "url_path r = ''/v1/chat/completions''" "allowed_models (model_ids R) (Some c) = Some models"
    "raw = Some bytes" "length bytes \<le> max_request_body" "fst (complete R client bytes models rid) = Some q"
    "resp = Some (add_headers [(request_id_header, rid)]
       (add_headers [(''X-Content-Type-Options'', ''nosniff''), (''Referrer-Policy'', ''no-referrer'')]
         (case snd (complete R client bytes models rid) of
            Inl e \<Rightarrow> gateway_error_response e | Inr g \<Rightarrow> result_response ok g)))"
proof -
  have q: "Option.bind (request_id_of rnd r) (\<lambda>i. fst (gateway_handler R vfy client ok raw r i)) = Some q"
    and resp: "resp = with_request_id Gw_plain rnd (recover Gw_plain (security_headers
      (\<lambda>r rid. Some (snd (gateway_handler R vfy client ok raw r rid))))) r []"
    using assms unfolding gateway_serve_def by simp_all
  from q obtain i where i: "request_id_of rnd r = Some i" "fst (gateway_handler R vfy client ok raw r i) = Some q"
    by (auto simp: bind_eq_Some_conv)
  from i(2) have chat: "gateway_route_of (http_method r) (url_path r) = Gw_chat"
    unfolding gateway_handler_def by (auto split: gateway_route.splits sum.splits)
  then have path: "url_path r = ''/v1/chat/completions''" "http_method r = ''POST''"
    unfolding gateway_route_of_def by (auto split: if_split_asm)
  obtain c where c: "authenticate vfy [] r = Inr c" "fst (chat_completions R client ok (Some c) raw i) = Some q"
    using i(2) chat unfolding gateway_handler_def by (auto split: sum.splits)
  obtain models bytes where m: "allowed_models (model_ids R) (Some c) = Some models" "raw = Some bytes"
      "length bytes \<le> max_request_body" "fst (complete R client bytes models i) = Some q"
    using c(2) unfolding chat_completions_def
    by (auto split: option.split_asm if_split_asm prod.split_asm sum.split_asm)
  have "snd (gateway_handler R vfy client ok raw r i) = (case snd (complete R client bytes models i) of
      Inl e \<Rightarrow> gateway_error_response e | Inr g \<Rightarrow> result_response ok g)"
    unfolding gateway_handler_def chat_completions_def using chat c(1) m(1-3)
    by (auto split: prod.split sum.split)
  then have "resp = Some (add_headers [(request_id_header, i)]
       (add_headers [(''X-Content-Type-Options'', ''nosniff''), (''Referrer-Policy'', ''no-referrer'')]
         (case snd (complete R client bytes models i) of
            Inl e \<Rightarrow> gateway_error_response e | Inr g \<Rightarrow> result_response ok g)))"
    using i(1) unfolding resp with_request_id_def recover_def security_headers_def by simp
  then show thesis using c(1) path m by (intro that)
qed

lemma complete_sent:
  assumes "fst (complete R client bytes models rid) = Some q"
  obtains al stream out route where "rewrite_request R bytes models = Inr (al, stream, out)"
    "map_of (ro_models R) al = Some route"
    "q = provider_request_of (lookup_or zero_provider (ro_providers R) (mr_provider route)) stream rid out"
    "snd (complete R client bytes models rid) = (case client q of None \<Rightarrow> Inl Provider_failed
       | Some rp \<Rightarrow> Inr \<lparr>gs_reply = rp, gs_alias = pm_id (mr_model route),
           gs_provider = pv_id (lookup_or zero_provider (ro_providers R) (mr_provider route)), gs_stream = stream\<rparr>)"
proof -
  obtain al stream out where rw: "rewrite_request R bytes models = Inr (al, stream, out)"
    using assms unfolding complete_def by (auto split: sum.split_asm)
  obtain route where r: "map_of (ro_models R) al = Some route" using rewrite_InrE [OF rw] by metis
  have "lookup_or zero_route (ro_models R) al = route" using r by (simp add: lookup_or_def)
  then show thesis using assms rw r by (intro that [of al stream out route]) (auto simp add: complete_def Let_def)
qed

lemma authenticate_any: "authenticate vfy [] r = Inr c \<Longrightarrow> \<exists>tok. bearer_token r = Inr tok \<and> vfy tok = Inr c"
  by (auto simp: authenticate_def split: sum.split_asm)


text \<open>
  C22. What goes out is what came in: the provider gets a JSON object with the members of the
  request and their values, but for \<open>model\<close>, in which the al is replaced by the provider's
  name for that model; and whatever the provider answers with a 2xx status is passed on byte
  for byte, as long as reading and writing succeed.
\<close>

theorem gateway_forwards:
  assumes "new_router parse loopback files cfg = Inr R" and "\<forall>m \<in> set (gc_models cfg). utf8_valid (gm_upstream m)"
    and "gateway_serve R vfy client ok raw rnd r = (Some q, resp)"
  shows "\<exists>bytes v envelope mv m v' envelope'. raw = Some bytes \<and> json_parse bytes = Some v \<and> into_map v = Some (Some envelope) \<and>
    map_of envelope ''model'' = Some mv \<and> into_string mv = Some (gm_id m) \<and> m \<in> set (gc_models cfg) \<and>
    json_parse (pq_body q) = Some v' \<and> into_map v' = Some (Some envelope') \<and>
    Option.bind (map_of envelope' ''model'') into_string = Some (gm_upstream m) \<and>
    (\<forall>k. k = ''model'' \<or> map_of envelope' k = map_option html_json (map_of envelope k))"
proof -
  obtain models bytes rid where c: "raw = Some bytes" "fst (complete R client bytes models rid) = Some q"
    using gateway_serve_sent [OF assms(3)] by metis
  obtain al stream out route where s: "rewrite_request R bytes models = Inr (al, stream, out)"
      "map_of (ro_models R) al = Some route"
      "q = provider_request_of (lookup_or zero_provider (ro_providers R) (mr_provider route)) stream rid out"
    using complete_sent [OF c(2)] by metis
  obtain v envelope mv where e: "json_parse bytes = Some v" "into_map v = Some (Some envelope)"
      "map_of envelope ''model'' = Some mv" "into_string mv = Some al"
      "out = marshal_map (put_member ''model'' (JString (quote (mr_upstream route))) envelope)"
    using rewrite_InrE [OF s(1)] s(2) by (metis option.inject)
  obtain m where m: "m \<in> set (gc_models cfg)" "gm_id m = al" "route = route_of m"
    using new_router_route [OF assms(1) s(2)] by metis
  obtain v' envelope' where e': "json_parse out = Some v'" "into_map v' = Some (Some envelope')"
      "Option.bind (map_of envelope' ''model'') into_string = Some (gm_upstream m)"
      "\<And>k. k \<noteq> ''model'' \<Longrightarrow> map_of envelope' k = map_option html_json (map_of envelope k)"
    using replace_member [OF e(1,2) model_utf8 bspec [OF assms(2) m(1)]] e(5) m(3) by (metis route_of_def model_route.select_convs(2))
  have out: "pq_body q = out" by (simp add: s(3) provider_request_of_def)
  have all: "\<forall>k. k = ''model'' \<or> map_of envelope' k = map_option html_json (map_of envelope k)" using e'(4) by blast
  show ?thesis
    unfolding out
    by (intro exI conjI) (rule c(1), rule e(1), rule e(2), rule e(3), rule e(4) [folded m(2)], rule m(1),
      rule e'(1), rule e'(2), rule e'(3), rule all)
qed

text \<open>When \<open>rewrite\<close> succeeds.\<close>

definition chat_request :: "string \<Rightarrow> string \<Rightarrow> bool" where
  "chat_request raw al \<longleftrightarrow> raw \<noteq> [] \<and> trim_space al \<noteq> [] \<and>
     (\<exists>envelope mv. Option.bind (json_parse raw) into_map = Some (Some envelope) \<and>
       map_of envelope ''model'' = Some mv \<and> into_string mv = Some al \<and>
       (\<exists>messages. Option.bind (map_of envelope ''messages'') into_slice = Some messages \<and> messages \<noteq> []) \<and>
       (map_of envelope ''stream'' = None \<or> (\<exists>v b. map_of envelope ''stream'' = Some v \<and> into_bool v = Some b)))"

lemma rewrite_chat_request:
  assumes "chat_request raw al"
  shows "(\<exists>out. rewrite_request R raw allowed = Inr out) \<longleftrightarrow> al \<in> set allowed \<and> map_of (ro_models R) al \<noteq> None"
proof -
  obtain envelope mv messages where e: "raw \<noteq> []" "trim_space al \<noteq> []"
      "Option.bind (json_parse raw) into_map = Some (Some envelope)" "map_of envelope ''model'' = Some mv"
      "into_string mv = Some al" "Option.bind (map_of envelope ''messages'') into_slice = Some messages" "messages \<noteq> []"
    and st: "map_of envelope ''stream'' = None \<or> (\<exists>v b. map_of envelope ''stream'' = Some v \<and> into_bool v = Some b)"
    using assms unfolding chat_request_def by blast
  obtain b where "(case map_of envelope ''stream'' of None \<Rightarrow> Some False | Some v \<Rightarrow> into_bool v) = Some b"
    using st by (elim disjE) auto
  then show ?thesis
    using e unfolding rewrite_request_def by (simp split: option.split)
qed

lemma new_router_lists:
  assumes "new_router parse loopback files cfg = Inr R"
  shows "map_of (ro_models R) al \<noteq> None \<longleftrightarrow> al \<in> pm_id ` set (ro_list R)"
  by (rule new_router_InrE [OF assms]) (auto simp: map_of_eq_None_iff image_image public_of_def)

lemma complete_sends: "fst (complete R client raw models rid) \<noteq> None \<longleftrightarrow> (\<exists>out. rewrite_request R raw models = Inr out)"
  unfolding complete_def Let_def by (cases "rewrite_request R raw models") (auto split: prod.split)

text \<open>
  C23. The list of models and the completions agree: for every token, a well-formed chat request
  for an alias goes to a provider exactly if \<open>GET /v1/models\<close> lists the alias.
\<close>

theorem gateway_lists_forwardable:
  assumes "new_router parse loopback files cfg = Inr R"
    and "chat_request bytes al" and "length bytes \<le> max_request_body"
  shows "fst (chat_completions R client ok claims (Some bytes) rid) \<noteq> None \<longleftrightarrow>
    (\<exists>ms m. body (models_handler R claims) = Some (Gw_models ms) \<and> m \<in> set ms \<and> pm_id m = al)"
proof (cases "allowed_models (model_ids R) claims")
  case None
  then show ?thesis by (simp add: chat_completions_def models_handler_def gw_error_def gw_json_def)
next
  case (Some models)
  have sent: "fst (chat_completions R client ok claims (Some bytes) rid) = fst (complete R client bytes models rid)"
    using Some assms(3) by (simp add: chat_completions_def split: prod.split sum.split)
  have "fst (complete R client bytes models rid) \<noteq> None \<longleftrightarrow> al \<in> set models \<and> al \<in> pm_id ` set (ro_list R)"
    unfolding complete_sends rewrite_chat_request [OF assms(2)] new_router_lists [OF assms(1)] ..
  also have "\<dots> \<longleftrightarrow> (\<exists>m \<in> set (models_allowed R models). pm_id m = al)"
    by (auto simp: models_allowed_def)
  finally show ?thesis
    unfolding sent using Some by (simp add: models_handler_def gw_json_def Bex_def)
qed


end
