(* ===== verification/Gateway_Examples.thy ===== *)
theory Gateway_Examples
  imports Gateway_Safety
begin

text \<open>The properties of the gateway at a concrete configuration, token and request.\<close>

definition ex_gw_url :: "string \<Rightarrow> url option" where
  "ex_gw_url s = Some \<lparr>ur_scheme = ''https'', ur_host = ''api.example'', ur_hostname = ''api.example'', ur_user = False,
     ur_fragment = [], ur_text = s\<rparr>"

definition ex_gw_config :: gateway_config where
  "ex_gw_config = \<lparr>gc_providers = [\<lparr>gp_id = ''deep'', gp_base_url = ''https://api.example/v1/'', gp_key_file = ''/key''\<rparr>],
     gc_models = [\<lparr>gm_id = ''chat'', gm_description = [], gm_provider = ''deep'', gm_upstream = ''deep-chat''\<rparr>]\<rparr>"

definition ex_gw_provider :: upstream_provider where
  "ex_gw_provider = \<lparr>pv_id = ''deep'', pv_endpoint = ''https://api.example/v1/chat/completions'', pv_key = ''secret''\<rparr>"

definition ex_gw_model :: public_model where
  "ex_gw_model = \<lparr>pm_id = ''chat'', pm_object = ''model'', pm_owner = ''homehub'', pm_description = []\<rparr>"

definition ex_router :: router where
  "ex_router = \<lparr>ro_models = [(''chat'', \<lparr>mr_model = ex_gw_model, mr_upstream = ''deep-chat'', mr_provider = ''deep''\<rparr>)],
     ro_list = [ex_gw_model], ro_providers = [(''deep'', ex_gw_provider)]\<rparr>"

lemma ex_new_router:
  "new_router ex_gw_url (\<lambda>_. False) (\<lambda>f. if f = ''/key'' then Some ''secret '' else None) ex_gw_config = Inr ex_router"
  by code_simp

definition ex_gw_claims :: claims where
  "ex_gw_claims = \<lparr>tc_iss = issuer_name, tc_aud = ''homehub-ai-gateway'', tc_sub = ''human:o1'', tc_act = None,
     tc_azp = ''key-1'', tc_realm = ''homehub'', tc_permissions = [''ai.model.chat''], tc_sid = [], tc_jti = ''j'',
     tc_delegation = [], tc_amr = [], tc_auth_time = 0, tc_iat = 0, tc_nbf = 0, tc_exp = 0\<rparr>"

definition ex_gw_verify :: "string \<Rightarrow> identity_error + claims" where
  "ex_gw_verify t = (if t = ''tok'' then Inr ex_gw_claims else Inl Invalid_token)"

definition ex_chat_body :: string where
  "ex_chat_body = (let q = [CHR 0x22] in
     ''{'' @ q @ ''model'' @ q @ '': '' @ q @ ''chat'' @ q @ '','' @ q @ ''messages'' @ q @ '':['' @ q @ ''hi'' @ q @ '']}'')"

definition ex_gw_request :: request where
  "ex_gw_request = empty_request\<lparr>http_method := ''POST'', url_path := ''/v1/chat/completions'',
     header := (\<lambda>k. if k = ''Authorization'' then ''Bearer tok'' else if k = ''X-Request-ID'' then ''r1'' else [])\<rparr>"

definition ex_gw_client :: "provider_request \<Rightarrow> provider_reply option" where
  "ex_gw_client q = Some \<lparr>pr_status = 200, pr_type = [], pr_reads = [(''ok'', Eof)]\<rparr>"

lemma ex_gw_rewrite: "rewrite_request ex_router ex_chat_body [''chat''] =
    Inr (''chat'', False, marshal_map [(''model'', JString ''deep-chat''), (''messages'', JArray [JString ''hi''])])"
  by code_simp

lemma ex_gw_allowed: "allowed_models (model_ids ex_router) (Some ex_gw_claims) = Some [''chat'']"
  by code_simp

lemma ex_gw_bearer: "bearer_token ex_gw_request = Inr ''tok''"
  by (rule bearer_token_graphic) (simp_all add: ex_gw_request_def graphic_def in_range_def)

lemma ex_gw_authenticated: "authenticate ex_gw_verify [] ex_gw_request = Inr ex_gw_claims"
  by (simp add: authenticate_def ex_gw_bearer ex_gw_verify_def)

lemma ex_gw_size: "length ex_chat_body \<le> max_request_body"
  by (simp add: ex_chat_body_def max_request_body_def Let_def)

lemma ex_gw_id: "request_id_of None ex_gw_request = Some ''r1''"
  by (simp add: request_id_of_def ex_gw_request_def request_id_header_def)

lemma ex_gw_route: "gateway_route_of (http_method ex_gw_request) (url_path ex_gw_request) = Gw_chat"
  by code_simp

lemma ex_gw_chat: "fst (chat_completions ex_router ex_gw_client ok (Some ex_gw_claims) (Some ex_chat_body) ''r1'') \<noteq> None"
  using ex_gw_size
  by (simp add: chat_completions_def ex_gw_allowed complete_def ex_gw_rewrite Let_def split: prod.split sum.split)

lemma ex_gw_sent:
  "\<exists>q resp. gateway_serve ex_router ex_gw_verify ex_gw_client ok (Some ex_chat_body) None ex_gw_request = (Some q, resp)"
  using ex_gw_chat [of ok]
  by (simp add: gateway_serve_def ex_gw_id gateway_handler_def ex_gw_route ex_gw_authenticated)


theorem gateway_forwards_witness:
  "\<exists>q v' envelope'. fst (gateway_serve ex_router ex_gw_verify ex_gw_client (\<lambda>_. True) (Some ex_chat_body) None ex_gw_request) = Some q \<and>
    json_parse (pq_body q) = Some v' \<and> into_map v' = Some (Some envelope') \<and>
    Option.bind (map_of envelope' ''model'') into_string = Some ''deep-chat''"
proof -
  obtain q resp where s: "gateway_serve ex_router ex_gw_verify ex_gw_client (\<lambda>_. True) (Some ex_chat_body) None ex_gw_request = (Some q, resp)"
    using ex_gw_sent by blast
  have m: "gm_upstream m = ''deep-chat''" if "m \<in> set (gc_models ex_gw_config)" for m
    using that by (simp add: ex_gw_config_def)
  have "utf8_valid ''deep-chat''" by (rule ascii_utf8) (simp add: is_ascii_def)
  then have names: "\<forall>m \<in> set (gc_models ex_gw_config). utf8_valid (gm_upstream m)" using m by (auto simp only:)
  note f = gateway_forwards [OF ex_new_router names s]
  have "fst (gateway_serve ex_router ex_gw_verify ex_gw_client (\<lambda>_. True) (Some ex_chat_body) None ex_gw_request) = Some q"
    by (simp only: s fst_conv)
  with f show ?thesis by (elim exE conjE) (intro exI conjI, assumption+, simp only: m)
qed

theorem gateway_lists_forwardable_witness:
  "\<exists>ms m. body (models_handler ex_router (Some ex_gw_claims)) = Some (Gw_models ms) \<and> m \<in> set ms \<and> pm_id m = ''chat''"
proof -
  have "Option.bind (json_parse ex_chat_body) into_map =
      Some (Some [(''messages'', JArray [JString ''hi'']), (''model'', JString ''chat'')])"
    by code_simp
  moreover have "into_string (JString ''chat'') = Some ''chat''" "trim_space ''chat'' \<noteq> []" "ex_chat_body \<noteq> []" by code_simp+
  ultimately have "chat_request ex_chat_body ''chat''" unfolding chat_request_def by simp
  from gateway_lists_forwardable [OF ex_new_router this ex_gw_size] show ?thesis using ex_gw_chat by blast
qed


end
