(* ===== verification/Control.thy ===== *)
theory Control
  imports Sdk_Http "HOL-Library.Multiset"
begin

text \<open>
  \<open>apps/control\<close>: the catalogue of services (\<open>internal/catalog\<close>), how it is read, checked and
  probed, and the read-only API over it (\<open>internal/httpapi\<close>). The goroutines of a probe are a
  step relation in which any goroutine that still runs may finish next.
\<close>

section \<open>The catalogue\<close>

record cat_service =
  cs_id :: string
  cs_name :: string
  cs_description :: string
  cs_kind :: string
  cs_health :: string
  cs_path :: string
  cs_visibility :: string

datatype catalog_error = Open_catalog | Read_catalog | Invalid_catalog | Invalid_service nat | Duplicate_service string

definition max_catalog_bytes :: nat where "max_catalog_bytes = 256 * 2 ^ 10"

definition valid_service :: "(string \<Rightarrow> url option) \<Rightarrow> cat_service \<Rightarrow> bool" where
  "valid_service parse s \<longleftrightarrow>
     \<not> (\<not> match_slug 0 62 (cs_id s) \<or> trim_space (cs_name s) = [] \<or> trim_space (cs_kind s) = [] \<or>
        (case parse (cs_health s) of None \<Rightarrow> True | Some u \<Rightarrow> \<not> http_scheme u \<or> ur_host u = [] \<or> ur_user u) \<or>
        \<not> has_prefix ''/'' (cs_path s) \<or>
        (cs_visibility s \<noteq> ''owner'' \<and> cs_visibility s \<noteq> ''shared'' \<and> cs_visibility s \<noteq> ''public''))"

fun check_services :: "(string \<Rightarrow> url option) \<Rightarrow> string list \<Rightarrow> nat \<Rightarrow> cat_service list \<Rightarrow> catalog_error option" where
  "check_services parse seen i [] = None"
| "check_services parse seen i (s # ss) =
     (if \<not> valid_service parse s then Some (Invalid_service i)
      else if cs_id s \<in> set seen then Some (Duplicate_service (cs_id s))
      else check_services parse (cs_id s # seen) (i + 1) ss)"

text \<open>
  \<open>Load\<close>: the file is \<open>None\<close> where it cannot be opened, \<open>Some None\<close> where reading fails;
  \<open>decode\<close> gives the version and the services of the JSON document. \<open>sort.Slice\<close> may put
  services of the same identifier in any order; there are none.
\<close>

definition load_catalog ::
  "(string \<Rightarrow> url option) \<Rightarrow> (string \<Rightarrow> (int \<times> cat_service list) option) \<Rightarrow> string option option \<Rightarrow>
   catalog_error + cat_service list" where
  "load_catalog parse decode contents =
     (case contents of
        None \<Rightarrow> Inl Open_catalog
      | Some None \<Rightarrow> Inl Read_catalog
      | Some (Some s) \<Rightarrow>
          let read = take (max_catalog_bytes + 1) s in
          if length read > max_catalog_bytes then Inl Read_catalog
          else case decode read of
            None \<Rightarrow> Inl Invalid_catalog
          | Some (version, services) \<Rightarrow>
              if version \<noteq> 2 \<or> services = [] then Inl Invalid_catalog
              else case check_services parse [] 0 services of
                Some e \<Rightarrow> Inl e
              | None \<Rightarrow> Inr (sort_key cs_id services))"

section \<open>Probing\<close>

record probe_status =
  ps_state :: string
  ps_checked :: instant
  ps_latency :: int
  ps_code :: int

record service_view =
  vw_service :: cat_service
  vw_status :: probe_status

text \<open>
  What a probe of an endpoint meets: the instants before and after, and the answer. A request
  that cannot be built takes no latency; \<open>Milliseconds\<close> truncates.
\<close>

datatype probe_answer = No_request | No_response | Response int

record probe_event =
  pe_started :: instant
  pe_ended :: instant
  pe_answer :: probe_answer

definition probe_one :: "probe_event \<Rightarrow> probe_status" where
  "probe_one e =
     (let latency = (pe_ended e - pe_started e) div 1000000;
          unavailable = \<lparr>ps_state = ''unavailable'', ps_checked = pe_started e, ps_latency = 0, ps_code = 0\<rparr> in
      case pe_answer e of
        No_request \<Rightarrow> unavailable
      | No_response \<Rightarrow> unavailable\<lparr>ps_latency := latency\<rparr>
      | Response code \<Rightarrow>
          unavailable\<lparr>ps_latency := latency, ps_code := code,
            ps_state := (if 200 \<le> code \<and> code < 300 then ''healthy'' else ''degraded'')\<rparr>)"

text \<open>\<open>net i\<close> is what goroutine \<open>i\<close> meets at an endpoint.\<close>

type_synonym probe_net = "nat \<Rightarrow> string \<Rightarrow> probe_event"

definition view_of :: "probe_net \<Rightarrow> cat_service list \<Rightarrow> nat \<Rightarrow> service_view" where
  "view_of net services i =
     \<lparr>vw_service = services ! i, vw_status = probe_one (net i (cs_health (services ! i)))\<rparr>"

text \<open>
  \<open>Probe\<close>: one goroutine per service writes its own element of \<open>views\<close> and is done; \<open>Wait\<close>
  returns when none runs.
\<close>

record probe_state =
  pb_running :: "nat list"
  pb_views :: "service_view list"

definition zero_view :: service_view where
  "zero_view = \<lparr>vw_service = \<lparr>cs_id = [], cs_name = [], cs_description = [], cs_kind = [], cs_health = [], cs_path = [],
     cs_visibility = []\<rparr>, vw_status = \<lparr>ps_state = [], ps_checked = zero_time, ps_latency = 0, ps_code = 0\<rparr>\<rparr>"

definition probe_start :: "cat_service list \<Rightarrow> probe_state" where
  "probe_start services = \<lparr>pb_running = [0..<length services], pb_views = replicate (length services) zero_view\<rparr>"

inductive probe_step :: "probe_net \<Rightarrow> cat_service list \<Rightarrow> probe_state \<Rightarrow> probe_state \<Rightarrow> bool"
  for net :: probe_net and services :: "cat_service list" where
  finish: "i \<in> set (pb_running p) \<Longrightarrow>
    probe_step net services p
      \<lparr>pb_running = remove1 i (pb_running p), pb_views = (pb_views p)[i := view_of net services i]\<rparr>"

inductive_cases probe_stepE: "probe_step net services p p'"

text \<open>The order in which the goroutines were started, as one run.\<close>

definition probe :: "probe_net \<Rightarrow> cat_service list \<Rightarrow> service_view list" where
  "probe net services =
     pb_views (foldl (\<lambda>p i. \<lparr>pb_running = remove1 i (pb_running p), pb_views = (pb_views p)[i := view_of net services i]\<rparr>)
       (probe_start services) [0..<length services])"

section \<open>The API\<close>

datatype control_body =
    Ct_live instant
  | Ct_ready nat
  | Ct_whoami string string string string "string list" instant
  | Ct_overview "string \<times> string \<times> string \<times> instant" "string \<times> string" nat nat "service_view list"
  | Ct_services "service_view list"
  | Ct_nodes
  | Ct_error string
  | Ct_plain string

record control_server =
  cl_services :: "cat_service list"
  cl_version :: string
  cl_commit :: string
  cl_environment :: string

definition dashboard_read :: string where "dashboard_read = ''control.dashboard.read''"
definition node_read :: string where "node_read = ''control.node.read''"

definition control_json :: "nat \<Rightarrow> control_body \<Rightarrow> control_body response" where
  "control_json code b = \<lparr>status = code, headers = json_headers, body = Some b\<rparr>"

definition control_error :: "nat \<Rightarrow> string \<Rightarrow> control_body response" where
  "control_error code e = control_json code (Ct_error e)"

definition live_handler :: "instant \<Rightarrow> control_body response" where
  "live_handler now = control_json 200 (Ct_live now)"

definition ready_handler :: "control_server \<Rightarrow> control_body response" where
  "ready_handler C = control_json 200 (Ct_ready (length (cl_services C)))"

definition whoami_handler :: "claims \<Rightarrow> control_body response" where
  "whoami_handler c =
     control_json 200 (Ct_whoami (tc_sub c) (effective_actor c) (tc_azp c) (tc_realm c) (tc_permissions c) (time_unix (tc_exp c)))"

definition overview_handler :: "control_server \<Rightarrow> probe_net \<Rightarrow> instant \<Rightarrow> claims \<Rightarrow> control_body response" where
  "overview_handler C net now c =
     (let services = probe net (cl_services C);
          healthy = length (filter (\<lambda>v. ps_state (vw_status v) = ''healthy'') services) in
      control_json 200 (Ct_overview (cl_version C, cl_commit C, cl_environment C, now) (tc_sub c, effective_actor c)
        (length services) healthy services))"

definition list_services_handler :: "control_server \<Rightarrow> probe_net \<Rightarrow> control_body response" where
  "list_services_handler C net = control_json 200 (Ct_services (probe net (cl_services C)))"

definition list_nodes_handler :: "control_body response" where
  "list_nodes_handler = control_json 200 Ct_nodes"

fun any_allowed :: "claims \<Rightarrow> string list \<Rightarrow> bool" where
  "any_allowed c [] = False"
| "any_allowed c (p # ps) = (if allows c p then True else any_allowed c ps)"

definition control_authenticate ::
  "(string \<Rightarrow> identity_error + claims) \<Rightarrow> string list \<Rightarrow> (claims \<Rightarrow> control_body response) \<Rightarrow> request \<Rightarrow> control_body response" where
  "control_authenticate vfy required next_handler r =
     (case bearer_token r of
        Inl _ \<Rightarrow> control_error 401 ''invalid_token''
      | Inr token \<Rightarrow>
          (case vfy token of
             Inl _ \<Rightarrow> control_error 401 ''invalid_token''
           | Inr c \<Rightarrow>
               if length required > 0 \<and> \<not> any_allowed c required then control_error 403 ''insufficient_permission''
               else next_handler c))"

datatype control_route = Ct_get_live | Ct_get_ready | Ct_get_whoami | Ct_get_overview | Ct_get_services | Ct_get_nodes | Ct_none nat

definition control_route_of :: "string \<Rightarrow> string \<Rightarrow> control_route" where
  "control_route_of m path =
     (case map_of [(''/health/live'', Ct_get_live), (''/health/ready'', Ct_get_ready), (''/v1/whoami'', Ct_get_whoami),
                   (''/v1/overview'', Ct_get_overview), (''/v1/services'', Ct_get_services), (''/v1/nodes'', Ct_get_nodes)] path of
        None \<Rightarrow> Ct_none 404
      | Some route \<Rightarrow> if m = ''GET'' \<or> m = ''HEAD'' then route else Ct_none 405)"

fun control_required :: "control_route \<Rightarrow> string list" where
  "control_required Ct_get_overview = [dashboard_read]"
| "control_required Ct_get_services = [dashboard_read]"
| "control_required Ct_get_nodes = [node_read]"
| "control_required _ = []"

definition control_handler ::
  "control_server \<Rightarrow> (string \<Rightarrow> identity_error + claims) \<Rightarrow> probe_net \<Rightarrow> instant \<Rightarrow> request \<Rightarrow> control_body response" where
  "control_handler C vfy net now r =
     (let route = control_route_of (http_method r) (url_path r);
          guarded = (\<lambda>h. control_authenticate vfy (control_required route) h r) in
      case route of
        Ct_get_live \<Rightarrow> live_handler now
      | Ct_get_ready \<Rightarrow> ready_handler C
      | Ct_get_whoami \<Rightarrow> guarded whoami_handler
      | Ct_get_overview \<Rightarrow> guarded (overview_handler C net now)
      | Ct_get_services \<Rightarrow> guarded (\<lambda>_. list_services_handler C net)
      | Ct_get_nodes \<Rightarrow> guarded (\<lambda>_. list_nodes_handler)
      | Ct_none code \<Rightarrow> http_error Ct_plain code (if code = 404 then ''404 page not found'' else ''Method Not Allowed''))"

text \<open>
  The chain \<open>recover (requestID (securityHeaders (logRequests mux)))\<close>; \<open>rnd\<close> is the 12 bytes
  read, \<open>None\<close> where reading fails. No handler panics.
\<close>

definition control_request_id :: "string option \<Rightarrow> (request \<Rightarrow> control_body response) \<Rightarrow> request \<Rightarrow> control_body response" where
  "control_request_id rnd next_handler r =
     (case rnd of
        None \<Rightarrow> http_error Ct_plain 500 ''internal error''
      | Some bytes \<Rightarrow>
          let i = hex_encode bytes in
          add_headers [(''X-Request-ID'', i)]
            (next_handler (r\<lparr>header := (\<lambda>k. if k = ''X-Request-ID'' then i else header r k)\<rparr>)))"

definition control_security_headers :: "(request \<Rightarrow> control_body response) \<Rightarrow> request \<Rightarrow> control_body response" where
  "control_security_headers next_handler r =
     add_headers [(''Cache-Control'', ''no-store''), (''X-Content-Type-Options'', ''nosniff''), (''Referrer-Policy'', ''no-referrer'')]
       (next_handler r)"

definition control_serve ::
  "control_server \<Rightarrow> (string \<Rightarrow> identity_error + claims) \<Rightarrow> probe_net \<Rightarrow> instant \<Rightarrow> string option \<Rightarrow> request \<Rightarrow>
   control_body response" where
  "control_serve C vfy net now rnd r =
     control_request_id rnd (control_security_headers (control_handler C vfy net now)) r"

section \<open>Configuration\<close>

record control_config =
  cc_listen :: string
  cc_environment :: string
  cc_log_level :: string
  cc_catalog :: string
  cc_jwks :: string
  cc_health_timeout :: duration
  cc_shutdown_timeout :: duration

text \<open>\<open>env\<close> is \<open>os.Getenv\<close>, \<open>parse\<close> is \<open>time.ParseDuration\<close>.\<close>

definition env_value :: "(string \<Rightarrow> string) \<Rightarrow> string \<Rightarrow> string \<Rightarrow> string" where
  "env_value env name fallback = (if trim_space (env name) \<noteq> [] then trim_space (env name) else fallback)"

definition env_duration :: "(string \<Rightarrow> duration option) \<Rightarrow> (string \<Rightarrow> string) \<Rightarrow> string \<Rightarrow> duration \<Rightarrow> duration option" where
  "env_duration parse env name fallback =
     (if trim_space (env name) = [] then Some fallback else parse (trim_space (env name)))"

datatype control_config_error = Bad_duration | Invalid_configuration

definition load_control_config ::
  "(string \<Rightarrow> duration option) \<Rightarrow> (string \<Rightarrow> string) \<Rightarrow> control_config_error + control_config" where
  "load_control_config parse env =
     (case (env_duration parse env ''HOMEHUB_CONTROL_HEALTH_TIMEOUT'' (1500 * 1000000),
            env_duration parse env ''HOMEHUB_CONTROL_SHUTDOWN_TIMEOUT'' (10 * second)) of
        (Some health, Some shutdown) \<Rightarrow>
          let cfg = \<lparr>cc_listen = env_value env ''HOMEHUB_CONTROL_LISTEN_ADDRESS'' '':8080'',
            cc_environment = env_value env ''HOMEHUB_CONTROL_ENVIRONMENT'' ''development'',
            cc_log_level = env_value env ''HOMEHUB_CONTROL_LOG_LEVEL'' ''info'',
            cc_catalog = env_value env ''HOMEHUB_CONTROL_CATALOG_FILE'' ''/etc/homehub/catalog.json'',
            cc_jwks = env_value env ''HOMEHUB_CONTROL_IAM_JWKS_URL'' ''http://iam:8080/.well-known/jwks.json'',
            cc_health_timeout = health, cc_shutdown_timeout = shutdown\<rparr> in
          if cc_listen cfg = [] \<or> cc_catalog cfg = [] \<or> cc_jwks cfg = [] \<or> health \<le> 0 \<or> shutdown \<le> 0
          then Inl Invalid_configuration else Inr cfg
      | _ \<Rightarrow> Inl Bad_duration)"

datatype control_start_error =
    Load_configuration control_config_error | Load_services catalog_error | Load_jwks fetch_error | Make_verifier identity_error

text \<open>\<open>serve\<close> up to the listening: the catalogue file and the keys are read as configured.\<close>

definition control_start ::
  "control_config_error + control_config \<Rightarrow> (string \<Rightarrow> catalog_error + cat_service list) \<Rightarrow>
   (string \<Rightarrow> fetch_error + (string \<times> string) list) \<Rightarrow> string \<Rightarrow> string \<Rightarrow>
   control_start_error + (control_server \<times> verifier)" where
  "control_start cfg load fetch version commit =
     (case cfg of
        Inl e \<Rightarrow> Inl (Load_configuration e)
      | Inr c \<Rightarrow>
          (case load (cc_catalog c) of
             Inl e \<Rightarrow> Inl (Load_services e)
           | Inr services \<Rightarrow>
               (case fetch (cc_jwks c) of
                  Inl e \<Rightarrow> Inl (Load_jwks e)
                | Inr keys \<Rightarrow>
                    (case new_verifier keys ''homehub-control'' (2 * minute) of
                       Inl e \<Rightarrow> Inl (Make_verifier e)
                     | Inr v \<Rightarrow> Inr (\<lparr>cl_services = services, cl_version = version, cl_commit = commit,
                                    cl_environment = cc_environment c\<rparr>, v)))))"

end
