(* ===== verification/Control_Facts.thy ===== *)
theory Control_Facts
  imports Control
begin

text \<open>
  What the control service promises: the catalogue it serves is the configured one, sorted and
  without duplicates; a probe gives the same result in whatever order its goroutines finish;
  the dashboard's figures are those of the probe, and only a token with the permission gets them.
\<close>

section \<open>The catalogue\<close>

lemma check_services_None:
  "check_services parse seen i ss = None \<Longrightarrow>
     distinct (map cs_id ss) \<and> set seen \<inter> cs_id ` set ss = {} \<and> (\<forall>s \<in> set ss. valid_service parse s)"
proof (induction ss arbitrary: seen i)
  case (Cons s ss)
  then have s: "valid_service parse s" "cs_id s \<notin> set seen" "check_services parse (cs_id s # seen) (i + 1) ss = None"
    by (simp_all split: if_split_asm)
  from Cons.IH [OF s(3)] s(1,2) show ?case by auto
qed simp

lemma check_services_complete:
  "distinct (map cs_id ss) \<Longrightarrow> set seen \<inter> cs_id ` set ss = {} \<Longrightarrow> \<forall>s \<in> set ss. valid_service parse s \<Longrightarrow>
     check_services parse seen i ss = None"
  by (induction ss arbitrary: seen i) auto

text \<open>
  C11. Loading succeeds exactly for a readable document of version 2 within the size limit that
  lists at least one service, valid ones only and none twice; the result is its services in the
  order of their identifiers, whatever the order in the file.
\<close>

theorem catalog_loaded:
  "load_catalog parse decode contents = Inr ss \<longleftrightarrow>
     (\<exists>s services. contents = Some (Some s) \<and> length s \<le> max_catalog_bytes \<and> decode s = Some (2, services) \<and>
        services \<noteq> [] \<and> distinct (map cs_id services) \<and> list_all (valid_service parse) services \<and>
        mset ss = mset services \<and> sorted_wrt (<) (map cs_id ss))"
proof -
  have sorted: "mset ss = mset services \<and> sorted_wrt (<) (map cs_id ss) \<longleftrightarrow> ss = sort_key cs_id services"
    if d: "distinct (map cs_id services)" for services
  proof
    assume a: "mset ss = mset services \<and> sorted_wrt (<) (map cs_id ss)"
    then have "sorted (map cs_id ss)" by (simp add: strict_sorted_iff)
    moreover have "inj_on cs_id (set services)" using d by (simp add: distinct_map)
    moreover have "mset services = mset ss" using a by simp
    ultimately show "ss = sort_key cs_id services" by (metis sort_key_inj_key_eq)
  next
    assume s: "ss = sort_key cs_id services"
    have "mset (map cs_id ss) = mset (map cs_id services)" by (simp add: s)
    then have "distinct (map cs_id ss)" using d mset_eq_imp_distinct_iff by blast
    then show "mset ss = mset services \<and> sorted_wrt (<) (map cs_id ss)"
      unfolding strict_sorted_iff by (simp add: s)
  qed
  show ?thesis (is "?l \<longleftrightarrow> ?r")
  proof
    assume ?l
    then obtain s services where s: "contents = Some (Some s)" "length s \<le> max_catalog_bytes" "decode s = Some (2, services)"
        "services \<noteq> []" "check_services parse [] 0 services = None" "ss = sort_key cs_id services"
      unfolding load_catalog_def Let_def by (auto split: option.split_asm if_split_asm)
    then show ?r using check_services_None [OF s(5)] sorted by (auto simp: list_all_iff)
  next
    assume ?r
    then obtain s services where s: "contents = Some (Some s)" "length s \<le> max_catalog_bytes" "decode s = Some (2, services)"
        "services \<noteq> []" "distinct (map cs_id services)" "list_all (valid_service parse) services"
        "mset ss = mset services \<and> sorted_wrt (<) (map cs_id ss)" by blast
    then have "check_services parse [] 0 services = None"
      by (intro check_services_complete) (auto simp: list_all_iff)
    then show ?l using s sorted [OF s(5)] by (simp add: load_catalog_def)
  qed
qed

section \<open>Probing\<close>

definition probe_inv :: "probe_net \<Rightarrow> cat_service list \<Rightarrow> nat \<Rightarrow> probe_state \<Rightarrow> bool" where
  "probe_inv net services k p \<longleftrightarrow>
     distinct (pb_running p) \<and> set (pb_running p) \<subseteq> {..<length services} \<and> length (pb_running p) + k = length services \<and>
     length (pb_views p) = length services \<and>
     (\<forall>i < length services. i \<notin> set (pb_running p) \<longrightarrow> pb_views p ! i = view_of net services i)"

lemma probe_inv_start: "probe_inv net services 0 (probe_start services)"
  by (auto simp: probe_inv_def probe_start_def)

lemma probe_inv_step: "probe_inv net services k p \<Longrightarrow> probe_step net services p p' \<Longrightarrow> probe_inv net services (Suc k) p'"
proof (erule probe_stepE)
  fix i assume inv: "probe_inv net services k p" and i: "i \<in> set (pb_running p)"
    and p': "p' = \<lparr>pb_running = remove1 i (pb_running p), pb_views = (pb_views p)[i := view_of net services i]\<rparr>"
  then have "i < length services" "Suc (length (remove1 i (pb_running p))) = length (pb_running p)"
    using length_pos_if_in_set [OF i] by (auto simp: probe_inv_def length_remove1)
  then show ?thesis
    using inv i unfolding probe_inv_def p' by (auto simp: nth_list_update)
qed

lemma probe_inv_steps: "(probe_step net services ^^ k) (probe_start services) p \<Longrightarrow> probe_inv net services k p"
proof (induction k arbitrary: p)
  case 0
  then show ?case using probe_inv_start by auto
next
  case (Suc k)
  then obtain q where "(probe_step net services ^^ k) (probe_start services) q" "probe_step net services q p" by auto
  then show ?case using Suc.IH probe_inv_step by blast
qed

lemma probe_inv_done:
  assumes "probe_inv net services k p" "pb_running p = []"
  shows "pb_views p = map (view_of net services) [0..<length services]"
  using assms by (intro nth_equalityI) (auto simp: probe_inv_def)

lemma probe_runs:
  "k \<le> length services \<Longrightarrow> \<exists>p. (probe_step net services ^^ k) (probe_start services) p"
proof (induction k)
  case (Suc k)
  then obtain p where p: "(probe_step net services ^^ k) (probe_start services) p" by auto
  from probe_inv_steps [OF p] Suc.prems obtain i where "i \<in> set (pb_running p)"
    by (cases "pb_running p") (auto simp: probe_inv_def)
  then have "\<exists>p'. probe_step net services p p'" by (blast intro: probe_step.finish)
  then show ?case using p by auto
qed auto

lemma probe_in_order: "probe net services = map (view_of net services) [0..<length services]"
proof -
  let ?f = "\<lambda>p i. \<lparr>pb_running = remove1 i (pb_running p), pb_views = (pb_views p)[i := view_of net services i]\<rparr>"
  have "k \<le> length services \<Longrightarrow> probe_inv net services k (foldl ?f (probe_start services) [0..<k]) \<and>
      set (pb_running (foldl ?f (probe_start services) [0..<k])) = {k..<length services}" for k
  proof (induction k)
    case 0
    then show ?case using probe_inv_start [of net services] by (simp add: probe_start_def)
  next
    case (Suc k)
    let ?p = "foldl ?f (probe_start services) [0..<k]"
    from Suc have p: "probe_inv net services k ?p" "set (pb_running ?p) = {k..<length services}" by auto
    then have "probe_step net services ?p (?f ?p k)" using Suc.prems by (intro probe_step.finish) simp
    from probe_inv_step [OF p(1) this] p Suc.prems show ?case
      by (auto simp: probe_inv_def)
  qed
  from this [of "length services"] show ?thesis
    unfolding probe_def by (intro probe_inv_done [of _ _ "length services"]) auto
qed

text \<open>
  C24. Whatever the order in which the goroutines of a probe finish, the probe ends after as many
  steps as there are services, no run is longer and none stops before; the result is then the
  one status per service, in the order of the catalogue, that probing them one after another
  gives.
\<close>

theorem probe_any_order:
  assumes "(probe_step net services ^^ k) (probe_start services) p"
  shows "k \<le> length services \<and> (pb_running p = [] \<longleftrightarrow> k = length services) \<and>
    (k < length services \<longleftrightarrow> (\<exists>p'. probe_step net services p p')) \<and>
    (k = length services \<longrightarrow> pb_views p = probe net services)"
proof -
  have inv: "probe_inv net services k p" by (rule probe_inv_steps [OF assms])
  then have len: "length (pb_running p) + k = length services" by (simp add: probe_inv_def)
  have "(\<exists>p'. probe_step net services p p') \<longleftrightarrow> pb_running p \<noteq> []"
    by (metis probe_step.finish probe_stepE list.set_intros(1) neq_Nil_conv list.set(1) empty_iff)
  moreover have "pb_running p \<noteq> [] \<longleftrightarrow> k < length services" using len by (cases "pb_running p") auto
  ultimately show ?thesis
    using len probe_inv_done [OF inv] by (auto simp: probe_in_order)
qed

section \<open>The API\<close>

lemma any_allowed_iff: "any_allowed c ps \<longleftrightarrow> list_ex (allows c) ps"
  by (induction ps) auto

text \<open>The control service's own middleware decides as the SDK's does.\<close>

lemma control_authenticate_sdk:
  "control_authenticate vfy required h r =
     (case authenticate vfy required r of Inl (code, e) \<Rightarrow> control_error code e | Inr c \<Rightarrow> h c)"
  by (auto simp: control_authenticate_def authenticate_def any_allowed_iff split: sum.split)

lemma control_serve_accepted:
  assumes "accepted (control_serve C vfy net now rnd r)"
  obtains bytes r' where "rnd = Some bytes" "r' = r\<lparr>header := (\<lambda>k. if k = ''X-Request-ID'' then hex_encode bytes else header r k)\<rparr>"
    "accepted (control_handler C vfy net now r')" "body (control_serve C vfy net now rnd r) = body (control_handler C vfy net now r')"
  using assms
  by (cases rnd) (auto simp: control_serve_def control_request_id_def control_security_headers_def add_headers_def
      accepted_def http_error_def Let_def)

lemma accepted_error: "accepted (control_error code e) \<longleftrightarrow> 200 \<le> code \<and> code < 300"
  by (simp add: accepted_def control_error_def control_json_def)

lemma authenticate_Inl_code: "authenticate vfy required r = Inl (code, e) \<Longrightarrow> code = 401 \<or> code = 403"
  by (auto simp: authenticate_def split: sum.split_asm if_split_asm)

lemma control_overview_route: "control_route_of ''GET'' ''/v1/overview'' = Ct_get_overview"
  by code_simp

text \<open>
  C25. The dashboard: an answer other than a refusal goes to a token that verifies and holds
  \<open>control.dashboard.read\<close> or \<open>system.root\<close>; it shows one entry per service of the catalogue,
  in its order, and counts as healthy exactly the services whose endpoint answered with a 2xx
  status.
\<close>

theorem overview_exact:
  assumes "accepted (control_serve C vfy net now rnd r)" and "http_method r = ''GET''" "url_path r = ''/v1/overview''"
  shows "\<exists>tok c views healthy. bearer_token r = Inr tok \<and> vfy tok = Inr c \<and> allows c ''control.dashboard.read'' \<and>
    body (control_serve C vfy net now rnd r) = Some (Ct_overview (cl_version C, cl_commit C, cl_environment C, now)
      (tc_sub c, effective_actor c) (length (cl_services C)) healthy views) \<and>
    map vw_service views = cl_services C \<and>
    healthy = card {i. i < length (cl_services C) \<and>
      (\<exists>code. pe_answer (net i (cs_health (cl_services C ! i))) = Response code \<and> 200 \<le> code \<and> code < 300)}"
proof -
  obtain bytes r' where "rnd = Some bytes" and r': "r' = r\<lparr>header := (\<lambda>k. if k = ''X-Request-ID'' then hex_encode bytes else header r k)\<rparr>"
      "accepted (control_handler C vfy net now r')" "body (control_serve C vfy net now rnd r) = body (control_handler C vfy net now r')"
    by (rule control_serve_accepted [OF assms(1)]) (rule that)
  have "http_method r' = http_method r" "url_path r' = url_path r" unfolding r'(1) by simp_all
  then have route: "control_route_of (http_method r') (url_path r') = Ct_get_overview"
    by (simp only: assms(2,3) control_overview_route)
  have handler: "control_handler C vfy net now r' = (case authenticate vfy [dashboard_read] r' of
      Inl (code, e) \<Rightarrow> control_error code e | Inr c \<Rightarrow> overview_handler C net now c)"
    unfolding control_handler_def route by (simp add: control_authenticate_sdk)
  obtain c where c: "authenticate vfy [dashboard_read] r' = Inr c"
  proof (cases "authenticate vfy [dashboard_read] r'")
    case (Inl a)
    obtain code e where a: "a = (code, e)" by fastforce
    have "accepted (control_error code e)" using r'(2) unfolding handler Inl a by simp
    then have False using authenticate_Inl_code [OF Inl [unfolded a]] by (auto simp: accepted_error)
    then show ?thesis ..
  qed (rule that)
  then obtain tok where tok: "bearer_token r' = Inr tok" "vfy tok = Inr c" "allows c dashboard_read"
    by (auto simp: authenticate_def split: sum.split_asm if_split_asm)
  have "bearer_token r = Inr tok" using tok(1) unfolding r'(1) bearer_token_def by simp
  moreover have "map vw_service (probe net (cl_services C)) = cl_services C"
    by (auto simp: probe_in_order view_of_def intro: nth_equalityI)
  moreover have "length (filter (\<lambda>v. ps_state (vw_status v) = ''healthy'') (probe net (cl_services C))) =
      card {i. i < length (cl_services C) \<and>
        (\<exists>code. pe_answer (net i (cs_health (cl_services C ! i))) = Response code \<and> 200 \<le> code \<and> code < 300)}"
  proof -
    have "ps_state (probe_one e) = ''healthy'' \<longleftrightarrow> (\<exists>code. pe_answer e = Response code \<and> 200 \<le> code \<and> code < 300)" for e
      by (auto simp: probe_one_def Let_def split: probe_answer.split)
    then show ?thesis
      unfolding probe_in_order length_filter_conv_card by (auto simp: view_of_def intro!: arg_cong [of _ _ card])
  qed
  ultimately show ?thesis
    using tok c unfolding r'(3) handler
    by (simp add: overview_handler_def control_json_def Let_def probe_in_order dashboard_read_def)
qed

end
