(* ===== verification/Control_Examples.thy ===== *)
theory Control_Examples
  imports Control_Facts
begin

text \<open>The properties of the control service at a catalogue of two services.\<close>

definition ex_cat :: "cat_service list" where
  "ex_cat = [\<lparr>cs_id = ''ai'', cs_name = ''AI'', cs_description = [], cs_kind = ''service'', cs_health = ''http://ai/health'',
       cs_path = ''/ai'', cs_visibility = ''owner''\<rparr>,
     \<lparr>cs_id = ''drop'', cs_name = ''Drop'', cs_description = [], cs_kind = ''service'', cs_health = ''http://drop/health'',
       cs_path = ''/drop'', cs_visibility = ''owner''\<rparr>]"

definition ex_net :: probe_net where
  "ex_net i u = \<lparr>pe_started = 0, pe_ended = 7000000, pe_answer = (if u = ''http://ai/health'' then Response 204 else No_response)\<rparr>"

text \<open>The second goroutine finishes first.\<close>

theorem probe_any_order_witness:
  "\<exists>p. (probe_step ex_net ex_cat ^^ 2) (probe_start ex_cat) p \<and> pb_views p = probe ex_net ex_cat"
proof -
  let ?a = "\<lparr>pb_running = [0], pb_views = [zero_view, view_of ex_net ex_cat 1]\<rparr>"
  let ?b = "\<lparr>pb_running = [], pb_views = [view_of ex_net ex_cat 0, view_of ex_net ex_cat 1]\<rparr>"
  have start: "probe_start ex_cat = \<lparr>pb_running = [0, 1], pb_views = [zero_view, zero_view]\<rparr>"
    by (simp add: probe_start_def ex_cat_def)
  have "probe_step ex_net ex_cat (probe_start ex_cat) ?a"
    using probe_step.finish [of 1 "probe_start ex_cat" ex_net ex_cat] by (simp add: start)
  moreover have "probe_step ex_net ex_cat ?a ?b"
    using probe_step.finish [of 0 ?a ex_net ex_cat] by simp
  ultimately have run: "(probe_step ex_net ex_cat ^^ 2) (probe_start ex_cat) ?b"
    unfolding numeral_2_eq_2 by (auto intro: relpowp_Suc_I)
  have "length ex_cat = 2" by (simp add: ex_cat_def)
  with probe_any_order [OF run] have "pb_views ?b = probe ex_net ex_cat" by simp
  with run show ?thesis by blast
qed

definition ex_ct_claims :: claims where
  "ex_ct_claims = \<lparr>tc_iss = issuer_name, tc_aud = ''homehub-control'', tc_sub = ''human:o1'', tc_act = None,
     tc_azp = ''key-1'', tc_realm = ''homehub'', tc_permissions = [''control.dashboard.read''], tc_sid = [], tc_jti = ''j'',
     tc_delegation = [], tc_amr = [], tc_auth_time = 0, tc_iat = 0, tc_nbf = 0, tc_exp = 0\<rparr>"

definition ex_ct_verify :: "string \<Rightarrow> identity_error + claims" where
  "ex_ct_verify t = (if t = ''tok'' then Inr ex_ct_claims else Inl Invalid_token)"

definition ex_ct_request :: request where
  "ex_ct_request = empty_request\<lparr>url_path := ''/v1/overview'',
     header := (\<lambda>k. if k = ''Authorization'' then ''Bearer tok'' else [])\<rparr>"

definition ex_control :: control_server where
  "ex_control = \<lparr>cl_services = ex_cat, cl_version = ''dev'', cl_commit = ''unknown'', cl_environment = ''test''\<rparr>"

theorem overview_exact_witness:
  "\<exists>tok c. bearer_token ex_ct_request = Inr tok \<and> ex_ct_verify tok = Inr c \<and> allows c ''control.dashboard.read''"
proof -
  let ?r = "ex_ct_request\<lparr>header := (\<lambda>k. if k = ''X-Request-ID'' then hex_encode ''r'' else header ex_ct_request k)\<rparr>"
  have req: "http_method ex_ct_request = ''GET''" "url_path ex_ct_request = ''/v1/overview''"
    by (simp_all add: ex_ct_request_def empty_request_def)
  have b: "bearer_token ?r = Inr ''tok''"
    by (rule bearer_token_graphic) (simp_all add: ex_ct_request_def graphic_def in_range_def)
  have "allows ex_ct_claims dashboard_read" by (simp add: allows_iff ex_ct_claims_def dashboard_read_def)
  then have "authenticate ex_ct_verify [dashboard_read] ?r = Inr ex_ct_claims"
    by (simp only: authenticate_def b sum.case) (simp add: ex_ct_verify_def)
  moreover have "http_method ?r = ''GET''" "url_path ?r = ''/v1/overview''" using req by simp_all
  then have "control_route_of (http_method ?r) (url_path ?r) = Ct_get_overview"
    by (simp only: control_overview_route)
  ultimately have "control_handler ex_control ex_ct_verify ex_net 0 ?r = overview_handler ex_control ex_net 0 ex_ct_claims"
    unfolding control_handler_def by (simp only: Let_def control_route.case control_required.simps control_authenticate_sdk sum.case)
  then have "accepted (control_serve ex_control ex_ct_verify ex_net 0 (Some ''r'') ex_ct_request)"
    by (simp only: control_serve_def control_request_id_def control_security_headers_def option.case Let_def)
      (simp add: add_headers_def accepted_def overview_handler_def control_json_def Let_def)
  from overview_exact [OF this req] show ?thesis by blast
qed

end
