(* ===== verification/Drop_Store.thy ===== *)
theory Drop_Store
  imports Go_Encoding
begin

text \<open>
  \<open>services/drop/internal/store\<close>: items and attachments in PostgreSQL, attachment bytes in
  the \<open>blobs\<close> directory of the data volume, uploads and deletions staged in \<open>tmp\<close>.

  A table is the list of its rows in insertion order, a directory a partial map from file
  names to contents. Every call into the database or the file system can fail: which ones
  do is given by a record of faults, one field per call of the operation (a field indexed
  by a number says whether the call of that loop iteration fails). \<open>now()\<close> of the database
  and \<open>store.now()\<close> are separate clocks. \<open>rid i\<close> is the i-th result of \<open>randomID()\<close>
  within an operation.
\<close>

section \<open>Data\<close>

datatype store_error = Not_found | Invalid_input | Quota_exceeded | Internal

record attachment =
  at_id :: string
  at_item :: string
  at_name :: string
  at_storage :: string
  at_media :: string
  at_size :: int
  at_sha :: string
  at_created :: instant

record item =
  it_id :: string
  it_text :: string
  it_creator :: string
  it_actor :: string
  it_created :: instant
  it_expires :: instant
  it_total :: int
  it_attachments :: "attachment list"

record pending =
  pa_path :: string
  pa_name :: string
  pa_media :: string
  pa_size :: int
  pa_sha :: string

record create_input =
  ci_text :: string
  ci_creator :: string
  ci_actor :: string
  ci_ttl :: duration
  ci_key :: string
  ci_attachments :: "pending list"

record stats =
  ss_used :: int
  ss_quota :: int
  ss_items :: int
  ss_attachments :: int

text \<open>A row of \<open>items\<close>, and the three tables (foreign keys cascade on delete).\<close>

record item_row =
  ir_id :: string
  ir_text :: string
  ir_creator :: string
  ir_actor :: string
  ir_created :: instant
  ir_expires :: instant
  ir_total :: int

record db =
  db_items :: "item_row list"
  db_atts :: "attachment list"
  db_keys :: "(string \<times> string) list"

text \<open>A file of the data volume: in \<open>blobs\<close> or in \<open>tmp\<close>.\<close>

datatype path = Blob string | Temp string

type_synonym files = "path \<rightharpoonup> string"

record store =
  st_db :: db
  st_files :: files
  st_quota :: int

datatype commit_outcome =
    Committed
  | Aborted
  | Commit_unknown \<comment> \<open>the commit took effect but the client saw an error\<close>

section \<open>SQL statements\<close>

text \<open>PostgreSQL's \<open>text\<close> holds valid UTF-8 without the zero byte.\<close>

definition pg_text :: "string \<Rightarrow> bool" where
  "pg_text s \<longleftrightarrow> utf8_valid s \<and> CHR 0x00 \<notin> set s"

definition item_ids :: "db \<Rightarrow> string list" where
  "item_ids d = map ir_id (db_items d)"

definition insert_item :: "item_row \<Rightarrow> db \<Rightarrow> db option" where
  "insert_item r d =
     (if ir_id r \<in> set (item_ids d) \<or> ir_total r < 0 \<or> \<not> pg_text (ir_text r) \<or>
         \<not> pg_text (ir_creator r) \<or> \<not> pg_text (ir_actor r)
      then None else Some (d\<lparr>db_items := db_items d @ [r]\<rparr>))"

definition insert_attachment :: "attachment \<Rightarrow> db \<Rightarrow> db option" where
  "insert_attachment a d =
     (if at_id a \<in> at_id ` set (db_atts d) \<or> at_storage a \<in> at_storage ` set (db_atts d) \<or>
         at_item a \<notin> set (item_ids d) \<or> at_size a < 0 \<or> length (at_sha a) \<noteq> 32 \<or>
         \<not> pg_text (at_name a) \<or> \<not> pg_text (at_media a)
      then None else Some (d\<lparr>db_atts := db_atts d @ [a\<lparr>at_created := db_time (at_created a)\<rparr>]\<rparr>))"

definition insert_key :: "string \<Rightarrow> string \<Rightarrow> db \<Rightarrow> db option" where
  "insert_key k iid d =
     (if k \<in> fst ` set (db_keys d) \<or> iid \<in> snd ` set (db_keys d) \<or> length k \<noteq> 32 \<or>
         iid \<notin> set (item_ids d)
      then None else Some (d\<lparr>db_keys := db_keys d @ [(k, iid)]\<rparr>))"

definition delete_item_rows :: "string \<Rightarrow> db \<Rightarrow> db" where
  "delete_item_rows iid d =
     d\<lparr>db_items := filter (\<lambda>r. ir_id r \<noteq> iid) (db_items d),
       db_atts := filter (\<lambda>a. at_item a \<noteq> iid) (db_atts d),
       db_keys := filter (\<lambda>k. snd k \<noteq> iid) (db_keys d)\<rparr>"

definition used_bytes :: "instant \<Rightarrow> db \<Rightarrow> int" where
  "used_bytes dbnow d = (\<Sum>r\<leftarrow>filter (\<lambda>r. ir_expires r > dbnow) (db_items d). ir_total r)"

definition find_active :: "instant \<Rightarrow> string \<Rightarrow> db \<Rightarrow> item_row option" where
  "find_active dbnow iid d = List.find (\<lambda>r. ir_id r = iid \<and> ir_expires r > dbnow) (db_items d)"

section \<open>Files\<close>

text \<open>\<open>os.Rename\<close> (which replaces its target) and \<open>os.Remove\<close>, where they succeed.\<close>

definition rename_file :: "path \<Rightarrow> path \<Rightarrow> files \<Rightarrow> files option" where
  "rename_file src dst fs =
     (case fs src of None \<Rightarrow> None | Some content \<Rightarrow> Some ((fs(src := None))(dst \<mapsto> content)))"

definition remove_file :: "path \<Rightarrow> files \<Rightarrow> files" where
  "remove_file p fs = fs(p := None)"

section \<open>Reading\<close>

text \<open>
  \<open>ORDER BY created_at DESC, id DESC\<close>. Text is compared by its collation, given as a
  function \<open>coll\<close> to sort keys.
\<close>

datatype row_key = Row_key (rk_time: instant) (rk_id: string)

instantiation row_key :: linorder
begin

definition less_eq_row_key :: "row_key \<Rightarrow> row_key \<Rightarrow> bool" where
  "less_eq_row_key a b \<longleftrightarrow> rk_time a < rk_time b \<or> (rk_time a = rk_time b \<and> rk_id a \<le> rk_id b)"

definition less_row_key :: "row_key \<Rightarrow> row_key \<Rightarrow> bool" where
  "less_row_key a b \<longleftrightarrow> rk_time a < rk_time b \<or> (rk_time a = rk_time b \<and> rk_id a < rk_id b)"

instance
  by standard (auto simp: less_eq_row_key_def less_row_key_def row_key.expand)

end

definition row_key_of :: "(string \<Rightarrow> string) \<Rightarrow> item_row \<Rightarrow> row_key" where
  "row_key_of coll r = Row_key (ir_created r) (coll (ir_id r))"

definition attachment_key :: "(string \<Rightarrow> string) \<Rightarrow> attachment \<Rightarrow> row_key" where
  "attachment_key coll a = Row_key (at_created a) (coll (at_id a))"

definition item_of_row :: "item_row \<Rightarrow> item" where
  "item_of_row r = \<lparr>it_id = ir_id r, it_text = ir_text r, it_creator = ir_creator r,
     it_actor = ir_actor r, it_created = ir_created r, it_expires = ir_expires r,
     it_total = ir_total r, it_attachments = []\<rparr>"

definition load_attachments :: "(string \<Rightarrow> string) \<Rightarrow> db \<Rightarrow> item list \<Rightarrow> item list" where
  "load_attachments coll d items =
     map (\<lambda>i. i\<lparr>it_attachments :=
            filter (\<lambda>a. at_item a = it_id i) (sort_key (attachment_key coll) (db_atts d))\<rparr>) items"

text \<open>The fault says whether one of the two queries of \<open>Get\<close> fails.\<close>

definition get :: "(string \<Rightarrow> string) \<Rightarrow> bool \<Rightarrow> instant \<Rightarrow> store \<Rightarrow> string \<Rightarrow> store_error + item" where
  "get coll fault dbnow st iid =
     (if fault then Inl Internal
      else case find_active dbnow iid (st_db st) of
        None \<Rightarrow> Inl Not_found
      | Some r \<Rightarrow> Inr (hd (load_attachments coll (st_db st) [item_of_row r])))"

record list_options =
  lo_limit :: int
  lo_before :: instant
  lo_before_id :: string

definition list_rows :: "(string \<Rightarrow> string) \<Rightarrow> instant \<Rightarrow> db \<Rightarrow> list_options \<Rightarrow> item_row list" where
  "list_rows coll dbnow d opts =
     (let limit = (if lo_limit opts < 1 \<or> lo_limit opts > 100 then 50 else lo_limit opts);
          active = filter (\<lambda>r. ir_expires r > dbnow) (db_items d);
          rows = (if lo_before opts \<noteq> zero_time \<and> lo_before_id opts \<noteq> []
                  then filter (\<lambda>r. row_key_of coll r <
                         Row_key (db_time (lo_before opts)) (coll (lo_before_id opts))) active
                  else active)
      in take (nat limit) (rev (sort_key (row_key_of coll) rows)))"

definition list_items ::
  "(string \<Rightarrow> string) \<Rightarrow> bool \<Rightarrow> instant \<Rightarrow> store \<Rightarrow> list_options \<Rightarrow> store_error + item list" where
  "list_items coll fault dbnow st opts =
     (if fault then Inl Internal
      else Inr (load_attachments coll (st_db st) (map item_of_row (list_rows coll dbnow (st_db st) opts))))"

definition open_attachment :: "bool \<Rightarrow> instant \<Rightarrow> store \<Rightarrow> string \<Rightarrow> store_error + (string \<times> attachment)" where
  "open_attachment fault dbnow st aid =
     (if fault then Inl Internal
      else case List.find (\<lambda>a. at_id a = aid \<and> find_active dbnow (at_item a) (st_db st) \<noteq> None)
                  (db_atts (st_db st)) of
        None \<Rightarrow> Inl Not_found
      | Some a \<Rightarrow>
          (case st_files st (Blob (at_storage a)) of
             None \<Rightarrow> Inl Not_found
           | Some content \<Rightarrow> Inr (content, a)))"

definition store_stats :: "bool \<Rightarrow> instant \<Rightarrow> store \<Rightarrow> store_error + stats" where
  "store_stats fault dbnow st =
     (let d = st_db st; active = filter (\<lambda>r. ir_expires r > dbnow) (db_items d) in
      if fault then Inl Internal
      else Inr \<lparr>ss_used = used_bytes dbnow d, ss_quota = st_quota st, ss_items = int (length active),
                ss_attachments =
                  int (length (filter (\<lambda>a. find_active dbnow (at_item a) d \<noteq> None) (db_atts d)))\<rparr>)"

section \<open>Creating\<close>

record create_faults =
  cf_begin :: bool
  cf_lock :: bool
  cf_lookup :: bool
  cf_get :: bool
  cf_used :: bool
  cf_rename :: "nat \<Rightarrow> bool"
  cf_insert_item :: bool
  cf_insert_att :: "nat \<Rightarrow> bool"
  cf_insert_key :: bool
  cf_commit :: commit_outcome
  cf_remove :: "nat \<Rightarrow> bool"

text \<open>The loop that validates the attachments and adds up their sizes in 64 bits.\<close>

fun total_size :: "int \<Rightarrow> int \<Rightarrow> pending list \<Rightarrow> store_error + int" where
  "total_size quota tot [] = Inr tot"
| "total_size quota tot (a # as) =
     (if pa_path a = [] \<or> pa_name a = [] \<or> pa_size a < 0 \<or> length (pa_sha a) \<noteq> 32 then Inl Invalid_input
      else if pa_size a > wrap64 (quota - tot) then Inl Quota_exceeded
      else total_size quota (wrap64 (tot + pa_size a)) as)"

definition new_attachment ::
  "(nat \<Rightarrow> string) \<Rightarrow> instant \<Rightarrow> string \<Rightarrow> nat \<Rightarrow> pending \<Rightarrow> attachment" where
  "new_attachment rid now iid n p =
     \<lparr>at_id = rid (2 * n + 1), at_item = iid, at_name = pa_name p,
      at_storage = ''blob-'' @ rid (2 * n + 2), at_media = pa_media p, at_size = pa_size p,
      at_sha = pa_sha p, at_created = now\<rparr>"

text \<open>
  The loop that moves the uploads into place: the attachments moved so far, the files, and
  whether every rename succeeded.
\<close>

fun move_uploads ::
  "(nat \<Rightarrow> bool) \<Rightarrow> (nat \<Rightarrow> string) \<Rightarrow> instant \<Rightarrow> string \<Rightarrow> nat \<Rightarrow> pending list \<Rightarrow> attachment list \<Rightarrow> files \<Rightarrow>
   attachment list \<times> files \<times> bool" where
  "move_uploads fault rid now iid n [] moved fs = (moved, fs, True)"
| "move_uploads fault rid now iid n (p # ps) moved fs =
     (let a = new_attachment rid now iid n p in
      if fault n then (moved, fs, False)
      else case rename_file (Temp (pa_path p)) (Blob (at_storage a)) fs of
        None \<Rightarrow> (moved, fs, False)
      | Some fs' \<Rightarrow> move_uploads fault rid now iid (Suc n) ps (moved @ [a]) fs')"

fun cleanup_moved :: "(nat \<Rightarrow> bool) \<Rightarrow> nat \<Rightarrow> attachment list \<Rightarrow> files \<Rightarrow> files" where
  "cleanup_moved fault n [] fs = fs"
| "cleanup_moved fault n (a # as) fs =
     cleanup_moved fault (Suc n) as (if fault n then fs else remove_file (Blob (at_storage a)) fs)"

fun insert_attachments :: "(nat \<Rightarrow> bool) \<Rightarrow> nat \<Rightarrow> attachment list \<Rightarrow> db \<Rightarrow> db option" where
  "insert_attachments fault n [] d = Some d"
| "insert_attachments fault n (a # as) d =
     (if fault n then None
      else Option.bind (insert_attachment a d) (insert_attachments fault (Suc n) as))"

definition new_item :: "(nat \<Rightarrow> string) \<Rightarrow> instant \<Rightarrow> int \<Rightarrow> create_input \<Rightarrow> item" where
  "new_item rid now tot inp =
     \<lparr>it_id = rid 0, it_text = ci_text inp, it_creator = ci_creator inp, it_actor = ci_actor inp,
      it_created = now, it_expires = now + ci_ttl inp, it_total = tot, it_attachments = []\<rparr>"

definition row_of_item :: "item \<Rightarrow> item_row" where
  "row_of_item i = \<lparr>ir_id = it_id i, ir_text = it_text i, ir_creator = it_creator i,
     ir_actor = it_actor i, ir_created = db_time (it_created i), ir_expires = db_time (it_expires i),
     ir_total = it_total i\<rparr>"

text \<open>The rows the transaction writes: the item, its attachments, the idempotency key.\<close>

definition write_rows :: "create_faults \<Rightarrow> item \<Rightarrow> string \<Rightarrow> db \<Rightarrow> db option" where
  "write_rows f i key d =
     (if cf_insert_item f then None
      else Option.bind (insert_item (row_of_item i) d) (\<lambda>d1.
           Option.bind (insert_attachments (cf_insert_att f) 0 (it_attachments i) d1) (\<lambda>d2.
           if length key = 32
           then (if cf_insert_key f then None else insert_key key (it_id i) d2)
           else Some d2)))"

definition create_new ::
  "create_faults \<Rightarrow> instant \<Rightarrow> (nat \<Rightarrow> string) \<Rightarrow> store \<Rightarrow> create_input \<Rightarrow> int \<Rightarrow> (store_error + item) \<times> store" where
  "create_new f now rid st inp tot =
     (let i0 = new_item rid now tot inp in
      case move_uploads (cf_rename f) rid now (it_id i0) 0 (ci_attachments inp) [] (st_files st) of
        (moved, fs, ok) \<Rightarrow>
          let i = i0\<lparr>it_attachments := moved\<rparr>;
              cleaned = cleanup_moved (cf_remove f) 0 moved fs in
          if \<not> ok then (Inl Internal, st\<lparr>st_files := cleaned\<rparr>)
          else case write_rows f i (ci_key inp) (st_db st) of
            None \<Rightarrow> (Inl Internal, st\<lparr>st_files := cleaned\<rparr>)
          | Some d \<Rightarrow>
              (case cf_commit f of
                 Committed \<Rightarrow> (Inr i, st\<lparr>st_db := d, st_files := fs\<rparr>)
               | Aborted \<Rightarrow> (Inl Internal, st\<lparr>st_files := cleaned\<rparr>)
               | Commit_unknown \<Rightarrow> (Inl Internal, st\<lparr>st_db := d, st_files := cleaned\<rparr>)))"

definition create ::
  "(string \<Rightarrow> string) \<Rightarrow> create_faults \<Rightarrow> instant \<Rightarrow> instant \<Rightarrow> (nat \<Rightarrow> string) \<Rightarrow> store \<Rightarrow> create_input \<Rightarrow>
   (store_error + item) \<times> store" where
  "create coll f now dbnow rid st inp =
     (if ci_creator inp = [] \<or> ci_actor inp = [] \<or> ci_ttl inp \<le> 0 \<or>
         (ci_text inp = [] \<and> ci_attachments inp = []) \<or>
         (length (ci_key inp) \<noteq> 0 \<and> length (ci_key inp) \<noteq> 32)
      then (Inl Invalid_input, st)
      else case total_size (st_quota st) (int (length (ci_text inp))) (ci_attachments inp) of
        Inl e \<Rightarrow> (Inl e, st)
      | Inr tot \<Rightarrow>
          if cf_begin f \<or> cf_lock f then (Inl Internal, st)
          else if length (ci_key inp) = 32 \<and> cf_lookup f then (Inl Internal, st)
          else case (if length (ci_key inp) = 32 then map_of (db_keys (st_db st)) (ci_key inp) else None) of
            Some existing \<Rightarrow> (get coll (cf_get f) dbnow st existing, st)
          | None \<Rightarrow>
              if cf_used f then (Inl Internal, st)
              else if tot > st_quota st \<or> used_bytes dbnow (st_db st) > wrap64 (st_quota st - tot)
              then (Inl Quota_exceeded, st)
              else create_new f now rid st inp tot)"

section \<open>Deleting, extending and cleaning up\<close>

record delete_faults =
  df_begin :: bool
  df_query :: bool
  df_exec :: bool
  df_rename :: "nat \<Rightarrow> bool"
  df_commit :: commit_outcome
  df_restore :: "nat \<Rightarrow> bool"
  df_remove :: "nat \<Rightarrow> bool"

text \<open>A staged file remembers where it was and the number of its iteration.\<close>

fun stage_files ::
  "(nat \<Rightarrow> bool) \<Rightarrow> (nat \<Rightarrow> string) \<Rightarrow> nat \<Rightarrow> string list \<Rightarrow> (path \<times> path) list \<Rightarrow> files \<Rightarrow>
   (path \<times> path) list \<times> files \<times> bool" where
  "stage_files fault rid n [] staged fs = (staged, fs, True)"
| "stage_files fault rid n (name # names) staged fs =
     (let original = Blob name; temporary = Temp (''delete-'' @ rid n) in
      if fault n then (staged, fs, False)
      else case rename_file original temporary fs of
        None \<Rightarrow> stage_files fault rid (Suc n) names staged fs
      | Some fs' \<Rightarrow> stage_files fault rid (Suc n) names (staged @ [(original, temporary)]) fs')"

fun restore_files :: "(nat \<Rightarrow> bool) \<Rightarrow> nat \<Rightarrow> (path \<times> path) list \<Rightarrow> files \<Rightarrow> files" where
  "restore_files fault n [] fs = fs"
| "restore_files fault n ((original, temporary) # staged) fs =
     restore_files fault (Suc n) staged
       (if fault n then fs
        else case rename_file temporary original fs of None \<Rightarrow> fs | Some fs' \<Rightarrow> fs')"

fun remove_staged :: "(nat \<Rightarrow> bool) \<Rightarrow> nat \<Rightarrow> (path \<times> path) list \<Rightarrow> files \<Rightarrow> files" where
  "remove_staged fault n [] fs = fs"
| "remove_staged fault n ((original, temporary) # staged) fs =
     remove_staged fault (Suc n) staged (if fault n then fs else remove_file temporary fs)"

definition delete_item ::
  "delete_faults \<Rightarrow> (nat \<Rightarrow> string) \<Rightarrow> store \<Rightarrow> string \<Rightarrow> (store_error + unit) \<times> store" where
  "delete_item f rid st iid =
     (let d = st_db st;
          names = map at_storage (filter (\<lambda>a. at_item a = iid) (db_atts d)) in
      if df_begin f \<or> df_query f \<or> df_exec f then (Inl Internal, st)
      else if iid \<notin> set (item_ids d) then (Inl Not_found, st)
      else case stage_files (df_rename f) rid 0 names [] (st_files st) of
        (staged, fs, ok) \<Rightarrow>
          let restored = restore_files (df_restore f) 0 (rev staged) fs in
          if \<not> ok then (Inl Internal, st\<lparr>st_files := restored\<rparr>)
          else case df_commit f of
            Committed \<Rightarrow>
              (Inr (), st\<lparr>st_db := delete_item_rows iid d, st_files := remove_staged (df_remove f) 0 staged fs\<rparr>)
          | Aborted \<Rightarrow> (Inl Internal, st\<lparr>st_files := restored\<rparr>)
          | Commit_unknown \<Rightarrow> (Inl Internal, st\<lparr>st_db := delete_item_rows iid d, st_files := restored\<rparr>))"

definition set_expiry :: "instant \<Rightarrow> string \<Rightarrow> instant \<Rightarrow> db \<Rightarrow> db" where
  "set_expiry dbnow iid t d =
     d\<lparr>db_items := map (\<lambda>r. if ir_id r = iid \<and> ir_expires r > dbnow then r\<lparr>ir_expires := db_time t\<rparr> else r)
         (db_items d)\<rparr>"

definition update_expiry ::
  "(string \<Rightarrow> string) \<Rightarrow> bool \<Rightarrow> bool \<Rightarrow> instant \<Rightarrow> instant \<Rightarrow> store \<Rightarrow> string \<Rightarrow> duration \<Rightarrow>
   (store_error + item) \<times> store" where
  "update_expiry coll exec_fault get_fault now dbnow st iid ttl =
     (if iid = [] \<or> ttl \<le> 0 then (Inl Invalid_input, st)
      else if exec_fault then (Inl Internal, st)
      else if find_active dbnow iid (st_db st) = None then (Inl Not_found, st)
      else let st' = st\<lparr>st_db := set_expiry dbnow iid (now + ttl) (st_db st)\<rparr>
           in (get coll get_fault dbnow st' iid, st'))"

text \<open>The deletion loop of \<open>CleanupExpired\<close>; each deletion has its own faults and ids.\<close>

fun cleanup_loop ::
  "(nat \<Rightarrow> delete_faults) \<Rightarrow> (nat \<Rightarrow> nat \<Rightarrow> string) \<Rightarrow> nat \<Rightarrow> string list \<Rightarrow> int \<Rightarrow> store \<Rightarrow>
   int \<times> bool \<times> store" where
  "cleanup_loop fs rids n [] deleted st = (deleted, True, st)"
| "cleanup_loop fs rids n (iid # ids) deleted st =
     (case delete_item (fs n) (rids n) st iid of
        (r, st') \<Rightarrow>
          if r = Inl Not_found \<or> is_ok r then cleanup_loop fs rids (Suc n) ids (deleted + 1) st'
          else (deleted, False, st'))"

definition cleanup_expired ::
  "bool \<Rightarrow> (nat \<Rightarrow> delete_faults) \<Rightarrow> (nat \<Rightarrow> nat \<Rightarrow> string) \<Rightarrow> instant \<Rightarrow> int \<Rightarrow> store \<Rightarrow> int \<times> bool \<times> store" where
  "cleanup_expired query_fault fs rids dbnow limit st =
     (let n = (if limit < 1 then 100 else limit);
          expired = filter (\<lambda>r. ir_expires r \<le> dbnow) (db_items (st_db st));
          ids = map ir_id (take (nat n) (sort_key ir_expires expired)) in
      if query_fault then (0, False, st)
      else cleanup_loop fs rids 0 ids 0 st)"

end
