(* ===== verification/Drop_Files.thy ===== *)
theory Drop_Files
  imports Drop_Store
begin

text \<open>
  Lemmas on the loops of the Drop store: the overflow-free sum of sizes, the moves of
  uploads into \<open>blobs\<close> and their undoing, the staging of deletions in \<open>tmp\<close> and its
  undoing, and the rows the transaction of \<open>Create\<close> writes.
\<close>

section \<open>The sum of sizes\<close>

definition pending_ok :: "pending \<Rightarrow> bool" where
  "pending_ok p \<longleftrightarrow> pa_path p \<noteq> [] \<and> pa_name p \<noteq> [] \<and> 0 \<le> pa_size p \<and> length (pa_sha p) = 32"

lemma total_size_exact:
  assumes "total_size q t ps = Inr tot" and "0 \<le> t" "t < 2 ^ 63" "0 < q" "q < 2 ^ 63"
  shows "tot = t + (\<Sum>p\<leftarrow>ps. pa_size p) \<and> list_all pending_ok ps \<and> t \<le> tot \<and> tot < 2 ^ 63 \<and>
         (ps \<noteq> [] \<longrightarrow> tot \<le> q)"
  using assms(1-3)
proof (induction ps arbitrary: t)
  case Nil
  then show ?case by simp
next
  case (Cons p ps)
  have diff: "wrap64 (q - t) = q - t"
    using Cons.prems(2,3) assms(4,5) by (intro wrap64_id) (auto simp: in_int64_def)
  from Cons.prems(1) have p: "pending_ok p" "pa_size p \<le> q - t"
    and rest: "total_size q (wrap64 (t + pa_size p)) ps = Inr tot"
    by (auto simp: diff pending_ok_def split: if_splits)
  have t': "0 \<le> t + pa_size p" "t + pa_size p < 2 ^ 63" "t + pa_size p \<le> q"
    using p Cons.prems(2) assms(5) by (auto simp: pending_ok_def)
  have "wrap64 (t + pa_size p) = t + pa_size p"
    using t' by (intro wrap64_id) (auto simp: in_int64_def)
  with rest have rest: "total_size q (t + pa_size p) ps = Inr tot" by simp
  from Cons.IH [OF this t'(1,2)] show ?case
    using p t'(3) rest by (cases "ps = []") (auto simp: pending_ok_def)
qed

section \<open>Moving uploads\<close>

fun new_attachments ::
  "(nat \<Rightarrow> string) \<Rightarrow> instant \<Rightarrow> string \<Rightarrow> nat \<Rightarrow> pending list \<Rightarrow> attachment list" where
  "new_attachments rid now iid n [] = []"
| "new_attachments rid now iid n (p # ps) =
     new_attachment rid now iid n p # new_attachments rid now iid (Suc n) ps"

lemma new_attachments_item: "a \<in> set (new_attachments rid now iid n ps) \<Longrightarrow> at_item a = iid"
  by (induction ps arbitrary: n) (auto simp: new_attachment_def)

lemma new_attachments_storage:
  "a \<in> set (new_attachments rid now iid n ps) \<Longrightarrow> \<exists>k \<ge> 2 * n + 2. at_storage a = ''blob-'' @ rid k"
proof (induction ps arbitrary: n)
  case (Cons p ps)
  then consider "a = new_attachment rid now iid n p" | "a \<in> set (new_attachments rid now iid (Suc n) ps)"
    by auto
  then show ?case
  proof cases
    case 1
    then have "at_storage a = ''blob-'' @ rid (2 * n + 2)" by (simp only: new_attachment_def attachment.simps)
    then show ?thesis by blast
  next
    case 2
    from Cons.IH [OF this] obtain k where "2 * Suc n + 2 \<le> k" "at_storage a = ''blob-'' @ rid k" by blast
    moreover from this(1) have "2 * n + 2 \<le> k" by simp
    ultimately show ?thesis by blast
  qed
qed simp

lemma new_attachments_size: "map at_size (new_attachments rid now iid n ps) = map pa_size ps"
  by (induction ps arbitrary: n) (auto simp: new_attachment_def)

lemma length_new_attachments [simp]: "length (new_attachments rid now iid n ps) = length ps"
  by (induction ps arbitrary: n) auto

lemma move_uploads_step:
  "move_uploads fault rid now iid n (p # ps) moved fs =
     (case (if fault n then None
            else rename_file (Temp (pa_path p)) (Blob (at_storage (new_attachment rid now iid n p))) fs) of
        None \<Rightarrow> (moved, fs, False)
      | Some fs1 \<Rightarrow>
          move_uploads fault rid now iid (Suc n) ps (moved @ [new_attachment rid now iid n p]) fs1)"
  unfolding move_uploads.simps(2) Let_def
  by (cases "fault n") (simp_all only: if_True if_False option.case)

lemma move_uploads_acc:
  "move_uploads fault rid now iid n ps moved fs =
     (case move_uploads fault rid now iid n ps [] fs of (m, fs', ok) \<Rightarrow> (moved @ m, fs', ok))"
proof (induction ps arbitrary: n moved fs)
  case Nil
  then show ?case by simp
next
  case (Cons p ps)
  define a where "a = new_attachment rid now iid n p"
  define r where
    "r = (if fault n then None else rename_file (Temp (pa_path p)) (Blob (at_storage a)) fs)"
  show ?case
  proof (cases r)
    case None
    then show ?thesis unfolding move_uploads_step a_def [symmetric] r_def [symmetric] by simp
  next
    case (Some fs1)
    obtain m fs' ok where m: "move_uploads fault rid now iid (Suc n) ps [] fs1 = (m, fs', ok)"
      by (rule prod_cases3)
    have "move_uploads fault rid now iid (Suc n) ps mv fs1 = (mv @ m, fs', ok)" for mv
      using Cons.IH [of "Suc n" mv fs1] unfolding m by simp
    then show ?thesis
      unfolding move_uploads_step a_def [symmetric] r_def [symmetric] Some by simp
  qed
qed

lemma move_uploads_Cons:
  "move_uploads fault rid now iid n (p # ps) [] fs =
     (case (if fault n then None
            else rename_file (Temp (pa_path p)) (Blob (at_storage (new_attachment rid now iid n p))) fs) of
        None \<Rightarrow> ([], fs, False)
      | Some fs1 \<Rightarrow>
          (case move_uploads fault rid now iid (Suc n) ps [] fs1 of
             (m, fs', ok) \<Rightarrow> (new_attachment rid now iid n p # m, fs', ok)))"
  unfolding move_uploads_step append_Nil
  by (simp only: move_uploads_acc [where moved = "[_]"] append_Cons append_Nil cong: option.case_cong)

text \<open>The file an upload or a stored attachment points to has the recorded size and digest.\<close>

definition upload_ok :: "(string \<Rightarrow> string) \<Rightarrow> files \<Rightarrow> pending \<Rightarrow> bool" where
  "upload_ok sha fs p \<longleftrightarrow>
     (\<exists>c. fs (Temp (pa_path p)) = Some c \<and> int (length c) = pa_size p \<and> sha c = pa_sha p)"

definition blob_ok :: "(string \<Rightarrow> string) \<Rightarrow> files \<Rightarrow> attachment \<Rightarrow> bool" where
  "blob_ok sha fs a \<longleftrightarrow>
     (\<exists>c. fs (Blob (at_storage a)) = Some c \<and> int (length c) = at_size a \<and> sha c = at_sha a)"

lemma move_uploads_spec:
  assumes "move_uploads fault rid now iid n ps [] fs = (m, fs', ok)"
    and "list_all (upload_ok sha fs) ps" and "distinct (map pa_path ps)" and "inj rid"
  shows "(\<forall>a \<in> set m. blob_ok sha fs' a) \<and>
         (\<forall>nm. nm \<notin> at_storage ` set m \<longrightarrow> fs' (Blob nm) = fs (Blob nm)) \<and>
         (\<exists>k. m = take k (new_attachments rid now iid n ps)) \<and>
         (ok \<longrightarrow> m = new_attachments rid now iid n ps)"
  using assms(1-3)
proof (induction ps arbitrary: n fs m)
  case Nil
  then show ?case by auto
next
  case (Cons p ps)
  let ?a = "new_attachment rid now iid n p"
  show ?case
  proof (cases "if fault n then None else rename_file (Temp (pa_path p)) (Blob (at_storage ?a)) fs")
    case None
    with Cons.prems(1) have "m = []" "fs' = fs" "\<not> ok"
      unfolding move_uploads_Cons by auto
    then show ?thesis by (auto intro: exI [of _ 0])
  next
    case (Some fs1)
    then have r: "rename_file (Temp (pa_path p)) (Blob (at_storage ?a)) fs = Some fs1"
      by (simp split: if_splits)
    obtain m1 where m1: "move_uploads fault rid now iid (Suc n) ps [] fs1 = (m1, fs', ok)"
      and m: "m = ?a # m1"
      using Cons.prems(1) Some unfolding move_uploads_Cons by (auto split: prod.splits)
    obtain c where c: "fs (Temp (pa_path p)) = Some c" "int (length c) = pa_size p" "sha c = pa_sha p"
      using Cons.prems(2) by (auto simp: upload_ok_def)
    with r have fs1: "fs1 = (fs(Temp (pa_path p) := None))(Blob (at_storage ?a) \<mapsto> c)"
      by (simp add: rename_file_def)
    have "\<And>q. q \<in> set ps \<Longrightarrow> pa_path q \<noteq> pa_path p"
      using Cons.prems(3) by (auto simp: image_iff)
    then have "list_all (upload_ok sha fs1) ps" and "distinct (map pa_path ps)"
      using Cons.prems(2,3) by (auto simp: list_all_iff upload_ok_def fs1)
    from Cons.IH [OF m1 this] have IH: "\<forall>a \<in> set m1. blob_ok sha fs' a"
      "\<And>nm. nm \<notin> at_storage ` set m1 \<Longrightarrow> fs' (Blob nm) = fs1 (Blob nm)"
      "\<exists>k. m1 = take k (new_attachments rid now iid (Suc n) ps)"
      "ok \<longrightarrow> m1 = new_attachments rid now iid (Suc n) ps" by auto
    have "at_storage ?a \<notin> at_storage ` set m1"
    proof
      assume "at_storage ?a \<in> at_storage ` set m1"
      with IH(3) obtain a' where "a' \<in> set (new_attachments rid now iid (Suc n) ps)"
        "at_storage a' = at_storage ?a" by (auto dest: in_set_takeD)
      then show False
        using new_attachments_storage [of a' rid now iid "Suc n" ps] injD [OF assms(4)]
        by (fastforce simp: new_attachment_def)
    qed
    then have "blob_ok sha fs' ?a"
      using IH(2) c by (auto simp: blob_ok_def fs1 new_attachment_def)
    moreover have "\<exists>k. m = take k (new_attachments rid now iid n (p # ps))"
      using IH(3) unfolding m by (auto intro: exI [of _ "Suc _"])
    ultimately show ?thesis using IH by (auto simp: m fs1)
  qed
qed

text \<open>A complete move puts the bytes of each upload into the blob of its attachment.\<close>

lemma move_uploads_content:
  assumes "move_uploads fault rid now iid n ps [] fs = (m, fs', True)"
    and "distinct (map pa_path ps)" and "inj rid"
  shows "list_all2 (\<lambda>p a. fs' (Blob (at_storage a)) = fs (Temp (pa_path p))) ps m \<and>
         (\<forall>nm. (\<forall>k \<ge> 2 * n + 2. nm \<noteq> ''blob-'' @ rid k) \<longrightarrow> fs' (Blob nm) = fs (Blob nm))"
  using assms(1,2)
proof (induction ps arbitrary: n fs m)
  case Nil
  then show ?case by simp
next
  case (Cons p ps)
  define a where "a = new_attachment rid now iid n p"
  have st: "at_storage a = ''blob-'' @ rid (2 * n + 2)"
    by (simp only: a_def new_attachment_def attachment.simps)
  obtain fs1 m1 where r: "rename_file (Temp (pa_path p)) (Blob (at_storage a)) fs = Some fs1"
    and m1: "move_uploads fault rid now iid (Suc n) ps [] fs1 = (m1, fs', True)" and m: "m = a # m1"
    using Cons.prems(1) unfolding move_uploads_Cons a_def [symmetric]
    by (auto split: if_split_asm option.split_asm prod.splits)
  from r obtain c where c: "fs (Temp (pa_path p)) = Some c"
    and fs1: "fs1 = (fs(Temp (pa_path p) := None))(Blob (at_storage a) \<mapsto> c)"
    by (auto simp: rename_file_def split: option.split_asm)
  have "distinct (map pa_path ps)" using Cons.prems(2) by simp
  note IH = Cons.IH [OF m1 this]
  have "\<And>q. q \<in> set ps \<Longrightarrow> fs1 (Temp (pa_path q)) = fs (Temp (pa_path q))"
    using Cons.prems(2) by (auto simp: fs1 image_iff)
  with IH have rest: "list_all2 (\<lambda>p a. fs' (Blob (at_storage a)) = fs (Temp (pa_path p))) ps m1"
    by (auto simp: list_all2_conv_all_nth)
  have "rid (2 * n + 2) \<noteq> rid k" if "2 * Suc n + 2 \<le> k" for k
    using that injD [OF assms(3), of "2 * n + 2" k] by auto
  then have "fs' (Blob (at_storage a)) = Some c"
    using conjunct2 [OF IH, rule_format, of "at_storage a"] by (simp only: st fs1) simp
  moreover have "fs' (Blob nm) = fs (Blob nm)" if nm: "\<forall>k \<ge> 2 * n + 2. nm \<noteq> ''blob-'' @ rid k" for nm
  proof -
    have "nm \<noteq> at_storage a" using nm unfolding st by blast
    moreover have "\<forall>k \<ge> 2 * Suc n + 2. nm \<noteq> ''blob-'' @ rid k" using nm by auto
    ultimately show ?thesis using IH by (simp add: fs1)
  qed
  ultimately show ?case using rest c by (simp add: m)
qed

lemma cleanup_moved_spec:
  "cleanup_moved (\<lambda>_. False) n as fs p =
     (if \<exists>a \<in> set as. p = Blob (at_storage a) then None else fs p)"
  by (induction as arbitrary: n fs) (auto simp: remove_file_def)

section \<open>Staging deletions\<close>

definition stage_pair :: "(nat \<Rightarrow> string) \<Rightarrow> nat \<Rightarrow> string \<Rightarrow> path \<times> path" where
  "stage_pair rid n nm = (Blob nm, Temp (''delete-'' @ rid n))"

lemma stage_files_step:
  "stage_files fault rid n (nm # names) staged fs =
     (if fault n then (staged, fs, False)
      else case rename_file (Blob nm) (snd (stage_pair rid n nm)) fs of
        None \<Rightarrow> stage_files fault rid (Suc n) names staged fs
      | Some fs1 \<Rightarrow> stage_files fault rid (Suc n) names (staged @ [stage_pair rid n nm]) fs1)"
  by (simp only: stage_files.simps Let_def stage_pair_def snd_conv)

lemma stage_files_acc:
  "stage_files fault rid n names staged fs =
     (case stage_files fault rid n names [] fs of (m, fs', ok) \<Rightarrow> (staged @ m, fs', ok))"
proof (induction names arbitrary: n staged fs)
  case Nil
  then show ?case by simp
next
  case (Cons nm names)
  define x where "x = stage_pair rid n nm"
  define r where "r = rename_file (Blob nm) (snd x) fs"
  show ?case
  proof (cases "fault n")
    case True
    then show ?thesis by (simp add: stage_files_step)
  next
    case False
    show ?thesis
    proof (cases r)
      case None
      from False show ?thesis
        unfolding stage_files_step x_def [symmetric] r_def [symmetric] None
        by (simp only: if_False option.case Cons.IH [of "Suc n" staged fs])
    next
      case (Some fs1)
      obtain m fs' ok where m: "stage_files fault rid (Suc n) names [] fs1 = (m, fs', ok)"
        by (rule prod_cases3)
      have "stage_files fault rid (Suc n) names st fs1 = (st @ m, fs', ok)" for st
        using Cons.IH [of "Suc n" st fs1] unfolding m by simp
      with False show ?thesis
        unfolding stage_files_step x_def [symmetric] r_def [symmetric] Some by simp
    qed
  qed
qed

lemma stage_files_Cons:
  assumes "stage_files fault rid n (nm # names) [] fs = (staged, fs', ok)"
  obtains (fault) "staged = []" "fs' = fs" "\<not> ok"
  | (missing) "fs (Blob nm) = None" "stage_files fault rid (Suc n) names [] fs = (staged, fs', ok)"
  | (moved) c s1 where "fs (Blob nm) = Some c" "staged = (Blob nm, Temp (''delete-'' @ rid n)) # s1"
      "stage_files fault rid (Suc n) names [] ((fs(Blob nm := None))(Temp (''delete-'' @ rid n) \<mapsto> c)) = (s1, fs', ok)"
proof (cases "fault n")
  case True
  with assms show ?thesis by (intro fault) (simp_all add: stage_files_step)
next
  case False
  show ?thesis
  proof (cases "fs (Blob nm)")
    case None
    with False assms show ?thesis
      by (intro missing) (simp_all add: stage_files_step rename_file_def)
  next
    case (Some c)
    define x where "x = stage_pair rid n nm"
    define fs1 where "fs1 = (fs(Blob nm := None))(snd x \<mapsto> c)"
    obtain m fs2 ok2 where m: "stage_files fault rid (Suc n) names [] fs1 = (m, fs2, ok2)"
      by (rule prod_cases3)
    have "stage_files fault rid (Suc n) names [x] fs1 = (staged, fs', ok)"
      using assms False Some unfolding stage_files_step x_def [symmetric] rename_file_def
      by (simp add: fs1_def)
    with m have "staged = x # m" "fs2 = fs'" "ok2 = ok"
      using stage_files_acc [of fault rid "Suc n" names "[x]" fs1] by simp_all
    with m Some show ?thesis
      by (intro moved) (simp_all only: fs1_def x_def stage_pair_def snd_conv)
  qed
qed

lemma restore_files_append:
  "restore_files (\<lambda>_. False) n (xs @ ys) fs =
     restore_files (\<lambda>_. False) (n + length xs) ys (restore_files (\<lambda>_. False) n xs fs)"
  by (induction xs arbitrary: n fs) auto

text \<open>The temporary names used from iteration \<open>n\<close> on.\<close>

definition stage_temps :: "(nat \<Rightarrow> string) \<Rightarrow> nat \<Rightarrow> path set" where
  "stage_temps rid n = {Temp (''delete-'' @ rid k) |k. n \<le> k}"

lemma stage_temps_Suc:
  assumes "inj rid"
  shows "stage_temps rid n = insert (Temp (''delete-'' @ rid n)) (stage_temps rid (Suc n))"
    and "Temp (''delete-'' @ rid n) \<notin> stage_temps rid (Suc n)"
proof -
  show "stage_temps rid n = insert (Temp (''delete-'' @ rid n)) (stage_temps rid (Suc n))"
    unfolding stage_temps_def using le_eq_less_or_eq Suc_le_eq by auto
  show "Temp (''delete-'' @ rid n) \<notin> stage_temps rid (Suc n)"
    unfolding stage_temps_def using injD [OF assms] by fastforce
qed

lemma stage_temps_Blob [simp]: "Blob x \<notin> stage_temps rid n"
  by (simp add: stage_temps_def)

lemma stage_files_blobs:
  assumes "stage_files fault rid n names [] fs = (staged, fs', ok)"
  shows "(\<forall>nm. nm \<notin> set names \<longrightarrow> fs' (Blob nm) = fs (Blob nm)) \<and>
         (\<forall>nm. fs (Blob nm) = None \<longrightarrow> fs' (Blob nm) = None) \<and>
         (ok \<longrightarrow> (\<forall>nm \<in> set names. fs' (Blob nm) = None)) \<and>
         (\<forall>x \<in> set staged. \<exists>nm \<in> set names. \<exists>k \<ge> n. x = (Blob nm, Temp (''delete-'' @ rid k)))"
  using assms
proof (induction names arbitrary: n fs staged)
  case Nil
  then show ?case by simp
next
  case (Cons nm names)
  from Cons.prems show ?case
  proof (cases rule: stage_files_Cons)
    case fault
    then show ?thesis by simp
  next
    case missing
    show ?thesis using Cons.IH [OF missing(2)] missing(1)
      by (fastforce dest: Suc_leD)
  next
    case (moved c s1)
    show ?thesis using Cons.IH [OF moved(3)] moved(1)
      unfolding moved(2) by (fastforce dest: Suc_leD)
  qed
qed

lemma stage_files_restore:
  assumes "stage_files fault rid n names [] fs = (staged, fs', ok)" and inj: "inj rid"
    and "p \<notin> stage_temps rid n"
  shows "restore_files (\<lambda>_. False) j (rev staged) fs' p = fs p"
  using assms(1,3)
proof (induction names arbitrary: n fs staged p j)
  case Nil
  then show ?case by simp
next
  case (Cons nm names)
  let ?t = "Temp (''delete-'' @ rid n)"
  have p: "p \<noteq> ?t" "p \<notin> stage_temps rid (Suc n)"
    using Cons.prems(2) stage_temps_Suc(1) [OF inj, of n] by auto
  from Cons.prems(1) show ?case
  proof (cases rule: stage_files_Cons)
    case fault
    then show ?thesis by simp
  next
    case missing
    from Cons.IH [OF missing(2) p(2)] show ?thesis .
  next
    case (moved c s1)
    note keep = Cons.IH [OF moved(3)]
    have "restore_files (\<lambda>_. False) j (rev s1) fs' ?t = Some c"
      using keep [OF stage_temps_Suc(2) [OF inj]] by simp
    moreover have "restore_files (\<lambda>_. False) j (rev s1) fs' p = (if p = Blob nm then None else fs p)"
      using keep [OF p(2)] p(1) by simp
    ultimately show ?thesis
      using p(1) moved(1) unfolding moved(2)
      by (simp add: restore_files_append rename_file_def)
  qed
qed

lemma remove_staged_blob:
  "\<forall>x \<in> set staged. \<exists>nm k. x = (Blob nm, Temp k) \<Longrightarrow> remove_staged fault n staged fs (Blob b) = fs (Blob b)"
  by (induction fault n staged fs rule: remove_staged.induct) (auto simp: remove_file_def)

end
