(* ===== verification/Drop_Rows.thy ===== *)
theory Drop_Rows
  imports Drop_Files
begin

text \<open>
  The rows the Drop transactions write: what the inserts of \<open>Create\<close> add and which
  constraints they went through, and the invariant \<open>store_ok\<close> of the three tables together
  with the \<open>blobs\<close> directory.
\<close>

section \<open>Inserts\<close>

definition stored :: "attachment \<Rightarrow> attachment" where
  "stored a = a\<lparr>at_created := db_time (at_created a)\<rparr>"

lemma stored_simps [simp]:
  "at_id (stored a) = at_id a" "at_item (stored a) = at_item a" "at_storage (stored a) = at_storage a"
  "at_size (stored a) = at_size a" "at_sha (stored a) = at_sha a" "at_name (stored a) = at_name a"
  "at_media (stored a) = at_media a"
  by (simp_all add: stored_def)

lemma blob_ok_stored [simp]: "blob_ok sha fs (stored a) = blob_ok sha fs a"
  by (simp add: blob_ok_def)

lemma insert_item_spec:
  "insert_item r d = Some d' \<longleftrightarrow>
     d' = d\<lparr>db_items := db_items d @ [r]\<rparr> \<and> ir_id r \<notin> set (item_ids d) \<and> 0 \<le> ir_total r \<and>
     pg_text (ir_text r) \<and> pg_text (ir_creator r) \<and> pg_text (ir_actor r)"
  by (auto simp: insert_item_def not_less)

lemma insert_key_spec:
  "insert_key k iid d = Some d' \<longleftrightarrow>
     d' = d\<lparr>db_keys := db_keys d @ [(k, iid)]\<rparr> \<and> k \<notin> fst ` set (db_keys d) \<and>
     iid \<notin> snd ` set (db_keys d) \<and> length k = 32 \<and> iid \<in> set (item_ids d)"
  by (auto simp: insert_key_def)

lemma insert_attachment_spec:
  assumes "insert_attachment a d = Some d'"
  shows "d' = d\<lparr>db_atts := db_atts d @ [stored a]\<rparr>" "at_id a \<notin> at_id ` set (db_atts d)"
    "at_storage a \<notin> at_storage ` set (db_atts d)" "at_item a \<in> set (item_ids d)" "0 \<le> at_size a"
  using assms by (auto simp: insert_attachment_def stored_def not_less split: if_splits)

lemma insert_attachments_spec:
  assumes "insert_attachments fault n as d = Some d'"
    and "distinct (map at_id (db_atts d))" "distinct (map at_storage (db_atts d))"
  shows "d' = d\<lparr>db_atts := db_atts d @ map stored as\<rparr> \<and>
         distinct (map at_id (db_atts d')) \<and> distinct (map at_storage (db_atts d'))"
  using assms
proof (induction as arbitrary: n d)
  case Nil
  then show ?case by simp
next
  case (Cons a as)
  then obtain d1 where d1: "insert_attachment a d = Some d1"
    and rest: "insert_attachments fault (Suc n) as d1 = Some d'"
    by (auto split: if_splits bind_splits)
  note sp = insert_attachment_spec [OF d1]
  have "distinct (map at_id (db_atts d1))" "distinct (map at_storage (db_atts d1))"
    using Cons.prems(2,3) sp(2,3) by (auto simp: sp(1))
  note IH = Cons.IH [OF rest this]
  then have "d' = d\<lparr>db_atts := db_atts d @ map stored (a # as)\<rparr>" by (simp add: sp(1))
  with IH show ?case by blast
qed

lemma write_rows_spec:
  assumes "write_rows f i key d = Some d'"
    and "distinct (map at_id (db_atts d))" "distinct (map at_storage (db_atts d))"
  shows "d' = \<lparr>db_items = db_items d @ [row_of_item i], db_atts = db_atts d @ map stored (it_attachments i),
               db_keys = db_keys d @ (if length key = 32 then [(key, it_id i)] else [])\<rparr> \<and>
         it_id i \<notin> set (item_ids d) \<and> 0 \<le> it_total i \<and>
         distinct (map at_id (db_atts d')) \<and> distinct (map at_storage (db_atts d')) \<and>
         (length key = 32 \<longrightarrow> key \<notin> fst ` set (db_keys d) \<and> it_id i \<notin> snd ` set (db_keys d))"
proof -
  from assms(1) obtain d1 d2 where d1: "insert_item (row_of_item i) d = Some d1"
    and d2: "insert_attachments (cf_insert_att f) 0 (it_attachments i) d1 = Some d2"
    and d': "(if length key = 32 then (if cf_insert_key f then None else insert_key key (it_id i) d2)
              else Some d2) = Some d'"
    unfolding write_rows_def by (auto simp del: insert_attachments.simps split: if_split_asm bind_splits)
  from d1 have i: "d1 = d\<lparr>db_items := db_items d @ [row_of_item i]\<rparr>" "it_id i \<notin> set (item_ids d)"
    "0 \<le> it_total i"
    by (simp_all add: insert_item_spec row_of_item_def)
  have "distinct (map at_id (db_atts d1))" "distinct (map at_storage (db_atts d1))"
    using assms(2,3) by (simp_all add: i(1))
  note a = insert_attachments_spec [OF d2 this]
  show ?thesis
  proof (cases "length key = 32")
    case True
    with d' have "insert_key key (it_id i) d2 = Some d'" by (simp split: if_split_asm)
    then have k: "d' = d2\<lparr>db_keys := db_keys d2 @ [(key, it_id i)]\<rparr>" "key \<notin> fst ` set (db_keys d2)"
      "it_id i \<notin> snd ` set (db_keys d2)" by (simp_all add: insert_key_spec)
    then have "db_atts d' = db_atts d2" by simp
    moreover have "d2 = d\<lparr>db_items := db_items d @ [row_of_item i],
        db_atts := db_atts d @ map stored (it_attachments i)\<rparr>"
      using a i(1) by simp
    moreover from this k have "d' = \<lparr>db_items = db_items d @ [row_of_item i],
        db_atts = db_atts d @ map stored (it_attachments i),
        db_keys = db_keys d @ (if length key = 32 then [(key, it_id i)] else [])\<rparr>"
      "key \<notin> fst ` set (db_keys d)" "it_id i \<notin> snd ` set (db_keys d)"
      using True by simp_all
    ultimately show ?thesis using a i(2,3) by metis
  next
    case False
    with d' have "d2 = d'" by simp
    moreover from this a i(1) have "d' = \<lparr>db_items = db_items d @ [row_of_item i],
        db_atts = db_atts d @ map stored (it_attachments i),
        db_keys = db_keys d @ (if length key = 32 then [(key, it_id i)] else [])\<rparr>"
      using False by (cases d) simp
    ultimately show ?thesis using a i(2,3) False by metis
  qed
qed

section \<open>The invariant\<close>

definition sizes_of :: "string \<Rightarrow> attachment list \<Rightarrow> int" where
  "sizes_of iid as = (\<Sum>a\<leftarrow>filter (\<lambda>a. at_item a = iid) as. at_size a)"

definition tables_ok :: "db \<Rightarrow> bool" where
  "tables_ok d \<longleftrightarrow>
     distinct (item_ids d) \<and> distinct (map at_id (db_atts d)) \<and> distinct (map at_storage (db_atts d)) \<and>
     distinct (map fst (db_keys d)) \<and> distinct (map snd (db_keys d)) \<and>
     at_item ` set (db_atts d) \<subseteq> set (item_ids d) \<and> snd ` set (db_keys d) \<subseteq> set (item_ids d) \<and>
     list_all (\<lambda>r. ir_total r = int (length (ir_text r)) + sizes_of (ir_id r) (db_atts d)) (db_items d)"

definition blobs_ok :: "(string \<Rightarrow> string) \<Rightarrow> store \<Rightarrow> bool" where
  "blobs_ok sha st \<longleftrightarrow>
     list_all (blob_ok sha (st_files st)) (db_atts (st_db st)) \<and>
     (\<forall>nm. st_files st (Blob nm) \<noteq> None \<longrightarrow> nm \<in> at_storage ` set (db_atts (st_db st)))"

definition store_ok :: "(string \<Rightarrow> string) \<Rightarrow> store \<Rightarrow> bool" where
  "store_ok sha st \<longleftrightarrow> tables_ok (st_db st) \<and> blobs_ok sha st"

lemma tables_okD:
  assumes "tables_ok d"
  shows "distinct (item_ids d)" "distinct (map at_id (db_atts d))" "distinct (map at_storage (db_atts d))"
    "distinct (map fst (db_keys d))" "distinct (map snd (db_keys d))"
    "\<And>a. a \<in> set (db_atts d) \<Longrightarrow> at_item a \<in> set (item_ids d)"
    "\<And>k. k \<in> set (db_keys d) \<Longrightarrow> snd k \<in> set (item_ids d)"
    "\<And>r. r \<in> set (db_items d) \<Longrightarrow> ir_total r = int (length (ir_text r)) + sizes_of (ir_id r) (db_atts d)"
  using assms by (auto simp: tables_ok_def list_all_iff)

lemma sizes_of_append: "sizes_of iid (as @ bs) = sizes_of iid as + sizes_of iid bs"
  by (simp add: sizes_of_def)

lemma sizes_of_none: "(\<And>a. a \<in> set as \<Longrightarrow> at_item a \<noteq> iid) \<Longrightarrow> sizes_of iid as = 0"
  by (induction as) (auto simp: sizes_of_def)

lemma sizes_of_all: "(\<And>a. a \<in> set as \<Longrightarrow> at_item a = iid) \<Longrightarrow> sizes_of iid as = (\<Sum>a\<leftarrow>as. at_size a)"
  by (induction as) (auto simp: sizes_of_def)

lemma sizes_of_stored: "sizes_of iid (map stored as) = sizes_of iid as"
  by (induction as) (auto simp: sizes_of_def)

text \<open>Adding an item with its attachments.\<close>

lemma tables_ok_add:
  assumes "tables_ok d" and "write_rows f i key d = Some d'"
    and "\<And>a. a \<in> set (it_attachments i) \<Longrightarrow> at_item a = it_id i"
    and "it_total i = int (length (it_text i)) + (\<Sum>a\<leftarrow>it_attachments i. at_size a)"
  shows "tables_ok d'"
proof -
  note ok = tables_okD [OF assms(1)]
  note w = write_rows_spec [OF assms(2) ok(2,3)]
  have ids: "item_ids d' = item_ids d @ [it_id i]" using w by (simp add: item_ids_def row_of_item_def)
  have new: "it_id i \<notin> set (item_ids d)" using w by simp
  have old: "sizes_of (ir_id r) (db_atts d') = sizes_of (ir_id r) (db_atts d)" if "r \<in> set (db_items d)" for r
  proof -
    have "ir_id r \<noteq> it_id i" using new that by (metis image_eqI item_ids_def list.set_map)
    then show ?thesis
      using w assms(3) by (simp add: sizes_of_append sizes_of_stored sizes_of_none)
  qed
  have "sizes_of (it_id i) (db_atts d) = 0" using new ok(6) by (intro sizes_of_none) metis
  then have "sizes_of (it_id i) (db_atts d') = (\<Sum>a\<leftarrow>it_attachments i. at_size a)"
    using w assms(3) by (simp add: sizes_of_append sizes_of_stored sizes_of_all)
  with old ok(8) assms(4) w
  have totals: "list_all (\<lambda>r. ir_total r = int (length (ir_text r)) + sizes_of (ir_id r) (db_atts d')) (db_items d')"
    by (auto simp: list_all_iff row_of_item_def)
  show ?thesis
    unfolding tables_ok_def
  proof (intro conjI)
    show "distinct (item_ids d')" using ids new ok(1) by simp
    show "distinct (map at_id (db_atts d'))" "distinct (map at_storage (db_atts d'))" using w by blast+
    show "distinct (map fst (db_keys d'))" "distinct (map snd (db_keys d'))" using w ok(4,5) by auto
    show "at_item ` set (db_atts d') \<subseteq> set (item_ids d')" using w ids ok(6) assms(3) by auto
    show "snd ` set (db_keys d') \<subseteq> set (item_ids d')" using w ids ok(7) by auto
    show "list_all (\<lambda>r. ir_total r = int (length (ir_text r)) + sizes_of (ir_id r) (db_atts d')) (db_items d')"
      by (rule totals)
  qed
qed

text \<open>Deleting an item cascades to its attachments and its key.\<close>

lemma item_ids_delete: "item_ids (delete_item_rows iid d) = filter (\<lambda>x. x \<noteq> iid) (item_ids d)"
  by (simp add: item_ids_def delete_item_rows_def filter_map comp_def)

lemma tables_ok_delete:
  assumes "tables_ok d"
  shows "tables_ok (delete_item_rows iid d)"
proof -
  note ok = tables_okD [OF assms]
  let ?d = "delete_item_rows iid d"
  have sz: "sizes_of x (db_atts ?d) = sizes_of x (db_atts d)" if "x \<noteq> iid" for x
    using that by (auto simp: sizes_of_def delete_item_rows_def intro!: arg_cong [of _ _ sum_list] arg_cong [of _ _ "map at_size"] filter_cong)
  show ?thesis
    unfolding tables_ok_def
  proof (intro conjI)
    show "distinct (item_ids ?d)" using ok(1) by (simp add: item_ids_delete)
    show "distinct (map at_id (db_atts ?d))" "distinct (map at_storage (db_atts ?d))"
      "distinct (map fst (db_keys ?d))" "distinct (map snd (db_keys ?d))"
      using ok(2-5) by (simp_all add: delete_item_rows_def distinct_map_filter)
    show "at_item ` set (db_atts ?d) \<subseteq> set (item_ids ?d)" "snd ` set (db_keys ?d) \<subseteq> set (item_ids ?d)"
      using ok(6,7) by (auto simp: item_ids_delete) (auto simp: delete_item_rows_def)
    show "list_all (\<lambda>r. ir_total r = int (length (ir_text r)) + sizes_of (ir_id r) (db_atts ?d)) (db_items ?d)"
      using ok(8) sz by (auto simp: list_all_iff delete_item_rows_def)
  qed
qed

lemma tables_ok_expiry:
  assumes "tables_ok d"
  shows "tables_ok (set_expiry dbnow iid t d)"
proof -
  have "item_ids (set_expiry dbnow iid t d) = item_ids d"
    by (simp add: item_ids_def set_expiry_def)
  then show ?thesis
    using assms by (auto simp: tables_ok_def set_expiry_def list_all_iff)
qed

section \<open>Space in use\<close>

lemma used_bytes_later:
  assumes "list_all (\<lambda>r. 0 \<le> ir_total r) (db_items d)" and "t \<le> t'"
  shows "used_bytes t' d \<le> used_bytes t d"
  unfolding used_bytes_def
  using assms by (intro sum_list_filter_mono) (auto simp: list_all_iff)

lemma used_bytes_add:
  "used_bytes t (d\<lparr>db_items := db_items d @ [r]\<rparr>) =
     used_bytes t d + (if ir_expires r > t then ir_total r else 0)"
  by (simp add: used_bytes_def)

lemma used_bytes_delete:
  assumes "list_all (\<lambda>r. 0 \<le> ir_total r) (db_items d)"
  shows "used_bytes t (delete_item_rows iid d) \<le> used_bytes t d"
proof -
  have "used_bytes t (delete_item_rows iid d) =
        (\<Sum>r\<leftarrow>filter (\<lambda>r. ir_expires r > t \<and> ir_id r \<noteq> iid) (db_items d). ir_total r)"
    by (simp add: used_bytes_def delete_item_rows_def conj_commute)
  also have "\<dots> \<le> used_bytes t d"
    unfolding used_bytes_def using assms by (intro sum_list_filter_mono) (auto simp: list_all_iff)
  finally show ?thesis .
qed

lemma used_bytes_expiry:
  assumes "list_all (\<lambda>r. 0 \<le> ir_total r) (db_items d)"
  shows "used_bytes dbnow (set_expiry dbnow iid t d) \<le> used_bytes dbnow d"
proof -
  have "used_bytes dbnow (d\<lparr>db_items := map (\<lambda>r. if ir_id r = iid \<and> ir_expires r > dbnow
            then r\<lparr>ir_expires := db_time t\<rparr> else r) rs\<rparr>) \<le> used_bytes dbnow (d\<lparr>db_items := rs\<rparr>)"
    if "list_all (\<lambda>r. 0 \<le> ir_total r) rs" for rs
    using that by (induction rs) (auto simp: used_bytes_def)
  from this [OF assms] show ?thesis by (simp add: set_expiry_def)
qed

end
