(* ===== verification/Drop_Invariant.thy ===== *)
theory Drop_Invariant
  imports Drop_Rows
begin

text \<open>
  What the Drop store guarantees: every operation keeps the tables, their constraints and the
  \<open>blobs\<close> directory consistent; a failed \<open>Create\<close> or \<open>Delete\<close> changes nothing a reader
  can see; a retry with the same idempotency key returns the stored item; the bytes of active
  items never exceed the quota; what was uploaded is what is downloaded.

  The random identifiers are assumed fresh (128 random bits) and, where the files matter, the
  undo steps after a failure to succeed and the outcome of a commit to be known.
\<close>

section \<open>Hypotheses on the environment\<close>

definition fresh_ids :: "(nat \<Rightarrow> string) \<Rightarrow> store \<Rightarrow> bool" where
  "fresh_ids rid st \<longleftrightarrow>
     inj rid \<and> (\<forall>k. ''blob-'' @ rid k \<notin> at_storage ` set (db_atts (st_db st)))"

definition uploads_ok :: "(string \<Rightarrow> string) \<Rightarrow> store \<Rightarrow> create_input \<Rightarrow> bool" where
  "uploads_ok sha st inp \<longleftrightarrow>
     list_all (upload_ok sha (st_files st)) (ci_attachments inp) \<and>
     distinct (map pa_path (ci_attachments inp))"

definition calm_create :: "create_faults \<Rightarrow> bool" where
  "calm_create f \<longleftrightarrow> cf_remove f = (\<lambda>_. False) \<and> cf_commit f \<noteq> Commit_unknown"

definition calm_delete :: "delete_faults \<Rightarrow> bool" where
  "calm_delete f \<longleftrightarrow> df_restore f = (\<lambda>_. False) \<and> df_commit f \<noteq> Commit_unknown"

text \<open>Text lengths and quotas fit 64-bit integers; the configuration rejects other quotas.\<close>

definition sizes_fit :: "store \<Rightarrow> create_input \<Rightarrow> bool" where
  "sizes_fit st inp \<longleftrightarrow> 0 < st_quota st \<and> st_quota st < 2 ^ 63 \<and> int (length (ci_text inp)) < 2 ^ 63"

section \<open>The cases of \<open>Create\<close>\<close>

definition valid_input :: "create_input \<Rightarrow> bool" where
  "valid_input inp \<longleftrightarrow> ci_creator inp \<noteq> [] \<and> ci_actor inp \<noteq> [] \<and> 0 < ci_ttl inp \<and>
     (ci_text inp \<noteq> [] \<or> ci_attachments inp \<noteq> []) \<and>
     (length (ci_key inp) = 0 \<or> length (ci_key inp) = 32)"

definition existing_item :: "db \<Rightarrow> string \<Rightarrow> string option" where
  "existing_item d key = (if length key = 32 then map_of (db_keys d) key else None)"

lemma invalid_input:
  "(ci_creator inp = [] \<or> ci_actor inp = [] \<or> ci_ttl inp \<le> 0 \<or>
    (ci_text inp = [] \<and> ci_attachments inp = []) \<or>
    (length (ci_key inp) \<noteq> 0 \<and> length (ci_key inp) \<noteq> 32)) = (\<not> valid_input inp)"
  by (simp only: valid_input_def de_Morgan_conj de_Morgan_disj not_not not_less)

lemma create_eq:
  "create coll f now dbnow rid st inp =
     (if \<not> valid_input inp then (Inl Invalid_input, st)
      else case total_size (st_quota st) (int (length (ci_text inp))) (ci_attachments inp) of
        Inl e \<Rightarrow> (Inl e, st)
      | Inr tot \<Rightarrow>
          if cf_begin f \<or> cf_lock f then (Inl Internal, st)
          else if length (ci_key inp) = 32 \<and> cf_lookup f then (Inl Internal, st)
          else case existing_item (st_db st) (ci_key inp) of
            Some existing \<Rightarrow> (get coll (cf_get f) dbnow st existing, st)
          | None \<Rightarrow>
              if cf_used f then (Inl Internal, st)
              else if tot > st_quota st \<or> used_bytes dbnow (st_db st) > wrap64 (st_quota st - tot)
              then (Inl Quota_exceeded, st)
              else create_new f now rid st inp tot)"
  unfolding create_def invalid_input existing_item_def ..

lemma create_cases:
  assumes "create coll f now dbnow rid st inp = (r, st')"
  obtains (refused) e where "r = Inl e" "st' = st"
  | (replay) existing where "existing_item (st_db st) (ci_key inp) = Some existing"
      "r = get coll (cf_get f) dbnow st existing" "st' = st"
  | (fresh) tot where "valid_input inp"
      "total_size (st_quota st) (int (length (ci_text inp))) (ci_attachments inp) = Inr tot"
      "existing_item (st_db st) (ci_key inp) = None"
      "tot \<le> st_quota st" "used_bytes dbnow (st_db st) \<le> wrap64 (st_quota st - tot)"
      "create_new f now rid st inp tot = (r, st')"
proof (cases "valid_input inp")
  case False
  with assms show ?thesis by (intro refused [of Invalid_input]) (simp_all add: create_eq)
next
  case valid: True
  show ?thesis
  proof (cases "total_size (st_quota st) (int (length (ci_text inp))) (ci_attachments inp)")
    case (Inl e)
    with assms valid show ?thesis by (intro refused [of e]) (simp_all add: create_eq)
  next
    case (Inr tot)
    show ?thesis
    proof (cases "cf_begin f \<or> cf_lock f \<or> length (ci_key inp) = 32 \<and> cf_lookup f")
      case True
      with assms valid Inr show ?thesis by (intro refused [of Internal]) (auto simp: create_eq split: if_split_asm)
    next
      case False
      show ?thesis
      proof (cases "existing_item (st_db st) (ci_key inp)")
        case (Some existing)
        with assms valid Inr False show ?thesis by (intro replay [of existing]) (auto simp: create_eq)
      next
        case None
        consider "cf_used f"
          | "\<not> cf_used f" "tot > st_quota st \<or> used_bytes dbnow (st_db st) > wrap64 (st_quota st - tot)"
          | "\<not> cf_used f" "tot \<le> st_quota st" "used_bytes dbnow (st_db st) \<le> wrap64 (st_quota st - tot)"
          by linarith
        then show ?thesis
        proof cases
          case 1
          with assms valid Inr False None show ?thesis
            by (intro refused [of Internal]) (auto simp: create_eq)
        next
          case 2
          with assms valid Inr False None show ?thesis
            by (intro refused [of Quota_exceeded]) (auto simp: create_eq)
        next
          case 3
          with assms valid Inr False None show ?thesis
            by (intro fresh [OF valid Inr None]) (auto simp: create_eq)
        qed
      qed
    qed
  qed
qed

text \<open>The attachments of the item \<open>Create\<close> builds and the item itself.\<close>

definition created_item :: "(nat \<Rightarrow> string) \<Rightarrow> instant \<Rightarrow> int \<Rightarrow> create_input \<Rightarrow> item" where
  "created_item rid now tot inp =
     (new_item rid now tot inp)\<lparr>it_attachments := new_attachments rid now (rid 0) 0 (ci_attachments inp)\<rparr>"

lemma created_item_simps [simp]:
  "it_id (created_item rid now tot inp) = rid 0"
  "it_text (created_item rid now tot inp) = ci_text inp"
  "it_total (created_item rid now tot inp) = tot"
  "it_attachments (created_item rid now tot inp) = new_attachments rid now (rid 0) 0 (ci_attachments inp)"
  by (simp_all add: created_item_def new_item_def)

definition same_view :: "store \<Rightarrow> store \<Rightarrow> bool" where
  "same_view st st' \<longleftrightarrow> st_db st' = st_db st \<and> st_quota st' = st_quota st \<and>
     (\<forall>nm. st_files st' (Blob nm) = st_files st (Blob nm))"

lemma same_view_refl [simp]: "same_view st st"
  by (simp add: same_view_def)

lemma same_view_ok: "same_view st st' \<Longrightarrow> store_ok sha st \<Longrightarrow> store_ok sha st'"
  by (simp add: same_view_def store_ok_def blobs_ok_def blob_ok_def [abs_def])

lemma moved_fresh:
  assumes "fresh_ids rid st" and "a \<in> set (new_attachments rid now iid n ps)"
  shows "at_storage a \<notin> at_storage ` set (db_atts (st_db st))"
proof -
  obtain k where "at_storage a = ''blob-'' @ rid k"
    using new_attachments_storage [OF assms(2)] by blast
  with assms(1) show ?thesis unfolding fresh_ids_def by metis
qed

text \<open>Undoing the moves brings the \<open>blobs\<close> directory back.\<close>

lemma undo_moves:
  assumes "blobs_ok sha st" "fresh_ids rid st"
    and "m = take k (new_attachments rid now iid n ps)"
    and "\<forall>nm. nm \<notin> at_storage ` set m \<longrightarrow> fs (Blob nm) = st_files st (Blob nm)"
  shows "same_view st (st\<lparr>st_files := cleanup_moved (\<lambda>_. False) 0 m fs\<rparr>)"
proof -
  have "cleanup_moved (\<lambda>_. False) 0 m fs (Blob nm) = st_files st (Blob nm)" for nm
  proof (cases "nm \<in> at_storage ` set m")
    case True
    then obtain a where a: "a \<in> set m" "nm = at_storage a" by blast
    have "a \<in> set (new_attachments rid now iid n ps)"
      using a(1) unfolding assms(3) by (rule in_set_takeD)
    from moved_fresh [OF assms(2) this] have "nm \<notin> at_storage ` set (db_atts (st_db st))"
      unfolding a(2) .
    then have "st_files st (Blob nm) = None" using assms(1) unfolding blobs_ok_def by blast
    with True show ?thesis by (auto simp: cleanup_moved_spec)
  next
    case False
    with assms(4) show ?thesis by (auto simp: cleanup_moved_spec)
  qed
  then show ?thesis by (simp add: same_view_def)
qed

lemma create_new_eq:
  assumes "move_uploads (cf_rename f) rid now (rid 0) 0 (ci_attachments inp) [] (st_files st) = (m, fs, ok)"
    and "st0 = st\<lparr>st_files := cleanup_moved (cf_remove f) 0 m fs\<rparr>"
    and "i = (new_item rid now tot inp)\<lparr>it_attachments := m\<rparr>"
  shows "create_new f now rid st inp tot =
     (if \<not> ok then (Inl Internal, st0)
      else case write_rows f i (ci_key inp) (st_db st) of
        None \<Rightarrow> (Inl Internal, st0)
      | Some d \<Rightarrow>
          (case cf_commit f of
             Committed \<Rightarrow> (Inr i, st\<lparr>st_db := d, st_files := fs\<rparr>)
           | Aborted \<Rightarrow> (Inl Internal, st0)
           | Commit_unknown \<Rightarrow> (Inl Internal, st0\<lparr>st_db := d\<rparr>)))"
proof -
  have id: "it_id (new_item rid now tot inp) = rid 0" by (simp add: new_item_def)
  show ?thesis
    unfolding create_new_def Let_def id assms(1) prod.case assms(2,3)
    by (simp split: option.split commit_outcome.split)
qed

lemma create_new_cases:
  assumes "create_new f now rid st inp tot = (r, st')"
    and "store_ok sha st" "fresh_ids rid st" "uploads_ok sha st inp" "calm_create f"
  obtains (failed) "r = Inl Internal" "same_view st st'"
  | (made) d where "r = Inr (created_item rid now tot inp)"
      "write_rows f (created_item rid now tot inp) (ci_key inp) (st_db st) = Some d"
      "st_db st' = d" "st_quota st' = st_quota st"
      "\<forall>a \<in> set (it_attachments (created_item rid now tot inp)). blob_ok sha (st_files st') a"
      "\<forall>nm. nm \<notin> at_storage ` set (it_attachments (created_item rid now tot inp)) \<longrightarrow>
             st_files st' (Blob nm) = st_files st (Blob nm)"
      "list_all2 (\<lambda>p a. st_files st' (Blob (at_storage a)) = st_files st (Temp (pa_path p)))
         (ci_attachments inp) (it_attachments (created_item rid now tot inp))"
proof -
  obtain m fs ok where mv:
    "move_uploads (cf_rename f) rid now (rid 0) 0 (ci_attachments inp) [] (st_files st) = (m, fs, ok)"
    by (rule prod_cases3)
  define st0 where "st0 = st\<lparr>st_files := cleanup_moved (cf_remove f) 0 m fs\<rparr>"
  define i where "i = (new_item rid now tot inp)\<lparr>it_attachments := m\<rparr>"
  have up: "list_all (upload_ok sha (st_files st)) (ci_attachments inp)"
    "distinct (map pa_path (ci_attachments inp))" and inj: "inj rid"
    using assms(3,4) unfolding uploads_ok_def fresh_ids_def by blast+
  have sp: "\<forall>a \<in> set m. blob_ok sha fs a"
    "\<forall>nm. nm \<notin> at_storage ` set m \<longrightarrow> fs (Blob nm) = st_files st (Blob nm)"
    "\<exists>k. m = take k (new_attachments rid now (rid 0) 0 (ci_attachments inp))"
    "ok \<longrightarrow> m = new_attachments rid now (rid 0) 0 (ci_attachments inp)"
    using move_uploads_spec [OF mv up inj] by blast+
  obtain k where "m = take k (new_attachments rid now (rid 0) 0 (ci_attachments inp))"
    using sp(3) by blast
  moreover have "cf_remove f = (\<lambda>_. False)" using assms(5) unfolding calm_create_def by blast
  ultimately have view: "same_view st st0"
    using undo_moves [of sha st rid m k now "rid 0" 0 "ci_attachments inp" fs] assms(2,3) sp(2)
    unfolding st0_def store_ok_def by metis
  note eq = create_new_eq [OF mv st0_def i_def]
  show ?thesis
  proof (cases "ok \<and> write_rows f i (ci_key inp) (st_db st) \<noteq> None \<and> cf_commit f = Committed")
    case True
    then obtain d where d: "write_rows f i (ci_key inp) (st_db st) = Some d" by blast
    have m: "m = new_attachments rid now (rid 0) 0 (ci_attachments inp)" using True sp(4) by blast
    have i: "i = created_item rid now tot inp" unfolding i_def m created_item_def ..
    have atts: "it_attachments (created_item rid now tot inp) = m" unfolding m by simp
    have r: "r = Inr i" "st' = st\<lparr>st_db := d, st_files := fs\<rparr>" using assms(1) eq d True by simp_all
    have "st_db st' = d" "st_quota st' = st_quota st" "st_files st' = fs" using r(2) by simp_all
    moreover have "list_all2 (\<lambda>p a. fs (Blob (at_storage a)) = st_files st (Temp (pa_path p)))
        (ci_attachments inp) m"
      using move_uploads_content [OF _ up(2) inj, of "cf_rename f" now "rid 0" 0 "st_files st" m fs] mv True
      by simp
    ultimately show ?thesis using d r(1) sp(1,2)
      unfolding i by (intro made [of d]) (simp_all only: atts)
  next
    case False
    then have "r = Inl Internal" "st' = st0"
      using assms(1,5) eq unfolding calm_create_def
      by (auto split: if_splits option.splits commit_outcome.splits)
    with view show ?thesis by (intro failed) simp_all
  qed
qed

section \<open>Deleting\<close>

lemma remove_staged_view:
  assumes "\<forall>x \<in> set staged. \<exists>nm \<in> set names. \<exists>k \<ge> n. x = (Blob nm, Temp (''delete-'' @ rid k))"
  shows "remove_staged g j staged fs (Blob b) = fs (Blob b)"
  using assms by (intro remove_staged_blob) blast

lemma delete_item_cases:
  assumes "delete_item f rid st iid = (r, st')" and "inj rid" and "calm_delete f"
  obtains (failed) "r = Inl Internal" "same_view st st'"
  | (missing) "r = Inl Not_found" "st' = st" "iid \<notin> set (item_ids (st_db st))"
  | (gone) "r = Inr ()" "iid \<in> set (item_ids (st_db st))" "st_db st' = delete_item_rows iid (st_db st)"
      "st_quota st' = st_quota st"
      "\<forall>nm. st_files st' (Blob nm) =
         (if nm \<in> at_storage ` {a \<in> set (db_atts (st_db st)). at_item a = iid} then None
          else st_files st (Blob nm))"
proof -
  define names where "names = map at_storage (filter (\<lambda>a. at_item a = iid) (db_atts (st_db st)))"
  have names: "set names = at_storage ` {a \<in> set (db_atts (st_db st)). at_item a = iid}"
    by (auto simp: names_def)
  obtain staged fs ok where sf: "stage_files (df_rename f) rid 0 names [] (st_files st) = (staged, fs, ok)"
    by (rule prod_cases3)
  note blobs = stage_files_blobs [OF sf]
  have restored: "same_view st (st\<lparr>st_files := restore_files (df_restore f) 0 (rev staged) fs\<rparr>)"
    using stage_files_restore [OF sf assms(2)] assms(3) by (simp add: same_view_def calm_delete_def)
  have eq: "delete_item f rid st iid =
     (if df_begin f \<or> df_query f \<or> df_exec f then (Inl Internal, st)
      else if iid \<notin> set (item_ids (st_db st)) then (Inl Not_found, st)
      else if \<not> ok then (Inl Internal, st\<lparr>st_files := restore_files (df_restore f) 0 (rev staged) fs\<rparr>)
      else case df_commit f of
        Committed \<Rightarrow> (Inr (), st\<lparr>st_db := delete_item_rows iid (st_db st),
                                  st_files := remove_staged (df_remove f) 0 staged fs\<rparr>)
      | Aborted \<Rightarrow> (Inl Internal, st\<lparr>st_files := restore_files (df_restore f) 0 (rev staged) fs\<rparr>)
      | Commit_unknown \<Rightarrow> (Inl Internal, st\<lparr>st_db := delete_item_rows iid (st_db st),
                                  st_files := restore_files (df_restore f) 0 (rev staged) fs\<rparr>))"
    unfolding delete_item_def Let_def names_def [symmetric] sf prod.case ..
  consider "df_begin f \<or> df_query f \<or> df_exec f"
    | "\<not> (df_begin f \<or> df_query f \<or> df_exec f)" "iid \<notin> set (item_ids (st_db st))"
    | "\<not> (df_begin f \<or> df_query f \<or> df_exec f)" "iid \<in> set (item_ids (st_db st))" "\<not> (ok \<and> df_commit f = Committed)"
    | "\<not> (df_begin f \<or> df_query f \<or> df_exec f)" "iid \<in> set (item_ids (st_db st))" ok "df_commit f = Committed"
    by blast
  then show ?thesis
  proof cases
    case 1
    with assms(1) show ?thesis by (intro failed) (simp_all add: eq)
  next
    case 2
    with assms(1) show ?thesis by (intro missing) (simp_all add: eq)
  next
    case 3
    then have "(r, st') = (Inl Internal, st\<lparr>st_files := restore_files (df_restore f) 0 (rev staged) fs\<rparr>)"
      using assms(1,3) eq by (auto simp: calm_delete_def split: commit_outcome.split_asm if_split_asm)
    with restored show ?thesis by (intro failed) simp_all
  next
    case 4
    have "(r, st') = (Inr (), st\<lparr>st_db := delete_item_rows iid (st_db st),
                                  st_files := remove_staged (df_remove f) 0 staged fs\<rparr>)"
      using 4 assms(1) eq by simp
    moreover have "remove_staged (df_remove f) 0 staged fs (Blob nm) = fs (Blob nm)" for nm
      using remove_staged_view [of staged names 0 rid] blobs by blast
    moreover have "fs (Blob nm) = (if nm \<in> set names then None else st_files st (Blob nm))" for nm
      using blobs 4(3) by simp
    ultimately show ?thesis using 4(2) by (intro gone) (simp_all add: names)
  qed
qed

lemma delete_item_ok:
  assumes "delete_item f rid st iid = (r, st')" and "inj rid" "calm_delete f" and "store_ok sha st"
  shows "store_ok sha st'"
  using assms(1-3)
proof (cases rule: delete_item_cases)
  case failed
  with assms(4) show ?thesis by (metis same_view_ok)
next
  case missing
  with assms(4) show ?thesis by simp
next
  case gone
  have ok: "tables_ok (st_db st)" "blobs_ok sha st" using assms(4) by (simp_all add: store_ok_def)
  let ?old = "at_storage ` {a \<in> set (db_atts (st_db st)). at_item a = iid}"
  have rest: "db_atts (st_db st') = filter (\<lambda>a. at_item a \<noteq> iid) (db_atts (st_db st))"
    by (simp add: gone(3) delete_item_rows_def)
  have keep: "at_storage a \<notin> ?old" if "a \<in> set (db_atts (st_db st'))" for a
  proof
    assume "at_storage a \<in> ?old"
    then obtain b where "b \<in> set (db_atts (st_db st))" "at_item b = iid" "at_storage a = at_storage b" by blast
    moreover have "a \<in> set (db_atts (st_db st))" "at_item a \<noteq> iid" using that rest by auto
    ultimately show False using distinct_map_inj [OF tables_okD(3) [OF ok(1)], of a b] by blast
  qed
  have "blob_ok sha (st_files st') a" if "a \<in> set (db_atts (st_db st'))" for a
  proof -
    have "a \<in> set (db_atts (st_db st))" using that rest by simp
    then have "blob_ok sha (st_files st) a" using ok(2) by (simp add: blobs_ok_def list_all_iff)
    then show ?thesis using keep [OF that] gone(5) by (simp add: blob_ok_def)
  qed
  moreover have "nm \<in> at_storage ` set (db_atts (st_db st'))" if "st_files st' (Blob nm) \<noteq> None" for nm
  proof -
    have nm: "nm \<notin> ?old" "st_files st (Blob nm) \<noteq> None" using that gone(5) by (auto split: if_splits)
    then obtain a where "a \<in> set (db_atts (st_db st))" "nm = at_storage a"
      using ok(2) unfolding blobs_ok_def by blast
    with nm(1) rest show ?thesis by auto
  qed
  ultimately have "blobs_ok sha st'" by (simp add: blobs_ok_def list_all_iff)
  then show ?thesis using tables_ok_delete [OF ok(1)] by (simp add: store_ok_def gone(3))
qed

section \<open>Creating\<close>

text \<open>New rows whose blobs are in place keep the correspondence of rows and blobs.\<close>

lemma blobs_ok_add:
  assumes "blobs_ok sha st" and "db_atts (st_db st') = db_atts (st_db st) @ map stored as"
    and "\<And>a b. a \<in> set as \<Longrightarrow> b \<in> set (db_atts (st_db st)) \<Longrightarrow> at_storage a \<noteq> at_storage b"
    and "\<forall>a \<in> set as. blob_ok sha (st_files st') a"
    and "\<forall>nm. nm \<notin> at_storage ` set as \<longrightarrow> st_files st' (Blob nm) = st_files st (Blob nm)"
  shows "blobs_ok sha st'"
proof -
  have "blob_ok sha (st_files st') b" if "b \<in> set (db_atts (st_db st))" for b
  proof -
    have "at_storage b \<notin> at_storage ` set as" using assms(3) that by (metis imageE)
    with assms(1,5) that show ?thesis by (simp add: blobs_ok_def list_all_iff blob_ok_def)
  qed
  moreover have "nm \<in> at_storage ` set (db_atts (st_db st'))" if "st_files st' (Blob nm) \<noteq> None" for nm
  proof (cases "nm \<in> at_storage ` set as")
    case True
    then show ?thesis by (simp add: assms(2) image_Un image_image)
  next
    case False
    with that assms(5) have "st_files st (Blob nm) \<noteq> None" by simp
    with assms(1) have "nm \<in> at_storage ` set (db_atts (st_db st))" unfolding blobs_ok_def by blast
    then show ?thesis by (simp add: assms(2) image_Un)
  qed
  ultimately show ?thesis
    using assms(4) by (auto simp: blobs_ok_def list_all_iff assms(2))
qed

lemma create_new_ok:
  assumes "create_new f now rid st inp tot = (r, st')"
    and "store_ok sha st" "fresh_ids rid st" "uploads_ok sha st inp" "calm_create f"
    and "tot = int (length (ci_text inp)) + (\<Sum>p\<leftarrow>ci_attachments inp. pa_size p)"
  shows "store_ok sha st'"
  using assms(1-5)
proof (cases rule: create_new_cases)
  case failed
  with assms(2) show ?thesis by (metis same_view_ok)
next
  case (made d)
  define i where "i = created_item rid now tot inp"
  note made = made [folded i_def]
  have ok: "tables_ok (st_db st)" "blobs_ok sha st" using assms(2) by (simp_all add: store_ok_def)
  have i: "it_id i = rid 0" "it_text i = ci_text inp" "it_total i = tot"
    and atts: "it_attachments i = new_attachments rid now (rid 0) 0 (ci_attachments inp)"
    by (simp_all add: i_def)
  have item: "at_item a = it_id i" if "a \<in> set (it_attachments i)" for a
    using that unfolding atts i(1) by (rule new_attachments_item)
  have "(\<Sum>p\<leftarrow>ci_attachments inp. pa_size p) = (\<Sum>a\<leftarrow>it_attachments i. at_size a)"
    unfolding atts by (simp add: new_attachments_size)
  then have tot: "it_total i = int (length (it_text i)) + (\<Sum>a\<leftarrow>it_attachments i. at_size a)"
    by (simp add: i assms(6))
  have "tables_ok d" by (rule tables_ok_add [OF ok(1) made(2) item tot])
  moreover have "blobs_ok sha st'"
  proof (rule blobs_ok_add [OF ok(2) _ _ made(5,6)])
    show "db_atts (st_db st') = db_atts (st_db st) @ map stored (it_attachments i)"
      using write_rows_spec [OF made(2) tables_okD(2,3) [OF ok(1)]] made(3) by simp
    show "at_storage a \<noteq> at_storage b" if "a \<in> set (it_attachments i)" "b \<in> set (db_atts (st_db st))" for a b
      using moved_fresh [OF assms(3) that(1) [unfolded atts]] that(2) by (metis image_eqI)
  qed
  ultimately show ?thesis by (simp add: store_ok_def made(3))
qed

lemma fresh_total:
  assumes "sizes_fit st inp"
    and "total_size (st_quota st) (int (length (ci_text inp))) (ci_attachments inp) = Inr tot"
  shows "tot = int (length (ci_text inp)) + (\<Sum>p\<leftarrow>ci_attachments inp. pa_size p)" "0 \<le> tot"
  using total_size_exact [OF assms(2)] assms(1) by (auto simp: sizes_fit_def)

lemma create_ok:
  assumes "create coll f now dbnow rid st inp = (r, st')"
    and "store_ok sha st" "fresh_ids rid st" "uploads_ok sha st inp" "calm_create f" "sizes_fit st inp"
  shows "store_ok sha st' \<and> (\<not> is_ok r \<longrightarrow> same_view st st')"
  using assms(1)
proof (cases rule: create_cases)
  case (refused e)
  with assms(2) show ?thesis by simp
next
  case (replay existing)
  with assms(2) show ?thesis by simp
next
  case (fresh tot)
  have "store_ok sha st'"
    using create_new_ok [OF fresh(6) assms(2-5)] fresh_total [OF assms(6) fresh(2)] by simp
  moreover have "\<not> is_ok r \<longrightarrow> same_view st st'"
    using fresh(6) assms(2-5) by (cases rule: create_new_cases) auto
  ultimately show ?thesis by blast
qed

lemma update_expiry_ok:
  assumes "update_expiry coll xf gf now dbnow st iid ttl = (r, st')" and "store_ok sha st"
  shows "store_ok sha st'"
proof -
  have "st' = st \<or> st' = st\<lparr>st_db := set_expiry dbnow iid (now + ttl) (st_db st)\<rparr>"
    using assms(1) by (auto simp: update_expiry_def Let_def split: if_split_asm)
  moreover have "db_atts (set_expiry dbnow iid t d) = db_atts d" for t d by (simp add: set_expiry_def)
  ultimately show ?thesis
    using assms(2) tables_ok_expiry by (auto simp: store_ok_def blobs_ok_def)
qed

lemma cleanup_loop_ok:
  assumes "cleanup_loop fs rids n ids del st = (k, ok, st')" and "store_ok sha st"
    and "\<And>j. calm_delete (fs j)" "\<And>j. inj (rids j)"
  shows "store_ok sha st'"
  using assms(1,2)
proof (induction ids arbitrary: n del st)
  case Nil
  then show ?case by simp
next
  case (Cons iid ids)
  obtain r st1 where d: "delete_item (fs n) (rids n) st iid = (r, st1)" by fastforce
  have "store_ok sha st1" by (rule delete_item_ok [OF d assms(4,3) Cons.prems(2)])
  with Cons.IH Cons.prems(1) d show ?case by (auto split: if_split_asm)
qed

end
