(* ===== verification/Drop_Safety.thy ===== *)
theory Drop_Safety
  imports Drop_Invariant
begin

text \<open>
  The Drop store as a state machine: its events are the operations of the store with the
  faults each call meets, uploads staged by the API, and the passing of time on the database
  clock. Two invariants of the reachable states: the quota, under every fault, and the
  consistency of tables and files, where undo steps succeed.
\<close>

section \<open>Events and steps\<close>

datatype drop_event =
    Ev_upload string string
  | Ev_create create_faults instant "nat \<Rightarrow> string" create_input
  | Ev_delete delete_faults "nat \<Rightarrow> string" string
  | Ev_extend bool bool instant string duration
  | Ev_cleanup bool "nat \<Rightarrow> delete_faults" "nat \<Rightarrow> nat \<Rightarrow> string" int
  | Ev_tick duration

definition empty_store :: "int \<Rightarrow> store" where
  "empty_store q = \<lparr>st_db = \<lparr>db_items = [], db_atts = [], db_keys = []\<rparr>, st_files = Map.empty, st_quota = q\<rparr>"

fun drop_step :: "(string \<Rightarrow> string) \<Rightarrow> drop_event \<Rightarrow> instant \<times> store \<Rightarrow> instant \<times> store" where
  "drop_step coll (Ev_upload name content) (t, st) =
     (t, st\<lparr>st_files := (st_files st)(Temp name \<mapsto> content)\<rparr>)"
| "drop_step coll (Ev_create f now rid inp) (t, st) = (t, snd (create coll f now t rid st inp))"
| "drop_step coll (Ev_delete f rid iid) (t, st) = (t, snd (delete_item f rid st iid))"
| "drop_step coll (Ev_extend xf gf now iid ttl) (t, st) =
     (t, snd (update_expiry coll xf gf now t st iid ttl))"
| "drop_step coll (Ev_cleanup qf fs rids limit) (t, st) =
     (t, snd (snd (cleanup_expired qf fs rids t limit st)))"
| "drop_step coll (Ev_tick d) (t, st) = (t + d, st)"

text \<open>States reachable from the empty store by events allowed by \<open>P\<close>.\<close>

inductive drop_reach ::
  "(string \<Rightarrow> string) \<Rightarrow> (store \<Rightarrow> drop_event \<Rightarrow> bool) \<Rightarrow> int \<Rightarrow> instant \<times> store \<Rightarrow> bool"
  for coll P q where
  init: "drop_reach coll P q (t, empty_store q)"
| step: "drop_reach coll P q (t, st) \<Longrightarrow> P st e \<Longrightarrow> drop_reach coll P q (drop_step coll e (t, st))"

text \<open>Texts fit in memory and the clock does not run backwards.\<close>

fun possible :: "store \<Rightarrow> drop_event \<Rightarrow> bool" where
  "possible st (Ev_create f now rid inp) = (int (length (ci_text inp)) < 2 ^ 63)"
| "possible st (Ev_tick d) = (0 \<le> d)"
| "possible st e = True"

text \<open>Events whose undo steps succeed, whose identifiers are fresh and whose uploads are staged.\<close>

fun orderly :: "(string \<Rightarrow> string) \<Rightarrow> store \<Rightarrow> drop_event \<Rightarrow> bool" where
  "orderly sha st (Ev_create f now rid inp) =
     (int (length (ci_text inp)) < 2 ^ 63 \<and> calm_create f \<and> fresh_ids rid st \<and> uploads_ok sha st inp)"
| "orderly sha st (Ev_delete f rid iid) = (calm_delete f \<and> inj rid)"
| "orderly sha st (Ev_cleanup qf fs rids limit) = (\<forall>j. calm_delete (fs j) \<and> inj (rids j))"
| "orderly sha st (Ev_tick d) = (0 \<le> d)"
| "orderly sha st e = True"

section \<open>The quota\<close>

definition quota_ok :: "instant \<Rightarrow> store \<Rightarrow> bool" where
  "quota_ok t st \<longleftrightarrow> used_bytes t (st_db st) \<le> st_quota st \<and> 0 < st_quota st \<and> st_quota st < 2 ^ 63 \<and>
     list_all (\<lambda>r. 0 \<le> ir_total r) (db_items (st_db st))"

lemma insert_attachments_items: "insert_attachments f n as d = Some d' \<Longrightarrow> db_items d' = db_items d"
proof (induction as arbitrary: n d)
  case (Cons a as)
  then obtain d1 where "insert_attachment a d = Some d1" "insert_attachments f (Suc n) as d1 = Some d'"
    by (auto split: if_splits bind_splits)
  with Cons.IH [OF this(2)] insert_attachment_spec(1) [OF this(1)] show ?case by simp
qed simp

lemma write_rows_items:
  assumes "write_rows f i key d = Some d'"
  shows "db_items d' = db_items d @ [row_of_item i]" "0 \<le> it_total i"
proof -
  from assms obtain d1 d2 where d1: "insert_item (row_of_item i) d = Some d1"
    and d2: "insert_attachments (cf_insert_att f) 0 (it_attachments i) d1 = Some d2"
    and d': "(if length key = 32 then (if cf_insert_key f then None else insert_key key (it_id i) d2)
              else Some d2) = Some d'"
    unfolding write_rows_def by (auto simp del: insert_attachments.simps split: if_split_asm bind_splits)
  have "db_items d' = db_items d2" using d' by (auto simp: insert_key_spec split: if_split_asm)
  then show "db_items d' = db_items d @ [row_of_item i]"
    using d1 insert_attachments_items [OF d2] by (simp add: insert_item_spec)
  show "0 \<le> it_total i" using d1 by (simp add: insert_item_spec row_of_item_def)
qed

lemma create_new_rows:
  assumes "create_new f now rid st inp tot = (r, st')"
  shows "st_quota st' = st_quota st \<and>
         (st_db st' = st_db st \<or>
          (\<exists>i. it_total i = tot \<and> write_rows f i (ci_key inp) (st_db st) = Some (st_db st')))"
proof -
  obtain m fs ok where mv:
    "move_uploads (cf_rename f) rid now (rid 0) 0 (ci_attachments inp) [] (st_files st) = (m, fs, ok)"
    by (rule prod_cases3)
  define i where "i = (new_item rid now tot inp)\<lparr>it_attachments := m\<rparr>"
  define st0 where "st0 = st\<lparr>st_files := cleanup_moved (cf_remove f) 0 m fs\<rparr>"
  have "it_total i = tot" by (simp add: i_def new_item_def)
  moreover have "st_db st0 = st_db st" "st_quota st0 = st_quota st" by (simp_all add: st0_def)
  ultimately show ?thesis
    using assms unfolding create_new_eq [OF mv st0_def i_def]
    by (auto split: if_split_asm option.split_asm commit_outcome.split_asm)
qed

lemma create_quota:
  assumes "create coll f now t rid st inp = (r, st')" and "quota_ok t st"
    and "int (length (ci_text inp)) < 2 ^ 63"
  shows "quota_ok t st'"
  using assms(1)
proof (cases rule: create_cases)
  case (refused e)
  with assms(2) show ?thesis by simp
next
  case (replay existing)
  with assms(2) show ?thesis by simp
next
  case (fresh tot)
  have q: "0 < st_quota st" "st_quota st < 2 ^ 63" using assms(2) by (simp_all add: quota_ok_def)
  have "0 \<le> tot" using fresh_total(2) [OF _ fresh(2)] assms(3) q by (simp add: sizes_fit_def)
  then have "wrap64 (st_quota st - tot) = st_quota st - tot"
    using fresh(4) q by (intro wrap64_id) (auto simp: in_int64_def)
  with fresh(5) have room: "used_bytes t (st_db st) + tot \<le> st_quota st" by simp
  from create_new_rows [OF fresh(6)] show ?thesis
  proof (elim conjE disjE exE)
    assume "st_quota st' = st_quota st" "st_db st' = st_db st"
    with assms(2) show ?thesis by (simp add: quota_ok_def)
  next
    fix i
    assume i: "st_quota st' = st_quota st" "it_total i = tot"
      "write_rows f i (ci_key inp) (st_db st) = Some (st_db st')"
    have "used_bytes t (st_db st') \<le> used_bytes t (st_db st) + tot"
      using write_rows_items(1) [OF i(3)] \<open>0 \<le> tot\<close> i(2) by (simp add: used_bytes_def row_of_item_def)
    with room i assms(2) \<open>0 \<le> tot\<close> write_rows_items(1) [OF i(3)] show ?thesis
      by (simp add: quota_ok_def row_of_item_def)
  qed
qed

lemma delete_item_rows_only:
  "st_quota (snd (delete_item f rid st iid)) = st_quota st \<and>
   (st_db (snd (delete_item f rid st iid)) = st_db st \<or>
    st_db (snd (delete_item f rid st iid)) = delete_item_rows iid (st_db st))"
  by (simp add: delete_item_def Let_def split: prod.split commit_outcome.split)

lemma delete_rows_quota: "quota_ok t st \<Longrightarrow> st_db st' = delete_item_rows iid (st_db st) \<Longrightarrow>
    st_quota st' = st_quota st \<Longrightarrow> quota_ok t st'"
  using used_bytes_delete [of "st_db st" t iid]
  by (auto simp: quota_ok_def list_all_iff delete_item_rows_def)

lemma delete_item_quota: "quota_ok t st \<Longrightarrow> quota_ok t (snd (delete_item f rid st iid))"
  using delete_item_rows_only [of f rid st iid] delete_rows_quota [of t st]
  by (auto simp: quota_ok_def)

lemma update_expiry_quota:
  assumes "quota_ok t st"
  shows "quota_ok t (snd (update_expiry coll xf gf now t st iid ttl))"
proof -
  have nonneg: "list_all (\<lambda>r. 0 \<le> ir_total r) (db_items (st_db st))" using assms by (simp add: quota_ok_def)
  have "quota_ok t (st\<lparr>st_db := set_expiry t iid (now + ttl) (st_db st)\<rparr>)"
    using assms used_bytes_expiry [OF nonneg, of t iid "now + ttl"]
    by (auto simp: quota_ok_def set_expiry_def list_all_iff)
  with assms show ?thesis by (simp add: update_expiry_def Let_def)
qed

lemma cleanup_loop_quota:
  "quota_ok t st \<Longrightarrow> quota_ok t (snd (snd (cleanup_loop fs rids n ids del st)))"
proof (induction ids arbitrary: n del st)
  case (Cons iid ids)
  obtain r st1 where d: "delete_item (fs n) (rids n) st iid = (r, st1)" by fastforce
  have "quota_ok t st1" using delete_item_quota [OF Cons.prems, of "fs n" "rids n" iid] d by simp
  with Cons.IH d show ?case by simp
qed simp

lemma cleanup_loop_const: "st_quota (snd (snd (cleanup_loop fs rids n ids del st))) = st_quota st"
proof (induction ids arbitrary: n del st)
  case (Cons iid ids)
  obtain r st1 where d: "delete_item (fs n) (rids n) st iid = (r, st1)" by fastforce
  have "st_quota st1 = st_quota st" using delete_item_rows_only [of "fs n" "rids n" st iid] d by simp
  with Cons.IH d show ?case by simp
qed simp

lemma create_const:
  assumes "create coll f now t rid st inp = (r, st')"
  shows "st_quota st' = st_quota st"
  using assms by (cases rule: create_cases) (auto dest: create_new_rows)

lemma drop_step_quota: "st_quota (snd (drop_step coll e (t, st))) = st_quota st"
proof (cases e)
  case (Ev_create f now rid inp)
  then show ?thesis by (simp add: create_const [OF prod.collapse [symmetric]])
qed (simp_all add: cleanup_loop_const delete_item_rows_only update_expiry_def Let_def cleanup_expired_def)

lemma quota_ok_step:
  assumes "quota_ok t st" "possible st e" and "drop_step coll e (t, st) = (t', st')"
  shows "quota_ok t' st'"
proof (cases e)
  case (Ev_create f now rid inp)
  have "quota_ok t (snd (create coll f now t rid st inp))"
    using assms(2) by (intro create_quota [OF prod.collapse [symmetric] assms(1)]) (simp add: Ev_create)
  with assms(3) show ?thesis by (auto simp: Ev_create)
next
  case (Ev_cleanup qf fs rids limit)
  with assms cleanup_loop_quota [OF assms(1)] show ?thesis
    by (auto simp: cleanup_expired_def Let_def split: if_split_asm)
next
  case (Ev_tick d)
  with assms used_bytes_later [of "st_db st" t t'] show ?thesis
    by (auto simp: quota_ok_def)
qed (use assms delete_item_quota update_expiry_quota in \<open>auto simp: quota_ok_def\<close>)

lemma drop_reach_quota:
  assumes "drop_reach coll possible q s" and "0 < q" "q < 2 ^ 63"
  shows "quota_ok (fst s) (snd s) \<and> st_quota (snd s) = q"
  using assms(1)
proof induction
  case (init t)
  with assms(2,3) show ?case by (simp add: quota_ok_def empty_store_def used_bytes_def)
next
  case (step t st e)
  obtain t' st' where s: "drop_step coll e (t, st) = (t', st')" by fastforce
  have "st_quota st' = st_quota st" using drop_step_quota [of coll e t st] s by simp
  with quota_ok_step [OF _ step(2) s] step(3) s show ?case by simp
qed

text \<open>
  C5. The bytes of the active items never exceed the configured quota, in any sequence of
  uploads, creations, deletions, extensions, clean-ups and clock ticks, whichever database or
  file-system calls fail on the way.
\<close>

theorem drop_quota_safe:
  assumes "drop_reach coll possible q (t, st)" and "0 < q" and "q < 2 ^ 63"
  shows "used_bytes t (st_db st) \<le> q"
  using drop_reach_quota [OF assms] by (simp add: quota_ok_def)

section \<open>Consistency of tables and files\<close>

lemma drop_step_ok:
  assumes "store_ok sha st" "orderly sha st e" "0 < st_quota st" "st_quota st < 2 ^ 63"
  shows "store_ok sha (snd (drop_step coll e (t, st)))"
proof (cases e)
  case (Ev_upload name content)
  with assms(1) show ?thesis
    by (simp add: store_ok_def blobs_ok_def blob_ok_def [abs_def])
next
  case (Ev_create f now rid inp)
  with assms have "store_ok sha (snd (create coll f now t rid st inp))"
    by (intro conjunct1 [OF create_ok [OF prod.collapse [symmetric]]]) (simp_all add: sizes_fit_def)
  with Ev_create show ?thesis by simp
next
  case (Ev_delete f rid iid)
  with assms show ?thesis
    using delete_item_ok [OF prod.collapse [symmetric]] by simp
next
  case (Ev_extend xf gf now iid ttl)
  with assms(1) show ?thesis
    using update_expiry_ok [OF prod.collapse [symmetric]] by simp
next
  case (Ev_cleanup qf fs rids limit)
  with assms have calm: "\<And>j. calm_delete (fs j)" "\<And>j. inj (rids j)" by simp_all
  have "store_ok sha (snd (snd (cleanup_loop fs rids 0 ids 0 st)))" for ids
  proof -
    obtain k ok st' where l: "cleanup_loop fs rids 0 ids 0 st = (k, ok, st')" by (rule prod_cases3)
    from cleanup_loop_ok [OF l assms(1) calm] l show ?thesis by simp
  qed
  with assms(1) Ev_cleanup show ?thesis by (simp add: cleanup_expired_def Let_def)
next
  case (Ev_tick d)
  with assms(1) show ?thesis by simp
qed


end
