(* ===== verification/Drop_Reads.thy ===== *)
theory Drop_Reads
  imports Drop_Invariant
begin

text \<open>
  What readers of the Drop store see: a created item and its bytes, a replayed creation, a
  deleted item, the remains of an ambiguous commit, the pages of the list, and what the
  clean-up leaves.
\<close>

section \<open>Looking up one item\<close>

lemma find_active_row:
  assumes "distinct (item_ids d)" and "r \<in> set (db_items d)" and "dbnow < ir_expires r"
  shows "find_active dbnow (ir_id r) d = Some r"
proof -
  have "List.find (\<lambda>x. ir_id x = ir_id r \<and> dbnow < ir_expires x) rs = Some r"
    if "distinct (map ir_id rs)" "r \<in> set rs" for rs
    using that
  proof (induction rs)
    case (Cons x rs)
    then show ?case using assms(3) by (cases "x = r") (auto simp: image_iff)
  qed simp
  with assms show ?thesis by (simp add: find_active_def item_ids_def)
qed

lemma find_active_None:
  "find_active dbnow iid d = None \<longleftrightarrow> (\<forall>r \<in> set (db_items d). ir_id r = iid \<longrightarrow> ir_expires r \<le> dbnow)"
  by (auto simp: find_active_def find_None_iff not_less)

lemma find_active_Some:
  "find_active dbnow iid d = Some r \<Longrightarrow> r \<in> set (db_items d) \<and> ir_id r = iid \<and> dbnow < ir_expires r"
  by (auto simp: find_active_def dest: find_Some_mem)

lemma get_Some:
  "find_active dbnow iid (st_db st) = Some r \<Longrightarrow>
     get coll False dbnow st iid = Inr ((item_of_row r)\<lparr>it_attachments :=
       filter (\<lambda>a. at_item a = iid) (sort_key (attachment_key coll) (db_atts (st_db st)))\<rparr>)"
  using find_active_Some by (fastforce simp: get_def load_attachments_def item_of_row_def)

lemma get_id: "get coll False dbnow st iid = Inr i \<Longrightarrow> it_id i = iid"
  using find_active_Some
  by (fastforce simp: get_def load_attachments_def item_of_row_def split: option.splits)

lemma find_attachment:
  assumes "distinct (map at_id as)" and "a \<in> set as" and "P a"
  shows "List.find (\<lambda>b. at_id b = at_id a \<and> P b) as = Some a"
  using assms by (induction as) (auto simp: image_iff)

lemma open_attachment_row:
  assumes "distinct (map at_id (db_atts (st_db st)))" and "a \<in> set (db_atts (st_db st))"
    and "find_active dbnow (at_item a) (st_db st) \<noteq> None"
    and "st_files st (Blob (at_storage a)) = Some content"
  shows "open_attachment False dbnow st (at_id a) = Inr (content, a)"
proof -
  have "List.find (\<lambda>b. at_id b = at_id a \<and> find_active dbnow (at_item b) (st_db st) \<noteq> None)
          (db_atts (st_db st)) = Some a"
    using find_attachment [OF assms(1,2), of "\<lambda>b. find_active dbnow (at_item b) (st_db st) \<noteq> None"] assms(3)
    by blast
  with assms(4) show ?thesis by (simp add: open_attachment_def)
qed

section \<open>Reading back what was created\<close>

text \<open>The state after a successful creation: the rows, and the bytes of every upload.\<close>

lemma created_state:
  assumes "create coll f now dbnow rid st inp = (Inr i, st')"
    and "store_ok sha st" "fresh_ids rid st" "uploads_ok sha st inp" "calm_create f" "sizes_fit st inp"
    and "existing_item (st_db st) (ci_key inp) = None"
  obtains tot where "i = created_item rid now tot inp" "store_ok sha st'"
    "st_db st' = \<lparr>db_items = db_items (st_db st) @ [row_of_item i],
                  db_atts = db_atts (st_db st) @ map stored (it_attachments i),
                  db_keys = db_keys (st_db st) @ (if length (ci_key inp) = 32 then [(ci_key inp, it_id i)] else [])\<rparr>"
    "list_all2 (\<lambda>p a. st_files st' (Blob (at_storage a)) = st_files st (Temp (pa_path p)))
       (ci_attachments inp) (it_attachments i)"
proof -
  have ok: "store_ok sha st'" using create_ok [OF assms(1-6)] by blast
  from assms(1) show thesis
  proof (cases rule: create_cases)
    case (refused e)
    then show ?thesis by simp
  next
    case (replay existing)
    with assms(7) show ?thesis by simp
  next
    case (fresh tot)
    from fresh(6) assms(2-5) show ?thesis
    proof (cases rule: create_new_cases)
      case failed
      then show ?thesis by simp
    next
      case (made d)
      have i: "i = created_item rid now tot inp" using made(1) by simp
      note made = made [folded i]
      have t: "tables_ok (st_db st)" using assms(2) by (simp add: store_ok_def)
      show ?thesis
        by (rule that [OF i ok _ made(7)])
          (use write_rows_spec [OF made(2) tables_okD(2,3) [OF t]] made(3) in simp)
    qed
  qed
qed

lemma created_active:
  assumes "tables_ok (st_db st')" and "row_of_item i \<in> set (db_items (st_db st'))"
    and "dbnow < db_time (it_expires i)"
  shows "find_active dbnow (it_id i) (st_db st') = Some (row_of_item i)"
  using find_active_row [OF tables_okD(1) [OF assms(1)] assms(2)] assms(3) by (simp add: row_of_item_def)

lemma created_upload:
  assumes "create coll f now dbnow rid st inp = (Inr i, st')"
    and "store_ok sha st" "fresh_ids rid st" "uploads_ok sha st inp" "calm_create f" "sizes_fit st inp"
    and "existing_item (st_db st) (ci_key inp) = None"
    and "dbnow' < db_time (now + ci_ttl inp)" and "n < length (ci_attachments inp)"
    and "st_files st (Temp (pa_path (ci_attachments inp ! n))) = Some content"
  shows "open_attachment False dbnow' st' (at_id (it_attachments i ! n)) = Inr (content, stored (it_attachments i ! n)) \<and>
         at_name (it_attachments i ! n) = pa_name (ci_attachments inp ! n) \<and>
         at_media (it_attachments i ! n) = pa_media (ci_attachments inp ! n) \<and>
         at_size (it_attachments i ! n) = int (length content)"
proof -
  obtain tot where i: "i = created_item rid now tot inp" and ok: "store_ok sha st'"
    and db: "st_db st' = \<lparr>db_items = db_items (st_db st) @ [row_of_item i],
                  db_atts = db_atts (st_db st) @ map stored (it_attachments i),
                  db_keys = db_keys (st_db st) @ (if length (ci_key inp) = 32 then [(ci_key inp, it_id i)] else [])\<rparr>"
    and bytes: "list_all2 (\<lambda>p a. st_files st' (Blob (at_storage a)) = st_files st (Temp (pa_path p)))
       (ci_attachments inp) (it_attachments i)"
    by (rule created_state [OF assms(1-7)])
  have t: "tables_ok (st_db st')" using ok by (simp add: store_ok_def)
  let ?a = "it_attachments i ! n"
  have len: "length (it_attachments i) = length (ci_attachments inp)" using i by simp
  have nth: "new_attachments rid now iid m ps ! k = new_attachment rid now iid (m + k) (ps ! k)"
    if "k < length ps" for iid m k ps
    using that
  proof (induction ps arbitrary: m k)
    case (Cons p ps)
    then show ?case by (cases k) simp_all
  qed simp
  have a: "?a = new_attachment rid now (rid 0) n (ci_attachments inp ! n)"
    using nth [OF assms(9)] i by simp
  have blob: "st_files st' (Blob (at_storage (stored ?a))) = Some content"
    using list_all2_nthD [OF bytes assms(9)] assms(10) by simp
  have "it_expires i = now + ci_ttl inp" by (simp add: i created_item_def new_item_def)
  then have "find_active dbnow' (it_id i) (st_db st') = Some (row_of_item i)"
    using assms(8) by (intro created_active [OF t]) (simp_all add: db)
  moreover have "at_item ?a = rid 0" unfolding a by (simp add: new_attachment_def)
  then have "at_item (stored ?a) = it_id i" by (simp only: stored_simps) (simp add: i)
  ultimately have act: "find_active dbnow' (at_item (stored ?a)) (st_db st') \<noteq> None" by simp
  have "stored ?a \<in> set (db_atts (st_db st'))" using assms(9) len by (simp add: db)
  from open_attachment_row [OF tables_okD(2) [OF t] this act blob]
  have "open_attachment False dbnow' st' (at_id ?a) = Inr (content, stored ?a)" by simp
  moreover have "pa_size (ci_attachments inp ! n) = int (length content)"
    using assms(4,9,10) by (auto simp: uploads_ok_def list_all_length upload_ok_def)
  ultimately show ?thesis unfolding a by (simp add: new_attachment_def)
qed


text \<open>
  C31. What was uploaded is what is downloaded: after a successful creation every attachment
  of the new item opens, until the item expires, with exactly the staged bytes, under the
  name, media type and size given.
\<close>

theorem create_download:
  assumes "store_ok sha st" "fresh_ids rid st" "uploads_ok sha st inp" "calm_create f" "sizes_fit st inp"
    and "existing_item (st_db st) (ci_key inp) = None"
    and "create coll f now dbnow rid st inp = (Inr i, st')"
    and "dbnow' < db_time (now + ci_ttl inp)" and "n < length (ci_attachments inp)"
    and "st_files st (Temp (pa_path (ci_attachments inp ! n))) = Some content"
  shows "\<exists>a. open_attachment False dbnow' st' (at_id (it_attachments i ! n)) = Inr (content, a) \<and>
             at_name a = pa_name (ci_attachments inp ! n) \<and>
             at_media a = pa_media (ci_attachments inp ! n) \<and> at_size a = int (length content)"
  using created_upload [OF assms(7,1-6,8-10)] by auto

section \<open>Replaying a creation\<close>

definition no_create_faults :: create_faults where
  "no_create_faults = \<lparr>cf_begin = False, cf_lock = False, cf_lookup = False, cf_get = False, cf_used = False,
     cf_rename = (\<lambda>_. False), cf_insert_item = False, cf_insert_att = (\<lambda>_. False), cf_insert_key = False,
     cf_commit = Committed, cf_remove = (\<lambda>_. False)\<rparr>"


section \<open>Deleted items\<close>

lemma find_active_deleted: "find_active t iid (delete_item_rows iid d) = None"
  by (auto simp: find_active_None delete_item_rows_def)

lemma find_active_other:
  "iid' \<noteq> iid \<Longrightarrow> find_active t iid' (delete_item_rows iid d) = find_active t iid' d"
proof -
  assume ne: "iid' \<noteq> iid"
  have "List.find (\<lambda>r. ir_id r = iid' \<and> t < ir_expires r) (filter (\<lambda>r. ir_id r \<noteq> iid) rs) =
        List.find (\<lambda>r. ir_id r = iid' \<and> t < ir_expires r) rs" for rs
    using ne by (induction rs) auto
  then show ?thesis by (simp add: find_active_def delete_item_rows_def)
qed

lemma get_other:
  assumes "iid' \<noteq> iid" "st_db st' = delete_item_rows iid (st_db st)"
  shows "get coll False t st' iid' = get coll False t st iid'"
proof -
  have "filter (\<lambda>a. at_item a = iid') (sort_key k (filter (\<lambda>a. at_item a \<noteq> iid) as)) =
        filter (\<lambda>a. at_item a = iid') (sort_key k as)" for k :: "attachment \<Rightarrow> row_key" and as
    using assms(1) by (simp add: filter_sort) (metis (mono_tags, lifting))
  then show ?thesis
    unfolding get_def assms(2) find_active_other [OF assms(1)]
    by (auto simp: load_attachments_def item_of_row_def delete_item_rows_def dest: find_active_Some
        split: option.splits)
qed


section \<open>Pages\<close>

text \<open>The active rows, newest first.\<close>

definition newest_first :: "(string \<Rightarrow> string) \<Rightarrow> instant \<Rightarrow> db \<Rightarrow> item_row list" where
  "newest_first coll t d = rev (sort_key (row_key_of coll) (filter (\<lambda>r. ir_expires r > t) (db_items d)))"

lemma set_newest_first: "set (newest_first coll t d) = {r \<in> set (db_items d). ir_expires r > t}"
  by (auto simp: newest_first_def)

lemma distinct_keys:
  assumes "inj coll" "distinct (item_ids d)"
  shows "distinct (map (row_key_of coll) (db_items d))"
proof -
  have "distinct (map (\<lambda>r. coll (ir_id r)) (db_items d))"
    using assms by (simp add: item_ids_def distinct_map inj_on_def)
  then show ?thesis by (auto simp: distinct_map inj_on_def row_key_of_def)
qed

lemma newest_first_after:
  assumes "distinct (map (row_key_of coll) (db_items d))"
    and "newest_first coll t d = xs @ r # ys"
  shows "filter (\<lambda>x. row_key_of coll x < row_key_of coll r) (newest_first coll t d) = ys"
proof -
  let ?k = "row_key_of coll"
  have "sorted_wrt (\<lambda>a b. b \<le> a) (map ?k (newest_first coll t d))"
    by (simp add: newest_first_def rev_map [symmetric] sorted_wrt_rev)
  then have ord: "\<forall>x \<in> set xs. ?k r \<le> ?k x" "\<forall>y \<in> set ys. ?k y \<le> ?k r"
    unfolding assms(2) by (auto simp: sorted_wrt_append)
  have "distinct (map ?k (newest_first coll t d))"
    using distinct_map_filter [OF assms(1)] by (simp add: newest_first_def rev_map distinct_map)
  then have "\<forall>y \<in> set ys. ?k y \<noteq> ?k r" unfolding assms(2) by (auto simp: image_iff)
  with ord have "filter (\<lambda>x. ?k x < ?k r) xs = []" "filter (\<lambda>x. ?k x < ?k r) ys = ys"
    by (auto simp: filter_empty_conv filter_id_conv not_less order_less_le)
  then show ?thesis by (simp add: assms(2))
qed

lemma list_rows_first:
  assumes "1 \<le> n" "n \<le> 100"
  shows "list_rows coll t d \<lparr>lo_limit = n, lo_before = zero_time, lo_before_id = b\<rparr> =
         take (nat n) (newest_first coll t d)"
  using assms by (simp add: list_rows_def newest_first_def)

lemma list_rows_next:
  assumes "1 \<le> n" "n \<le> 100" and "distinct (map (row_key_of coll) (db_items d))"
    and "newest_first coll t d = xs @ r # ys"
    and "ir_id r \<noteq> []" "ir_created r \<noteq> zero_time" "db_time (ir_created r) = ir_created r"
  shows "list_rows coll t d \<lparr>lo_limit = n, lo_before = ir_created r, lo_before_id = ir_id r\<rparr> =
         take (nat n) ys"
proof -
  let ?k = "row_key_of coll"
  have "rev (sort_key ?k (filter (\<lambda>x. ?k x < ?k r) (filter (\<lambda>r. ir_expires r > t) (db_items d)))) =
        filter (\<lambda>x. ?k x < ?k r) (newest_first coll t d)"
    by (simp only: newest_first_def filter_sort [symmetric] rev_filter)
  then have "rev (sort_key ?k (filter (\<lambda>x. ?k x < ?k r) (filter (\<lambda>r. ir_expires r > t) (db_items d)))) = ys"
    by (simp only: newest_first_after [OF assms(3,4)])
  moreover have "Row_key (ir_created r) (coll (ir_id r)) = ?k r" by (simp add: row_key_of_def)
  ultimately show ?thesis
    using assms(1,2,5-7) by (simp add: list_rows_def)
qed

text \<open>What a client reads that follows the cursors, page after page, up to \<open>fuel\<close> pages.\<close>

fun all_pages ::
  "(string \<Rightarrow> string) \<Rightarrow> instant \<Rightarrow> db \<Rightarrow> int \<Rightarrow> nat \<Rightarrow> list_options \<Rightarrow> item_row list" where
  "all_pages coll t d n 0 opts = []"
| "all_pages coll t d n (Suc fuel) opts =
     (let rows = list_rows coll t d opts in
      if int (length rows) = n
      then rows @ all_pages coll t d n fuel
             \<lparr>lo_limit = n, lo_before = ir_created (last rows), lo_before_id = ir_id (last rows)\<rparr>
      else rows)"

definition row_times_ok :: "db \<Rightarrow> bool" where
  "row_times_ok d \<longleftrightarrow> list_all (\<lambda>r. ir_id r \<noteq> [] \<and> ir_created r \<noteq> zero_time \<and>
     db_time (ir_created r) = ir_created r) (db_items d)"

lemma all_pages_rest:
  assumes "1 \<le> n" "n \<le> 100" and "distinct (map (row_key_of coll) (db_items d))" and "row_times_ok d"
    and "newest_first coll t d = xs @ ys" and "list_rows coll t d opts = take (nat n) ys"
    and "length ys < fuel * nat n"
  shows "all_pages coll t d n fuel opts = ys"
  using assms(5-7)
proof (induction fuel arbitrary: xs ys opts)
  case 0
  then show ?case by simp
next
  case (Suc fuel)
  let ?p = "take (nat n) ys"
  show ?case
  proof (cases "int (length ?p) = n")
    case False
    then have "length ys < nat n" using assms(1) by (auto simp: min_def split: if_splits)
    then show ?thesis using Suc.prems(2) False by simp
  next
    case True
    then have p: "?p \<noteq> []" and len: "nat n \<le> length ys" using assms(1) by (auto simp: min_def split: if_splits)
    let ?r = "last ?p"
    have ys: "ys = butlast ?p @ ?r # drop (nat n) ys"
      using append_butlast_last_id [OF p] append_take_drop_id [of "nat n" ys]
      by (metis append.assoc append_Cons append_Nil)
    then have split: "newest_first coll t d = (xs @ butlast ?p) @ ?r # drop (nat n) ys"
      using Suc.prems(1) by simp
    have "?r \<in> set (newest_first coll t d)" by (subst split) simp
    then have r: "ir_id ?r \<noteq> []" "ir_created ?r \<noteq> zero_time" "db_time (ir_created ?r) = ir_created ?r"
      using assms(4) by (auto simp: set_newest_first row_times_ok_def list_all_iff)
    note next_page = list_rows_next [OF assms(1-3) split r]
    have "newest_first coll t d = (xs @ ?p) @ drop (nat n) ys" using Suc.prems(1) by simp
    moreover have "length (drop (nat n) ys) < fuel * nat n" using Suc.prems(3) len by simp
    ultimately have "all_pages coll t d n fuel \<lparr>lo_limit = n, lo_before = ir_created ?r, lo_before_id = ir_id ?r\<rparr>
        = drop (nat n) ys"
      using next_page by (intro Suc.IH)
    then show ?thesis using Suc.prems(2) True by simp
  qed
qed

text \<open>
  C33. Following the cursors lists every active item exactly once, newest first, for every page
  size the API accepts.
\<close>

theorem pages_complete:
  assumes "inj coll" and "tables_ok d" and "row_times_ok d" and "1 \<le> n" "n \<le> 100"
    and "length (db_items d) < fuel * nat n"
  shows "all_pages coll t d n fuel \<lparr>lo_limit = n, lo_before = zero_time, lo_before_id = []\<rparr> =
           newest_first coll t d \<and>
         set (newest_first coll t d) = {r \<in> set (db_items d). ir_expires r > t} \<and>
         distinct (map ir_id (newest_first coll t d))"
proof (intro conjI)
  have "length (newest_first coll t d) < fuel * nat n"
    using le_less_trans [OF length_filter_le assms(6)] by (simp add: newest_first_def)
  then show "all_pages coll t d n fuel \<lparr>lo_limit = n, lo_before = zero_time, lo_before_id = []\<rparr> =
        newest_first coll t d"
    using assms(3-5) distinct_keys [OF assms(1) tables_okD(1) [OF assms(2)]]
    by (intro all_pages_rest [where xs = "[]"]) (simp_all add: list_rows_first)
  show "set (newest_first coll t d) = {r \<in> set (db_items d). ir_expires r > t}"
    by (rule set_newest_first)
  show "distinct (map ir_id (newest_first coll t d))"
    using distinct_map_filter [of ir_id "db_items d"] tables_okD(1) [OF assms(2)]
    by (simp add: newest_first_def item_ids_def distinct_map)
qed

section \<open>Cleaning up\<close>

definition no_delete_faults :: delete_faults where
  "no_delete_faults = \<lparr>df_begin = False, df_query = False, df_exec = False, df_rename = (\<lambda>_. False),
     df_commit = Committed, df_restore = (\<lambda>_. False), df_remove = (\<lambda>_. False)\<rparr>"

lemma stage_files_no_fault:
  "stage_files (\<lambda>_. False) rid n names staged fs = (s, fs', ok) \<Longrightarrow> ok"
proof (induction names arbitrary: n fs staged)
  case (Cons nm names)
  show ?case
  proof (cases "rename_file (Blob nm) (snd (stage_pair rid n nm)) fs")
    case None
    from Cons.prems show ?thesis unfolding stage_files_step None by (auto dest: Cons.IH)
  next
    case (Some fs1)
    from Cons.prems show ?thesis unfolding stage_files_step Some by (auto dest: Cons.IH)
  qed
qed simp

lemma delete_item_no_fault:
  assumes "iid \<in> set (item_ids (st_db st))"
  shows "\<exists>st'. delete_item no_delete_faults rid st iid = (Inr (), st') \<and> st_db st' = delete_item_rows iid (st_db st)"
proof -
  define names where "names = map at_storage (filter (\<lambda>a. at_item a = iid) (db_atts (st_db st)))"
  obtain staged fs ok where sf: "stage_files (\<lambda>_. False) rid 0 names [] (st_files st) = (staged, fs, ok)"
    by (rule prod_cases3)
  have ok using stage_files_no_fault [OF sf] .
  have f: "\<not> df_begin no_delete_faults" "\<not> df_query no_delete_faults" "\<not> df_exec no_delete_faults"
    "df_rename no_delete_faults = (\<lambda>_. False)" "df_commit no_delete_faults = Committed"
    by (simp_all add: no_delete_faults_def)
  show ?thesis
    unfolding delete_item_def Let_def names_def [symmetric] f(4) sf prod.case
    using assms \<open>ok\<close> f by simp
qed

lemma cleanup_loop_no_fault:
  assumes "distinct ids" "set ids \<subseteq> set (item_ids (st_db st))"
  shows "\<exists>st'. cleanup_loop (\<lambda>_. no_delete_faults) rids n ids k st = (k + int (length ids), True, st') \<and>
           db_items (st_db st') = filter (\<lambda>r. ir_id r \<notin> set ids) (db_items (st_db st))"
  using assms
proof (induction ids arbitrary: n k st)
  case Nil
  then show ?case by simp
next
  case (Cons iid ids)
  obtain st1 where d: "delete_item no_delete_faults (rids n) st iid = (Inr (), st1)"
    "st_db st1 = delete_item_rows iid (st_db st)"
    using delete_item_no_fault [of iid st "rids n"] Cons.prems(2) by auto
  have "set ids \<subseteq> set (item_ids (st_db st1))"
    using Cons.prems by (auto simp: d(2) item_ids_delete)
  with Cons.IH [of st1 "Suc n" "k + 1"] Cons.prems(1) obtain st' where
    "cleanup_loop (\<lambda>_. no_delete_faults) rids (Suc n) ids (k + 1) st1 = (k + 1 + int (length ids), True, st')"
    "db_items (st_db st') = filter (\<lambda>r. ir_id r \<notin> set ids) (db_items (st_db st1))"
    by auto
  then show ?case by (simp add: d delete_item_rows_def)
qed


section \<open>Ambiguous commits\<close>

text \<open>
  C38. When the connection drops after the commit took effect, \<open>Create\<close> reports an error and
  removes the blobs, but the rows stay: the item is listed and its attachments cannot be
  opened.
\<close>

theorem ambiguous_commit_loses_blobs:
  assumes "store_ok sha st" "fresh_ids rid st" "uploads_ok sha st inp"
    and "cf_commit f = Commit_unknown" "cf_remove f = (\<lambda>_. False)"
    and "create_new f now rid st inp tot = (Inl Internal, st')" and "st_db st' \<noteq> st_db st"
    and "t < db_time (now + ci_ttl inp)"
  shows "find_active t (rid 0) (st_db st') \<noteq> None \<and>
         (\<forall>a \<in> set (db_atts (st_db st')). at_item a = rid 0 \<longrightarrow> open_attachment False t st' (at_id a) = Inl Not_found)"
proof -
  obtain m fs ok where mv:
    "move_uploads (cf_rename f) rid now (rid 0) 0 (ci_attachments inp) [] (st_files st) = (m, fs, ok)"
    by (rule prod_cases3)
  define i where "i = (new_item rid now tot inp)\<lparr>it_attachments := m\<rparr>"
  define st0 where "st0 = st\<lparr>st_files := cleanup_moved (cf_remove f) 0 m fs\<rparr>"
  have id: "it_id i = rid 0" "it_expires i = now + ci_ttl inp" "it_attachments i = m"
    by (simp_all add: i_def new_item_def)
  have db0: "st_db st0 = st_db st" by (simp add: st0_def)
  obtain d where w: "write_rows f i (ci_key inp) (st_db st) = Some d" and st': "st' = st0\<lparr>st_db := d\<rparr>"
    using assms(4,6,7) db0 unfolding create_new_eq [OF mv st0_def i_def]
    by (auto split: if_split_asm option.split_asm)
  have t: "tables_ok (st_db st)" using assms(1) by (simp add: store_ok_def)
  note rows = write_rows_spec [OF w tables_okD(2,3) [OF t]]
  have "row_of_item i \<in> set (db_items (st_db st'))" using rows by (simp add: st')
  moreover have "ir_id (row_of_item i) = rid 0" "t < ir_expires (row_of_item i)"
    using assms(8) by (simp_all add: row_of_item_def id)
  ultimately have "find_active t (rid 0) (st_db st') \<noteq> None" unfolding find_active_None by fastforce
  moreover have "open_attachment False t st' (at_id a) = Inl Not_found"
    if a: "a \<in> set (db_atts (st_db st'))" "at_item a = rid 0" for a
  proof -
    have "distinct (map at_id (db_atts d))" using rows by blast
    then have dist: "distinct (map at_id (db_atts (st_db st')))" by (simp add: st')
    have "rid 0 \<notin> set (item_ids (st_db st))" using rows id(1) by simp
    then have "a \<notin> set (db_atts (st_db st))" using tables_okD(6) [OF t, of a] a(2) by metis
    then have "at_storage a \<in> at_storage ` set m" using a(1) rows by (auto simp: st' id(3))
    then have none: "st_files st' (Blob (at_storage a)) = None"
      by (auto simp: st' st0_def assms(5) cleanup_moved_spec)
    show ?thesis
    proof (cases "List.find (\<lambda>b. at_id b = at_id a \<and> find_active t (at_item b) (st_db st') \<noteq> None) (db_atts (st_db st'))")
      case (Some b)
      then have "b \<in> set (db_atts (st_db st'))" "at_id b = at_id a" by (auto dest: find_Some_mem)
      then have "b = a" using distinct_map_inj [OF dist _ a(1)] by blast
      with Some none show ?thesis by (simp add: open_attachment_def)
    qed (simp add: open_attachment_def)
  qed
  ultimately show ?thesis by blast
qed

end
