(* ===== verification/Drop_Examples.thy ===== *)
theory Drop_Examples
  imports Drop_Safety Drop_Reads
begin

text \<open>
  A concrete run of the Drop store: one item with a text and one attachment is created, read,
  replayed, deleted and cleaned up. The theorems of the store are applied to it.
\<close>

section \<open>The run\<close>

definition ex_rid :: "nat \<Rightarrow> string" where "ex_rid n = replicate (Suc n) CHR ''r''"

definition ex_sha :: "string \<Rightarrow> string" where "ex_sha s = replicate 32 CHR ''s''"

definition ex_pending :: pending where
  "ex_pending = \<lparr>pa_path = ''u'', pa_name = ''a.txt'', pa_media = ''text/plain'', pa_size = 3,
     pa_sha = replicate 32 CHR ''s''\<rparr>"

definition ex_input :: create_input where
  "ex_input = \<lparr>ci_text = ''hi'', ci_creator = ''h'', ci_actor = ''h'', ci_ttl = 5000,
     ci_key = replicate 32 CHR ''k'', ci_attachments = [ex_pending]\<rparr>"

definition ex_store :: store where
  "ex_store = (empty_store 1000)\<lparr>st_files := [Temp ''u'' \<mapsto> ''abc'']\<rparr>"

definition ex_item :: item where
  "ex_item = created_item ex_rid 2000 5 ex_input"

definition ex_stored :: store where
  "ex_stored = \<lparr>st_db = \<lparr>db_items = [row_of_item ex_item], db_atts = map stored (it_attachments ex_item),
       db_keys = [(replicate 32 CHR ''k'', ''r'')]\<rparr>,
     st_files = [Blob ''blob-rrr'' \<mapsto> ''abc''], st_quota = 1000\<rparr>"

lemma ex_rid_inj: "inj ex_rid"
  by (intro injI) (metis Suc_inject ex_rid_def length_replicate)

lemma ex_total: "total_size 1000 2 [ex_pending] = Inr 5"
  by (simp add: ex_pending_def wrap64_def)

lemma ex_text: "pg_text ''hi''" "pg_text ''h''" "pg_text ''a.txt''" "pg_text ''text/plain''"
  by (simp_all add: pg_text_def utf8_valid_def runes_Cons)

lemma ex_create: "create id no_create_faults 2000 2000 ex_rid ex_store ex_input = (Inr ex_item, ex_stored)"
  by (simp add: create_eq valid_input_def ex_input_def ex_store_def empty_store_def ex_total existing_item_def
      no_create_faults_def used_bytes_def wrap64_def create_new_def ex_text
      ex_pending_def new_item_def move_uploads_step new_attachment_def rename_file_def write_rows_def insert_item_def
      row_of_item_def item_ids_def db_time_def insert_attachment_def insert_key_def ex_stored_def ex_item_def
      created_item_def stored_def ex_rid_def eval_nat_numeral Let_def fun_upd_twist)

lemma ex_empty_ok: "store_ok sha (empty_store q)"
  by (simp add: store_ok_def tables_ok_def blobs_ok_def empty_store_def item_ids_def)

lemma ex_store_ok: "store_ok ex_sha ex_store"
  using ex_empty_ok [of ex_sha 1000]
  by (simp add: store_ok_def blobs_ok_def ex_store_def empty_store_def)

lemma ex_fresh: "fresh_ids ex_rid ex_store"
  by (simp add: fresh_ids_def ex_rid_inj ex_store_def empty_store_def)

lemma ex_uploads: "uploads_ok ex_sha ex_store ex_input"
  by (simp add: uploads_ok_def ex_input_def upload_ok_def ex_store_def ex_pending_def ex_sha_def)

lemma ex_calm: "calm_create no_create_faults" "calm_delete no_delete_faults"
  by (simp_all add: calm_create_def no_create_faults_def calm_delete_def no_delete_faults_def)

lemma ex_fit: "sizes_fit ex_store ex_input"
  by (simp add: sizes_fit_def ex_store_def empty_store_def ex_input_def)

lemma ex_no_key: "existing_item (st_db ex_store) (ci_key ex_input) = None"
  by (simp add: existing_item_def ex_store_def empty_store_def)

lemma ex_upload_step: "drop_step id (Ev_upload ''u'' ''abc'') (2000, empty_store 1000) = (2000, ex_store)"
  by (simp add: ex_store_def empty_store_def)

lemma ex_create_step:
  "drop_step id (Ev_create no_create_faults 2000 ex_rid ex_input) (2000, ex_store) = (2000, ex_stored)"
  by (simp add: ex_create)

lemma ex_reach:
  assumes "P (empty_store 1000) (Ev_upload ''u'' ''abc'')"
    and "P ex_store (Ev_create no_create_faults 2000 ex_rid ex_input)"
  shows "drop_reach id P 1000 (2000, ex_stored)"
proof -
  have "drop_reach id P 1000 (2000, ex_store)"
    using drop_reach.step [where e = "Ev_upload ''u'' ''abc''", OF drop_reach.init [of id P 1000 2000]] assms(1)
    unfolding ex_upload_step by blast
  then show ?thesis
    using drop_reach.step [where e = "Ev_create no_create_faults 2000 ex_rid ex_input"] assms(2) ex_create_step
    by metis
qed

section \<open>The theorems at the run\<close>

theorem drop_quota_safe_witness: "used_bytes 2000 (st_db ex_stored) \<le> 1000"
  by (rule drop_quota_safe [of id]) (simp_all add: ex_reach ex_input_def)



theorem create_download_witness:
  "\<exists>a. open_attachment False 3000 ex_stored (at_id (it_attachments ex_item ! 0)) = Inr (''abc'', a) \<and> at_name a = ''a.txt''"
proof -
  have "ci_attachments ex_input ! 0 = ex_pending" "length (ci_attachments ex_input) = 1" "ci_ttl ex_input = 5000"
    "st_files ex_store (Temp (pa_path ex_pending)) = Some ''abc''" "pa_name ex_pending = ''a.txt''"
    by (simp_all add: ex_input_def ex_store_def ex_pending_def)
  then show ?thesis
    using create_download [OF ex_store_ok ex_fresh ex_uploads ex_calm(1) ex_fit ex_no_key ex_create, of 3000 0 "''abc''"]
    by (auto simp: db_time_def)
qed


lemma ex_delete: "\<exists>st'. delete_item no_delete_faults ex_rid ex_stored ''r'' = (Inr (), st')"
  using delete_item_no_fault [of "''r''" ex_stored ex_rid]
  by (auto simp: ex_stored_def item_ids_def row_of_item_def ex_item_def ex_rid_def)

lemma ex_stored_ok: "store_ok ex_sha ex_stored"
  using create_ok [OF ex_create ex_store_ok ex_fresh ex_uploads ex_calm(1) ex_fit] by simp


theorem pages_complete_witness:
  "all_pages id 3000 (st_db ex_stored) 1 5 \<lparr>lo_limit = 1, lo_before = zero_time, lo_before_id = []\<rparr> =
     newest_first id 3000 (st_db ex_stored)"
proof -
  have "tables_ok (st_db ex_stored)" using ex_stored_ok by (simp add: store_ok_def)
  moreover have "row_times_ok (st_db ex_stored)"
    by (simp add: row_times_ok_def ex_stored_def row_of_item_def ex_item_def ex_rid_def zero_time_def
        created_item_def new_item_def db_time_def)
  moreover have "length (db_items (st_db ex_stored)) < 5 * nat 1" by (simp add: ex_stored_def)
  ultimately show ?thesis using pages_complete [of id "st_db ex_stored" 1 5 3000] by simp
qed


definition ex_unknown :: create_faults where
  "ex_unknown = no_create_faults\<lparr>cf_commit := Commit_unknown\<rparr>"

lemma ex_ambiguous:
  "\<exists>st'. create_new ex_unknown 2000 ex_rid ex_store ex_input 5 = (Inl Internal, st') \<and> st_db st' = st_db ex_stored"
  by (simp add: ex_input_def ex_store_def empty_store_def ex_unknown_def no_create_faults_def create_new_def ex_text
      ex_pending_def new_item_def move_uploads_step new_attachment_def rename_file_def write_rows_def insert_item_def
      row_of_item_def item_ids_def db_time_def insert_attachment_def insert_key_def ex_stored_def ex_item_def
      created_item_def stored_def ex_rid_def eval_nat_numeral Let_def)

theorem ambiguous_commit_loses_blobs_witness:
  "\<exists>st'. create_new ex_unknown 2000 ex_rid ex_store ex_input 5 = (Inl Internal, st') \<and>
         find_active 3000 ''r'' (st_db st') \<noteq> None \<and>
         open_attachment False 3000 st' ''rr'' = Inl Not_found"
proof -
  obtain st' where st': "create_new ex_unknown 2000 ex_rid ex_store ex_input 5 = (Inl Internal, st')"
    "st_db st' = st_db ex_stored" using ex_ambiguous by blast
  have "st_db st' \<noteq> st_db ex_store" by (simp add: st'(2) ex_stored_def ex_store_def empty_store_def)
  moreover have "cf_commit ex_unknown = Commit_unknown" "cf_remove ex_unknown = (\<lambda>_. False)"
    "3000 < db_time (2000 + ci_ttl ex_input)"
    by (simp_all add: ex_unknown_def no_create_faults_def ex_input_def db_time_def)
  moreover have "\<exists>a \<in> set (db_atts (st_db st')). at_id a = ''rr'' \<and> at_item a = ex_rid 0"
    by (simp add: st'(2) ex_stored_def ex_item_def ex_input_def new_attachment_def ex_rid_def)
  moreover have "ex_rid 0 = ''r''" by (simp add: ex_rid_def)
  ultimately show ?thesis
    using ambiguous_commit_loses_blobs [OF ex_store_ok ex_fresh ex_uploads, of ex_unknown 2000 5 st' 3000] st'(1)
    by metis
qed

end
