(* ===== verification/Drop_Names.thy ===== *)
theory Drop_Names
  imports Go_Encoding
begin

text \<open>
  The text a Drop client controls and the service puts into its tables and headers
  (\<open>services/drop/internal/httpapi/api.go\<close>): file names, media types and the
  \<open>Content-Disposition\<close> header.
\<close>

section \<open>File names\<close>

text \<open>\<open>unicode.IsControl\<close>: the two control blocks of Latin-1.\<close>

definition is_control :: "nat \<Rightarrow> bool" where
  "is_control r \<longleftrightarrow> r < 32 \<or> (127 \<le> r \<and> r < 160)"

definition mask_control :: "nat \<Rightarrow> nat" where
  "mask_control r = (if r = 0 \<or> is_control r then 95 else r)"

function shorten :: "string \<Rightarrow> string" where
  "shorten s = (if length s > 255 then shorten (take (length s - last_rune_width s) s) else s)"
  by pat_completeness auto
termination
proof (relation "measure length")
  fix s :: string
  assume "length s > 255"
  then have "s \<noteq> []" by auto
  from last_rune_width_pos [OF this] \<open>length s > 255\<close>
  show "(take (length s - last_rune_width s) s, s) \<in> measure length" by auto
qed simp

declare shorten.simps [simp del]

definition sanitize_filename :: "string \<Rightarrow> string" where
  "sanitize_filename v =
     (let base = path_base (replace_char (CHR 0x5C) CHR ''/'' v);
          masked = trim_space (map_runes mask_control base);
          named = (if masked = [] \<or> masked = ''.'' then ''file'' else masked)
      in shorten named)"

section \<open>Media types\<close>

definition octet_stream :: string where "octet_stream = ''application/octet-stream''"

text \<open>
  \<open>parse_media\<close> is \<open>mime.ParseMediaType\<close> without the parameters, \<open>uni\<close> the lower-casing of
  texts with bytes beyond ASCII.
\<close>

definition scriptable :: "string list" where
  "scriptable = [''text/html'', ''application/xhtml+xml'', ''image/svg+xml'', ''application/xml'', ''text/xml'']"

definition safe_media_type :: "(string \<Rightarrow> string) \<Rightarrow> (string \<Rightarrow> string option) \<Rightarrow> string \<Rightarrow> string" where
  "safe_media_type uni parse_media v =
     (case parse_media v of
        None \<Rightarrow> octet_stream
      | Some m \<Rightarrow>
          if m = [] then octet_stream
          else if to_lower uni m \<in> set scriptable then octet_stream
          else to_lower uni m)"

section \<open>The \<open>Content-Disposition\<close> header\<close>

definition mask_header_char :: "char \<Rightarrow> char" where
  "mask_header_char c =
     (if c = CHR 0x5C \<or> c = CHR 0x22 \<or> c = CHR 0x0D \<or> c = CHR 0x0A then CHR ''_'' else c)"

definition content_disposition :: "string \<Rightarrow> string \<Rightarrow> string" where
  "content_disposition kind filename =
     (let f = map mask_header_char filename in
      kind @ ''; filename='' @ [CHR 0x22] @ f @ [CHR 0x22] @ ''; filename*=UTF-8'' @ [CHR 0x27, CHR 0x27] @ path_escape f)"

section \<open>Properties\<close>

lemma shorten_spec: "length (shorten s) \<le> 255 \<and> (\<exists>k. shorten s = take k s) \<and> (s \<noteq> [] \<longrightarrow> shorten s \<noteq> [])"
proof (induction s rule: shorten.induct)
  case (1 s)
  show ?case
  proof (cases "length s > 255")
    case False
    then have "shorten s = s" by (subst shorten.simps) simp
    with False show ?thesis by (auto intro: exI [of _ "length s"])
  next
    case True
    let ?t = "take (length s - last_rune_width s) s"
    have w: "last_rune_width s \<le> 4" by (auto simp: last_rune_width_def Let_def min_def
          intro: order_trans [OF length_takeWhile_le])
    with True have ne: "?t \<noteq> []" by auto
    have eq: "shorten s = shorten ?t" using True by (subst shorten.simps) simp
    from 1 [OF True] ne obtain k where "length (shorten ?t) \<le> 255" "shorten ?t = take k ?t" "shorten ?t \<noteq> []"
      by blast
    with eq show ?thesis by (auto simp: take_take)
  qed
qed

lemma strip_codes_set: "set (strip_codes codes s) \<subseteq> set s"
proof (induction codes s rule: strip_codes.induct)
  case (2 codes c s)
  show ?case
  proof (cases "List.find (\<lambda>p. p \<noteq> [] \<and> has_prefix p (c # s)) codes")
    case (Some p)
    from 2 [OF Some] have "set (strip_codes codes (drop (length p - 1) s)) \<subseteq> set (drop (length p - 1) s)" .
    then have "set (strip_codes codes (drop (length p - 1) s)) \<subseteq> set s"
      by (rule order_trans) (rule set_drop_subset)
    with Some show ?thesis by auto
  qed simp
qed simp

lemma trim_space_set: "set (trim_space s) \<subseteq> set s"
  unfolding trim_space_def trim_right_space_def trim_left_space_def
  using strip_codes_set [of "map rev space_codes" "rev (strip_codes space_codes s)"]
    strip_codes_set [of space_codes s] by simp

text \<open>A byte of a UTF-8 text is the ASCII code point it encodes or at least 128.\<close>

lemma encode_rune_bytes: "c \<in> set (encode_rune r) \<Longrightarrow> (r < 128 \<and> c = char_of r) \<or> 128 \<le> byte c"
proof (cases "r < 128")
  case True
  moreover assume "c \<in> set (encode_rune r)"
  ultimately show ?thesis by (simp add: encode_rune_def)
next
  case False
  have mod: "128 \<le> byte (char_of (128 + n mod 64 :: nat))" for n
    by (subst byte_char_of) auto
  have two: "128 \<le> byte (char_of (192 + r div 64 :: nat))" if "r < 2048"
    using that by (subst byte_char_of) auto
  have three: "128 \<le> byte (char_of (224 + r div 4096 :: nat))" if "r < 65536"
    using that by (subst byte_char_of) auto
  have four: "128 \<le> byte (char_of (240 + r div 262144 :: nat))" if "r \<le> 1114111"
    using that by (subst byte_char_of) auto
  have err: "128 \<le> byte (char_of (239 :: nat))" "128 \<le> byte (char_of (191 :: nat))" "128 \<le> byte (char_of (189 :: nat))"
    by (simp_all add: byte_char_of)
  assume "c \<in> set (encode_rune r)"
  with False show ?thesis
    using mod two three four err unfolding encode_rune_def by (auto split: if_split_asm)
qed

definition plain_byte :: "char \<Rightarrow> bool" where
  "plain_byte c \<longleftrightarrow> 32 \<le> byte c \<and> byte c \<noteq> 127"

lemma map_runes_plain: "list_all plain_byte (map_runes mask_control s)"
proof -
  have "plain_byte c" if "c \<in> set (encode_rune (mask_control r))" for c r
  proof -
    from encode_rune_bytes [OF that] consider
      "mask_control r < 128" "c = char_of (mask_control r)" | "128 \<le> byte c" by blast
    then show ?thesis
    proof cases
      case 1
      have "32 \<le> mask_control r" "mask_control r \<noteq> 127"
        by (auto simp: mask_control_def is_control_def)
      with 1 show ?thesis by (simp add: plain_byte_def byte_char_of)
    next
      case 2
      then show ?thesis by (simp add: plain_byte_def)
    qed
  qed
  then show ?thesis by (auto simp: map_runes_def list_all_iff)
qed

text \<open>A byte string that decodes keeps its ASCII bytes: a code point below 128 is its own byte.\<close>

lemma decode_rune_ascii: "fst (decode_rune s) < 128 \<Longrightarrow> s \<noteq> [] \<Longrightarrow> fst (decode_rune s) = byte (hd s)"
  by (induction s rule: decode_rune.induct)
    (auto simp: Let_def in_range_def continuation_def not_le not_less split: if_split_asm list.split_asm)

lemma runes_ascii: "(r, w) \<in> set (runes s) \<Longrightarrow> r < 128 \<Longrightarrow> char_of r \<in> set s"
proof (induction s rule: runes.induct)
  case (1 s)
  show ?case
  proof (cases "s = []")
    case True
    with 1 show ?thesis by simp
  next
    case False
    with 1(2) consider "(r, w) = decode_rune s" | "(r, w) \<in> set (runes (drop (snd (decode_rune s)) s))"
      by (subst (asm) runes.simps) auto
    then show ?thesis
    proof cases
      case 1
      then have "fst (decode_rune s) = r" by (metis fst_conv)
      with decode_rune_ascii [of s] \<open>r < 128\<close> False have "r = byte (hd s)" by simp
      then show ?thesis using False by (simp add: char_of_char)
    next
      case 2
      from 1(1) [OF False this \<open>r < 128\<close>] show ?thesis by (rule in_set_dropD)
    qed
  qed
qed

lemma map_runes_char:
  assumes "c \<in> set (map_runes mask_control s)" and "byte c < 128" and "c \<noteq> CHR ''_''"
  shows "c \<in> set s"
proof -
  from assms(1) obtain r w where r: "(r, w) \<in> set (runes s)" "c \<in> set (encode_rune (mask_control r))"
    by (auto simp: map_runes_def)
  from encode_rune_bytes [OF r(2)] assms(2) have c: "mask_control r < 128" "c = char_of (mask_control r)" by auto
  have "(char_of (95 :: nat) :: char) = CHR ''_''" by (simp add: char_eq_byte byte_char_of)
  then have "mask_control r \<noteq> 95 \<or> r = 95" using c assms(3) by auto
  then have "mask_control r = r" by (auto simp: mask_control_def split: if_splits)
  with c have "r < 128" "c = char_of r" by simp_all
  with runes_ascii [OF r(1)] show ?thesis by simp
qed

lemma path_base_set: "c \<in> set (path_base p) \<Longrightarrow> c \<in> set p \<or> c = CHR ''/'' \<or> c = CHR ''.''"
  by (auto simp: path_base_def after_last_def trim_right_char_def Let_def dest!: set_takeWhileD set_dropWhileD
      split: if_split_asm)

lemma take_subset: "s = take k t \<Longrightarrow> set s \<subseteq> set t"
  by (simp add: set_take_subset)

lemma path_base_no_backslash: "CHR 0x5C \<notin> set (path_base (replace_char (CHR 0x5C) CHR ''/'' v))"
proof
  assume "CHR 0x5C \<in> set (path_base (replace_char (CHR 0x5C) CHR ''/'' v))"
  then have "CHR 0x5C \<in> set (replace_char (CHR 0x5C) CHR ''/'' v)"
    by (rule path_base_set [THEN disjE]) auto
  then show False by (auto simp: replace_char_def split: if_split_asm)
qed

text \<open>The name after masking, never empty.\<close>

definition usable_name :: "string \<Rightarrow> string" where
  "usable_name m = (if m = [] \<or> m = ''.'' then ''file'' else m)"

lemma usable_name_neq_Nil: "usable_name m \<noteq> []"
  by (simp add: usable_name_def)

lemma usable_name_plain: "list_all plain_byte (usable_name (trim_space (map_runes mask_control s)))"
proof -
  have "list_all plain_byte (trim_space (map_runes mask_control s))"
    using map_runes_plain [of s] trim_space_set [of "map_runes mask_control s"] by (auto simp only: list_all_iff)
  moreover have "list_all plain_byte ''file''" by (simp add: plain_byte_def)
  ultimately show ?thesis unfolding usable_name_def by (simp only: if_split) blast
qed

lemma usable_name_char:
  assumes "c \<in> set (usable_name (trim_space (map_runes mask_control s)))" "c = CHR 0x5C \<or> c = CHR ''/''"
  shows "c \<in> set s"
proof -
  define m where "m = trim_space (map_runes mask_control s)"
  have c: "c \<notin> set ''file''" "byte c < 128" "c \<noteq> CHR ''_''" using assms(2) by (elim disjE; simp)+
  have "usable_name m = ''file'' \<or> usable_name m = m" by (simp only: usable_name_def) metis
  then have "c \<in> set m" using assms(1) c(1) unfolding m_def [symmetric] by metis
  then have "c \<in> set (map_runes mask_control s)" using trim_space_set unfolding m_def by (rule rev_subsetD)
  then show ?thesis using c(2,3) by (rule map_runes_char)
qed

lemma sanitize_filename_bounds: "sanitize_filename v \<noteq> [] \<and> length (sanitize_filename v) \<le> 255"
proof -
  obtain m where "sanitize_filename v = shorten (usable_name m)"
    by (simp only: sanitize_filename_def Let_def usable_name_def)
  with shorten_spec [of "usable_name m"] usable_name_neq_Nil [of m] show ?thesis by simp
qed

text \<open>
  C38. A stored file name is safe to show and to put in a header: it is not empty, has at most
  255 bytes and no control byte, and it names no other directory, that is it holds no
  backslash, and no slash unless it is the single slash.
\<close>

theorem sanitize_filename_safe:
  "sanitize_filename v \<noteq> [] \<and> length (sanitize_filename v) \<le> 255 \<and>
   list_all plain_byte (sanitize_filename v) \<and> CHR 0x5C \<notin> set (sanitize_filename v) \<and>
   (CHR ''/'' \<in> set (sanitize_filename v) \<longrightarrow> path_base (replace_char (CHR 0x5C) CHR ''/'' v) = ''/'')"
proof -
  define base where "base = path_base (replace_char (CHR 0x5C) CHR ''/'' v)"
  define named where "named = usable_name (trim_space (map_runes mask_control base))"
  have eq: "sanitize_filename v = shorten named"
    by (simp only: sanitize_filename_def Let_def named_def usable_name_def base_def)
  obtain k where k: "length (shorten named) \<le> 255" "shorten named = take k named" "shorten named \<noteq> []"
    using shorten_spec [of named] usable_name_neq_Nil unfolding named_def by blast
  have part: "set (shorten named) \<subseteq> set named" by (rule take_subset [OF k(2)])
  have "list_all plain_byte named" unfolding named_def by (rule usable_name_plain)
  then have plain: "list_all plain_byte (shorten named)" using part by (auto simp only: list_all_iff)
  have from_base: "c \<in> set base" if "c \<in> set (shorten named)" "c = CHR 0x5C \<or> c = CHR ''/''" for c
    using usable_name_char [of c base] part that unfolding named_def by blast
  have "CHR 0x5C \<notin> set base" unfolding base_def by (rule path_base_no_backslash)
  then have no_bs: "CHR 0x5C \<notin> set (shorten named)" using from_base by blast
  have "base = ''/''" if "CHR ''/'' \<in> set (shorten named)"
    using from_base [OF that] path_base_slash unfolding base_def by blast
  then show ?thesis
    unfolding eq base_def [symmetric] using k(1,3) plain no_bs by blast
qed

text \<open>
  C39. The \<open>Content-Disposition\<close> header cannot be split or its quoted name closed by a stored
  file name: whatever the name, the header has no line break, and the quoted name contains
  neither a quote nor a backslash.
\<close>

theorem content_disposition_safe:
  "\<exists>f g. content_disposition kind name = kind @ ''; filename='' @ [CHR 0x22] @ f @ [CHR 0x22] @ ''; filename*=UTF-8'' @ [CHR 0x27, CHR 0x27] @ g \<and>
     length f = length name \<and> (\<forall>c \<in> set f. c \<noteq> CHR 0x22 \<and> c \<noteq> CHR 0x5C \<and> c \<noteq> CHR 0x0D \<and> c \<noteq> CHR 0x0A) \<and>
     (\<forall>c \<in> set g. path_unescaped c \<or> c = CHR ''%'' \<or> is_digit c \<or> is_upper c)"
proof -
  let ?f = "map mask_header_char name"
  have hex: "is_digit (hex_upper n) \<or> is_upper (hex_upper n)" if "n < 16" for n
    using that by (simp add: hex_upper_def char_class_defs byte_char_of)
  have "is_digit (hex_upper (byte c div 16)) \<or> is_upper (hex_upper (byte c div 16))"
    "is_digit (hex_upper (byte c mod 16)) \<or> is_upper (hex_upper (byte c mod 16))" for c
    by (intro hex byte_div pos_mod_bound; simp)+
  then have "\<forall>c \<in> set (path_escape s). path_unescaped c \<or> c = CHR ''%'' \<or> is_digit c \<or> is_upper c" for s
    unfolding path_escape_def by (induction s) auto
  then have "\<forall>c \<in> set (path_escape ?f). path_unescaped c \<or> c = CHR ''%'' \<or> is_digit c \<or> is_upper c" .
  moreover have "\<forall>c \<in> set ?f. c \<noteq> CHR 0x22 \<and> c \<noteq> CHR 0x5C \<and> c \<noteq> CHR 0x0D \<and> c \<noteq> CHR 0x0A"
    by (auto simp: mask_header_char_def)
  ultimately show ?thesis
    unfolding content_disposition_def Let_def
    by (intro exI [of _ ?f] exI [of _ "path_escape ?f"]) simp
qed

lemma safe_media_type_inert: "safe_media_type uni pm v \<notin> set scriptable"
  by (auto simp: safe_media_type_def octet_stream_def scriptable_def split: option.split)

section \<open>Instances\<close>

theorem sanitize_filename_safe_witness:
  "CHR ''/'' \<notin> set (sanitize_filename ''a/b.txt'') \<and> list_all plain_byte (sanitize_filename ''a/b.txt'')"
proof -
  have "path_base (replace_char (CHR 0x5C) CHR ''/'' ''a/b.txt'') \<noteq> ''/''"
    by (simp add: replace_char_def path_base_def after_last_def trim_right_char_def)
  with sanitize_filename_safe [of "''a/b.txt''"] show ?thesis by blast
qed

theorem content_disposition_safe_witness:
  "\<exists>f h. length f = 2 \<and> CHR 0x22 \<notin> set f \<and> CHR 0x0A \<notin> set f \<and>
     content_disposition ''inline'' [CHR 0x22, CHR 0x0A] = ''inline'' @ ''; filename='' @ [CHR 0x22] @ f @ [CHR 0x22] @ h"
proof -
  define n :: string where "n = [CHR 0x22, CHR 0x0A]"
  have len: "length n = 2" by (simp add: n_def)
  show ?thesis
    unfolding n_def [symmetric]
    using content_disposition_safe [of "''inline''" n]
    unfolding len
    by (elim exE conjE) (rule exI, rule exI, intro conjI, assumption, fast, fast, assumption)
qed

end
