(* ===== verification/Drop_Api.thy ===== *)
theory Drop_Api
  imports Identity Drop_Names Drop_Safety Drop_Reads
begin

text \<open>
  \<open>services/drop/internal/httpapi\<close>: the handlers of the Drop API over the store, the bearer
  token check in front of them and the hub that tells browsers about changes.

  A request arrives with its route matched (\<open>drop_route\<close>); a multipart body is the list of
  what the part reader yields. \<open>drop_lib\<close> holds the library functions the handlers call on
  values they do not inspect: SHA-256, content sniffing, the media-type parser, and the JSON
  text of a cursor. Text read from a part and sums of sizes stay below the sum of two limits
  of the configuration, far from 64 bits.
\<close>

record drop_lib =
  dl_sha :: "string \<Rightarrow> string"
  dl_sniff :: "string \<Rightarrow> string"
  dl_media :: "string \<Rightarrow> string option"
  dl_uni :: "string \<Rightarrow> string"
  dl_cursor :: "instant \<times> string \<Rightarrow> string"
  dl_cursor_parse :: "string \<Rightarrow> (instant \<times> string) option"

text \<open>A digest is an array of 32 bytes.\<close>

definition digest :: "drop_lib \<Rightarrow> string \<Rightarrow> string" where
  "digest lib s = take 32 (dl_sha lib s @ replicate 32 CHR 0x00)"

lemma length_digest [simp]: "length (digest lib s) = 32"
  by (simp add: digest_def)

record api_config =
  ac_max_item :: int
  ac_max_attachment :: int
  ac_max_attachments :: nat

definition default_config :: api_config where
  "default_config = \<lparr>ac_max_item = 2 ^ 30, ac_max_attachment = 500 * 2 ^ 20, ac_max_attachments = 10\<rparr>"

definition multipart_overhead :: int where "multipart_overhead = 32 * 2 ^ 20"

section \<open>Responses\<close>

record attachment_view =
  av_id :: string
  av_name :: string
  av_media :: string
  av_size :: int
  av_sha :: string
  av_url :: string

record item_view =
  iv_id :: string
  iv_text :: string
  iv_creator :: string
  iv_actor :: string
  iv_created :: instant
  iv_expires :: instant
  iv_total :: int
  iv_attachments :: "attachment_view list"

datatype drop_body =
    Drop_error string
  | Drop_health string
  | Drop_item item_view
  | Drop_items "item_view list" string
  | Drop_status stats
  | Drop_bytes string
  | Drop_web
  | Drop_stream

type_synonym drop_response = "drop_body response"

definition write_json :: "nat \<Rightarrow> drop_body \<Rightarrow> drop_response" where
  "write_json code v = \<lparr>status = code,
     headers = [(''Content-Type'', ''application/json''), (''Cache-Control'', ''no-store'')], body = Some v\<rparr>"

definition write_error :: "nat \<Rightarrow> string \<Rightarrow> drop_response" where
  "write_error code e = write_json code (Drop_error e)"

fun write_store_error :: "store_error \<Rightarrow> drop_response" where
  "write_store_error Not_found = write_error 404 ''not_found''"
| "write_store_error Invalid_input = write_error 400 ''invalid_request''"
| "write_store_error Quota_exceeded = write_error 507 ''storage_quota_exceeded''"
| "write_store_error Internal = write_error 500 ''internal_error''"

definition attachment_response :: "attachment \<Rightarrow> attachment_view" where
  "attachment_response a = \<lparr>av_id = at_id a, av_name = at_name a, av_media = at_media a, av_size = at_size a,
     av_sha = hex_encode (at_sha a), av_url = ''/v1/attachments/'' @ path_escape (at_id a)\<rparr>"

definition item_response :: "item \<Rightarrow> item_view" where
  "item_response i = \<lparr>iv_id = it_id i, iv_text = it_text i, iv_creator = it_creator i, iv_actor = it_actor i,
     iv_created = it_created i, iv_expires = it_expires i, iv_total = it_total i,
     iv_attachments = map attachment_response (it_attachments i)\<rparr>"

section \<open>The event hub\<close>

text \<open>
  A client is a channel of capacity one, that is whether a notification waits in it; channels
  are told apart by numbers.
\<close>

type_synonym hub = "(nat \<times> bool) list"

definition subscribe :: "nat \<Rightarrow> hub \<Rightarrow> hub" where
  "subscribe c h = (c, False) # filter (\<lambda>x. fst x \<noteq> c) h"

definition unsubscribe :: "nat \<Rightarrow> hub \<Rightarrow> hub" where
  "unsubscribe c h = filter (\<lambda>x. fst x \<noteq> c) h"

definition publish :: "hub \<Rightarrow> hub" where
  "publish h = map (\<lambda>(c, waiting). (c, True)) h"

text \<open>The loop of \<open>events\<close>: what wakes it up, and the chunks it writes.\<close>

datatype wake = Client_gone | Change | Keepalive

fun event_chunks :: "wake list \<Rightarrow> string list" where
  "event_chunks [] = []"
| "event_chunks (Client_gone # ws) = []"
| "event_chunks (Change # ws) = ''items_changed'' # event_chunks ws"
| "event_chunks (Keepalive # ws) = ''keepalive'' # event_chunks ws"

section \<open>Reading the multipart body\<close>

text \<open>
  A part yields its bytes and then ends or fails. \<open>read_limited n\<close> is reading it through a
  limit of \<open>n\<close> bytes: the bytes read and whether an error showed.
\<close>

record part =
  pt_form :: string
  pt_file :: string
  pt_type :: string
  pt_content :: string
  pt_broken :: bool

datatype part_event = Part part | Part_error

definition read_limited :: "int \<Rightarrow> part \<Rightarrow> string \<times> bool" where
  "read_limited n p = (take (nat n) (pt_content p), pt_broken p \<and> int (length (pt_content p)) < n)"

text \<open>Temporary files: the \<open>i\<close>-th name \<open>os.CreateTemp\<close> picks and the calls that fail.\<close>

record stage_env =
  se_name :: "nat \<Rightarrow> string"
  se_create :: "nat \<Rightarrow> bool"
  se_write :: "nat \<Rightarrow> bool"
  se_remove :: "nat \<Rightarrow> bool"

definition detect_type :: "drop_lib \<Rightarrow> string \<Rightarrow> string" where
  "detect_type lib content = dl_sniff lib (take 512 content)"

definition media_of_part :: "drop_lib \<Rightarrow> part \<Rightarrow> string \<Rightarrow> string" where
  "media_of_part lib p content =
     (let m = trim_space (pt_type p);
          m' = (if m = [] \<or> m = octet_stream then detect_type lib content else m)
      in safe_media_type (dl_uni lib) (dl_media lib) m')"

definition stage_attachment ::
  "drop_lib \<Rightarrow> api_config \<Rightarrow> stage_env \<Rightarrow> nat \<Rightarrow> part \<Rightarrow> files \<Rightarrow> ((nat \<times> string) + pending) \<times> files" where
  "stage_attachment lib cfg env n p fs =
     (if se_create env n then (Inl (503, ''storage_unavailable''), fs)
      else
        let name = se_name env n;
            (content, failed) = read_limited (ac_max_attachment cfg + 1) p;
            fs1 = fs(Temp name \<mapsto> content);
            removed = (if se_remove env n then fs1 else remove_file (Temp name) fs1) in
        if failed \<or> se_write env n then (Inl (400, ''upload_failed''), removed)
        else if int (length content) > ac_max_attachment cfg then (Inl (413, ''attachment_too_large''), removed)
        else (Inr \<lparr>pa_path = name, pa_name = sanitize_filename (pt_file p), pa_media = media_of_part lib p content,
                   pa_size = int (length content), pa_sha = digest lib content\<rparr>, fs1))"

text \<open>The variables of the loop over the parts.\<close>

record form =
  fm_text :: string
  fm_ttl :: int
  fm_seen_text :: bool
  fm_seen_ttl :: bool
  fm_pending :: "pending list"
  fm_total :: int

definition empty_form :: form where
  "empty_form = \<lparr>fm_text = [], fm_ttl = 1, fm_seen_text = False, fm_seen_ttl = False, fm_pending = [], fm_total = 0\<rparr>"

text \<open>One part: an error response or the new variables, and the files.\<close>

definition read_part ::
  "drop_lib \<Rightarrow> api_config \<Rightarrow> stage_env \<Rightarrow> part \<Rightarrow> form \<Rightarrow> files \<Rightarrow> ((nat \<times> string) + form) \<times> files" where
  "read_part lib cfg env p fm fs =
     (if pt_form p = ''text'' \<and> pt_file p = [] \<and> \<not> fm_seen_text fm then
        let (content, failed) = read_limited (ac_max_item cfg + 1) p in
        if failed \<or> int (length content) > ac_max_item cfg \<or> \<not> utf8_valid content
        then (Inl (400, ''invalid_text''), fs)
        else (Inr (fm\<lparr>fm_seen_text := True, fm_text := content, fm_total := fm_total fm + int (length content)\<rparr>), fs)
      else if pt_form p = ''ttl_days'' \<and> pt_file p = [] \<and> \<not> fm_seen_ttl fm then
        (case parse_int (trim_space (fst (read_limited 16 p))) of
           None \<Rightarrow> (Inl (400, ''invalid_ttl''), fs)
         | Some t \<Rightarrow> (Inr (fm\<lparr>fm_seen_ttl := True, fm_ttl := t\<rparr>), fs))
      else if pt_form p = ''files'' \<and> pt_file p \<noteq> [] then
        if length (fm_pending fm) \<ge> ac_max_attachments cfg then (Inl (413, ''too_many_attachments''), fs)
        else
          (case stage_attachment lib cfg env (length (fm_pending fm)) p fs of
             (Inl e, fs1) \<Rightarrow> (Inl e, fs1)
           | (Inr a, fs1) \<Rightarrow>
               (Inr (fm\<lparr>fm_pending := fm_pending fm @ [a], fm_total := fm_total fm + pa_size a\<rparr>), fs1))
      else (Inl (400, ''unexpected_multipart_field''), fs))"

text \<open>The loop: an error or the end, with the variables as they are then.\<close>

fun read_parts ::
  "drop_lib \<Rightarrow> api_config \<Rightarrow> stage_env \<Rightarrow> part_event list \<Rightarrow> form \<Rightarrow> files \<Rightarrow>
   (nat \<times> string) option \<times> form \<times> files" where
  "read_parts lib cfg env [] fm fs = (None, fm, fs)"
| "read_parts lib cfg env (Part_error # ps) fm fs = (Some (400, ''invalid_multipart''), fm, fs)"
| "read_parts lib cfg env (Part p # ps) fm fs =
     (case read_part lib cfg env p fm fs of
        (Inl e, fs1) \<Rightarrow> (Some e, fm, fs1)
      | (Inr fm1, fs1) \<Rightarrow>
          if fm_total fm1 > ac_max_item cfg then (Some (413, ''item_too_large''), fm1, fs1)
          else read_parts lib cfg env ps fm1 fs1)"

text \<open>The deferred removal of what is still staged.\<close>

fun remove_pending :: "(nat \<Rightarrow> bool) \<Rightarrow> nat \<Rightarrow> pending list \<Rightarrow> files \<Rightarrow> files" where
  "remove_pending fault n [] fs = fs"
| "remove_pending fault n (p # ps) fs =
     remove_pending fault (Suc n) ps (if fault n then fs else remove_file (Temp (pa_path p)) fs)"

section \<open>Handlers\<close>

text \<open>What a handler meets: clocks, random identifiers and the calls that fail.\<close>

record call_env =
  ce_now :: instant
  ce_dbnow :: instant
  ce_rid :: "nat \<Rightarrow> string"
  ce_read :: bool
  ce_exec :: bool
  ce_create :: create_faults
  ce_delete :: delete_faults
  ce_stage :: stage_env
  ce_unstage :: "nat \<Rightarrow> bool"

record world =
  wo_store :: store
  wo_hub :: hub

definition idempotency_hash :: "drop_lib \<Rightarrow> claims \<Rightarrow> string \<Rightarrow> string" where
  "idempotency_hash lib c key = digest lib (effective_actor c @ [CHR 0x00] @ key)"

text \<open>The checks after the loop: an error or the input for the store.\<close>

definition finish_form :: "drop_lib \<Rightarrow> claims \<Rightarrow> string \<Rightarrow> form \<Rightarrow> (nat \<times> string) + create_input" where
  "finish_form lib c header_key fm =
     (let key = trim_space header_key in
      if fm_text fm = [] \<and> fm_pending fm = [] then Inl (400, ''empty_item'')
      else if fm_ttl fm \<noteq> 1 \<and> fm_ttl fm \<noteq> 3 \<and> fm_ttl fm \<noteq> 7 then Inl (400, ''invalid_ttl'')
      else if key \<noteq> [] \<and> (length key < 16 \<or> length key > 200) then Inl (400, ''invalid_idempotency_key'')
      else Inr \<lparr>ci_text = fm_text fm, ci_creator = tc_sub c, ci_actor = effective_actor c,
                ci_ttl = fm_ttl fm * day, ci_key = (if key = [] then [] else idempotency_hash lib c key),
                ci_attachments = fm_pending fm\<rparr>)"

definition create_item ::
  "drop_lib \<Rightarrow> api_config \<Rightarrow> (string \<Rightarrow> string) \<Rightarrow> call_env \<Rightarrow> claims \<Rightarrow> int \<Rightarrow> part_event list option \<Rightarrow> string \<Rightarrow>
   world \<Rightarrow> drop_response \<times> world" where
  "create_item lib cfg coll env c len parts header_key w =
     (if len > ac_max_item cfg + multipart_overhead then (write_error 413 ''item_too_large'', w)
      else case parts of
        None \<Rightarrow> (write_error 400 ''multipart_required'', w)
      | Some ps \<Rightarrow>
          (case read_parts lib cfg (ce_stage env) ps empty_form (st_files (wo_store w)) of
             (err, fm, fs) \<Rightarrow>
               let st = (wo_store w)\<lparr>st_files := fs\<rparr>;
                   unstage = (\<lambda>s. s\<lparr>st_files := remove_pending (ce_unstage env) 0 (fm_pending fm) (st_files s)\<rparr>) in
               case err of
                 Some (code, e) \<Rightarrow> (write_error code e, w\<lparr>wo_store := unstage st\<rparr>)
               | None \<Rightarrow>
                   (case finish_form lib c header_key fm of
                      Inl (code, e) \<Rightarrow> (write_error code e, w\<lparr>wo_store := unstage st\<rparr>)
                    | Inr inp \<Rightarrow>
                        (case create coll (ce_create env) (ce_now env) (ce_dbnow env) (ce_rid env) st inp of
                           (Inl e, st1) \<Rightarrow> (write_store_error e, w\<lparr>wo_store := unstage st1\<rparr>)
                         | (Inr i, st1) \<Rightarrow>
                             (write_json 201 (Drop_item (item_response i)),
                              w\<lparr>wo_store := unstage st1, wo_hub := publish (wo_hub w)\<rparr>)))))"

definition list_items_api ::
  "drop_lib \<Rightarrow> (string \<Rightarrow> string) \<Rightarrow> call_env \<Rightarrow> string \<Rightarrow> string \<Rightarrow> world \<Rightarrow> drop_response" where
  "list_items_api lib coll env limit_text cursor_text w =
     (let limit = (if limit_text = [] then Some 50
                   else case parse_int limit_text of
                     None \<Rightarrow> None
                   | Some n \<Rightarrow> if n < 1 \<or> n > 100 then None else Some n);
          cursor = (if cursor_text = [] then Some (zero_time, [])
                    else case Option.bind (b64_decode Url cursor_text) (dl_cursor_parse lib) of
                      None \<Rightarrow> None
                    | Some (t, iid) \<Rightarrow> if t = zero_time \<or> iid = [] then None else Some (t, iid)) in
      case limit of
        None \<Rightarrow> write_error 400 ''invalid_limit''
      | Some n \<Rightarrow>
          (case cursor of
             None \<Rightarrow> write_error 400 ''invalid_cursor''
           | Some (t, iid) \<Rightarrow>
               (case list_items coll (ce_read env) (ce_dbnow env) (wo_store w)
                       \<lparr>lo_limit = n, lo_before = t, lo_before_id = iid\<rparr> of
                  Inl e \<Rightarrow> write_store_error e
                | Inr items \<Rightarrow>
                    write_json 200 (Drop_items (map item_response items)
                      (if int (length items) = n
                       then b64_encode Url (dl_cursor lib (it_created (last items), it_id (last items)))
                       else [])))))"

definition get_item_api :: "(string \<Rightarrow> string) \<Rightarrow> call_env \<Rightarrow> string \<Rightarrow> world \<Rightarrow> drop_response" where
  "get_item_api coll env iid w =
     (case get coll (ce_read env) (ce_dbnow env) (wo_store w) iid of
        Inl e \<Rightarrow> write_store_error e
      | Inr i \<Rightarrow> write_json 200 (Drop_item (item_response i)))"

definition delete_item_api :: "call_env \<Rightarrow> string \<Rightarrow> world \<Rightarrow> drop_response \<times> world" where
  "delete_item_api env iid w =
     (case delete_item (ce_delete env) (ce_rid env) (wo_store w) iid of
        (Inl e, st) \<Rightarrow> (write_store_error e, w\<lparr>wo_store := st\<rparr>)
      | (Inr _, st) \<Rightarrow>
          (\<lparr>status = 204, headers = [], body = None\<rparr>, w\<lparr>wo_store := st, wo_hub := publish (wo_hub w)\<rparr>))"

text \<open>The JSON body arrives decoded: \<open>None\<close> where decoding fails.\<close>

definition update_expiry_api ::
  "(string \<Rightarrow> string) \<Rightarrow> call_env \<Rightarrow> string \<Rightarrow> int option \<Rightarrow> world \<Rightarrow> drop_response \<times> world" where
  "update_expiry_api coll env iid ttl w =
     (case ttl of
        None \<Rightarrow> (write_error 400 ''invalid_ttl'', w)
      | Some days \<Rightarrow>
          if days \<noteq> 1 \<and> days \<noteq> 3 \<and> days \<noteq> 7 then (write_error 400 ''invalid_ttl'', w)
          else (case update_expiry coll (ce_exec env) (ce_read env) (ce_now env) (ce_dbnow env) (wo_store w) iid (days * day) of
                  (Inl e, st) \<Rightarrow> (write_store_error e, w\<lparr>wo_store := st\<rparr>)
                | (Inr i, st) \<Rightarrow>
                    (write_json 200 (Drop_item (item_response i)), w\<lparr>wo_store := st, wo_hub := publish (wo_hub w)\<rparr>)))"

definition status_api :: "call_env \<Rightarrow> world \<Rightarrow> drop_response" where
  "status_api env w =
     (case store_stats (ce_read env) (ce_dbnow env) (wo_store w) of
        Inl e \<Rightarrow> write_store_error e
      | Inr s \<Rightarrow> write_json 200 (Drop_status s))"

text \<open>\<open>base64.StdEncoding\<close> pads its output to a multiple of four.\<close>

definition b64_padded :: "string \<Rightarrow> string" where
  "b64_padded s = (let e = b64_encode Std s in e @ replicate ((4 - length e mod 4) mod 4) CHR ''='')"

text \<open>\<open>http.ServeContent\<close> for a request without range and condition headers.\<close>

definition get_attachment_api :: "drop_lib \<Rightarrow> call_env \<Rightarrow> string \<Rightarrow> string \<Rightarrow> world \<Rightarrow> drop_response" where
  "get_attachment_api lib env aid download w =
     (case open_attachment (ce_read env) (ce_dbnow env) (wo_store w) aid of
        Inl e \<Rightarrow> write_store_error e
      | Inr (content, a) \<Rightarrow>
          let kind = (if download \<noteq> ''1'' \<and> has_prefix ''image/'' (at_media a) \<and> at_media a \<noteq> ''image/svg+xml''
                      then ''inline'' else ''attachment'') in
          \<lparr>status = 200,
           headers = [(''Content-Type'', safe_media_type (dl_uni lib) (dl_media lib) (at_media a)),
                      (''Content-Disposition'', content_disposition kind (at_name a)),
                      (''Content-Security-Policy'', ''sandbox; default-src '' @ [CHR 0x27] @ ''none'' @ [CHR 0x27]),
                      (''Digest'', ''sha-256='' @ b64_padded (at_sha a)),
                      (''Cache-Control'', ''private, no-cache''), (''Vary'', ''Authorization'')],
           body = Some (Drop_bytes content)\<rparr>)"

section \<open>Routes\<close>

datatype drop_route =
    Live
  | Ready
  | Web
  | Post_items int "part_event list option" string
  | List_items string string
  | Get_item string
  | Delete_item string
  | Patch_expiry string "int option"
  | Get_attachment string string
  | Get_status
  | Get_events

fun required :: "drop_route \<Rightarrow> string option" where
  "required (Post_items l ps k) = Some ''drop.item.create''"
| "required (List_items l c) = Some ''drop.item.list''"
| "required (Get_item i) = Some ''drop.item.read''"
| "required (Delete_item i) = Some ''drop.item.delete''"
| "required (Patch_expiry i t) = Some ''drop.item.delete''"
| "required (Get_attachment i d) = Some ''drop.item.read''"
| "required Get_status = Some ''drop.item.list''"
| "required Get_events = Some ''drop.item.list''"
| "required _ = None"

text \<open>\<open>authenticate\<close>: the error response or the claims.\<close>

definition authenticate_drop ::
  "(string \<Rightarrow> identity_error + claims) option \<Rightarrow> string \<Rightarrow> request \<Rightarrow> drop_response + claims" where
  "authenticate_drop verifier permission req =
     (case bearer_token req of
        Inl _ \<Rightarrow> Inl (write_error 401 ''invalid_token'')
      | Inr tok \<Rightarrow>
          (case verifier of
             None \<Rightarrow> Inl (write_error 401 ''invalid_token'')
           | Some ver \<Rightarrow>
               (case ver tok of
                  Inl _ \<Rightarrow> Inl (write_error 401 ''invalid_token'')
                | Inr c \<Rightarrow>
                    if allows c permission then Inr c else Inl (write_error 403 ''insufficient_permission''))))"

fun handle_drop ::
  "drop_lib \<Rightarrow> api_config \<Rightarrow> (string \<Rightarrow> string) \<Rightarrow> call_env \<Rightarrow> claims \<Rightarrow> drop_route \<Rightarrow> world \<Rightarrow> drop_response \<times> world" where
  "handle_drop lib cfg coll env c (Post_items len parts key) w = create_item lib cfg coll env c len parts key w"
| "handle_drop lib cfg coll env c (List_items l cur) w = (list_items_api lib coll env l cur w, w)"
| "handle_drop lib cfg coll env c (Get_item i) w = (get_item_api coll env i w, w)"
| "handle_drop lib cfg coll env c (Delete_item i) w = delete_item_api env i w"
| "handle_drop lib cfg coll env c (Patch_expiry i t) w = update_expiry_api coll env i t w"
| "handle_drop lib cfg coll env c (Get_attachment i d) w = (get_attachment_api lib env i d w, w)"
| "handle_drop lib cfg coll env c Get_status w = (status_api env w, w)"
| "handle_drop lib cfg coll env c Get_events w =
     (\<lparr>status = 200, headers = [(''Content-Type'', ''text/event-stream''), (''Cache-Control'', ''no-cache''),
         (''X-Accel-Buffering'', ''no'')], body = Some Drop_stream\<rparr>, w)"
| "handle_drop lib cfg coll env c Live w = (write_json 200 (Drop_health ''ok''), w)"
| "handle_drop lib cfg coll env c Ready w =
     ((if ce_read env then write_json 503 (Drop_health ''unavailable'') else write_json 200 (Drop_health ''ready'')), w)"
| "handle_drop lib cfg coll env c Web w = (\<lparr>status = 200, headers = [], body = Some Drop_web\<rparr>, w)"

text \<open>The zero value of the claims, which \<open>FromContext\<close> gives where none were stored.\<close>

definition zero_claims :: claims where
  "zero_claims = \<lparr>tc_iss = [], tc_aud = [], tc_sub = [], tc_act = None, tc_azp = [], tc_realm = [],
     tc_permissions = [], tc_sid = [], tc_jti = [], tc_delegation = [], tc_amr = [], tc_auth_time = 0,
     tc_iat = 0, tc_nbf = 0, tc_exp = 0\<rparr>"

definition serve_drop ::
  "drop_lib \<Rightarrow> api_config \<Rightarrow> (string \<Rightarrow> string) \<Rightarrow> (string \<Rightarrow> identity_error + claims) option \<Rightarrow> call_env \<Rightarrow> request \<Rightarrow>
   drop_route \<Rightarrow> world \<Rightarrow> drop_response \<times> world" where
  "serve_drop lib cfg coll verifier env req route w =
     (case required route of
        None \<Rightarrow> handle_drop lib cfg coll env zero_claims route w
      | Some permission \<Rightarrow>
          (case authenticate_drop verifier permission req of
             Inl resp \<Rightarrow> (resp, w)
           | Inr c \<Rightarrow> handle_drop lib cfg coll env c route w))"

end
