(* ===== verification/Drop_Service.thy ===== *)
theory Drop_Service
  imports Drop_Api
begin

text \<open>
  What the Drop API guarantees to its clients: a token with the right permission in front of
  every item, the limits of the configuration, no left-over temporary files, uploads served
  back byte for byte, and attachments that a browser does not run.
\<close>

section \<open>Authorisation\<close>

lemma authenticate_drop_Inr:
  "authenticate_drop verifier p req = Inr c \<longleftrightarrow>
     (\<exists>tok ver. bearer_token req = Inr tok \<and> verifier = Some ver \<and> ver tok = Inr c \<and> allows c p)"
  by (auto simp: authenticate_drop_def split: sum.split option.split if_split_asm)

lemma authenticate_drop_Inl:
  "authenticate_drop verifier p req = Inl resp \<Longrightarrow> status resp = 401 \<or> status resp = 403"
  by (auto simp: authenticate_drop_def write_error_def write_json_def
      split: sum.split_asm option.split_asm if_split_asm)


section \<open>Staged uploads\<close>

text \<open>The file parts of a body, and what is staged for one of them.\<close>

fun file_parts :: "part_event list \<Rightarrow> part list" where
  "file_parts [] = []"
| "file_parts (Part p # ps) =
     (if pt_form p = ''files'' \<and> pt_file p \<noteq> [] then p # file_parts ps else file_parts ps)"
| "file_parts (Part_error # ps) = file_parts ps"

definition staged_part :: "drop_lib \<Rightarrow> api_config \<Rightarrow> stage_env \<Rightarrow> files \<Rightarrow> nat \<Rightarrow> part \<Rightarrow> pending \<Rightarrow> bool" where
  "staged_part lib cfg env fs n p a \<longleftrightarrow>
     pa_path a = se_name env n \<and> pa_name a = sanitize_filename (pt_file p) \<and>
     pa_media a = media_of_part lib p (pt_content p) \<and> pa_size a = int (length (pt_content p)) \<and>
     pa_sha a = digest lib (pt_content p) \<and> fs (Temp (pa_path a)) = Some (pt_content p) \<and>
     int (length (pt_content p)) \<le> ac_max_attachment cfg"

lemma stage_attachment_Inr:
  assumes "stage_attachment lib cfg env n p fs = (Inr a, fs')" and "0 \<le> ac_max_attachment cfg"
  shows "staged_part lib cfg env fs' n p a \<and> fs' = fs(Temp (se_name env n) \<mapsto> pt_content p)"
proof -
  let ?c = "take (nat (ac_max_attachment cfg + 1)) (pt_content p)"
  have "int (length ?c) \<le> ac_max_attachment cfg"
    using assms by (auto simp: stage_attachment_def read_limited_def Let_def split: if_split_asm)
  then have c: "?c = pt_content p" using assms(2) by (simp add: min_def split: if_split_asm)
  have "a = \<lparr>pa_path = se_name env n, pa_name = sanitize_filename (pt_file p), pa_media = media_of_part lib p ?c,
      pa_size = int (length ?c), pa_sha = digest lib ?c\<rparr> \<and> fs' = fs(Temp (se_name env n) \<mapsto> ?c)"
    using assms by (auto simp: stage_attachment_def read_limited_def Let_def split: if_split_asm)
  with \<open>int (length ?c) \<le> ac_max_attachment cfg\<close> c show ?thesis by (simp add: staged_part_def)
qed

lemma stage_attachment_Inl:
  assumes "stage_attachment lib cfg env n p fs = (Inl e, fs')" "\<not> se_remove env n" "fs (Temp (se_name env n)) = None"
  shows "fs' = fs"
  using assms by (auto simp: stage_attachment_def Let_def remove_file_def split: if_split_asm prod.split_asm)

text \<open>The invariant of the loop, relative to the files before it.\<close>

definition form_ok ::
  "drop_lib \<Rightarrow> api_config \<Rightarrow> stage_env \<Rightarrow> files \<Rightarrow> part list \<Rightarrow> form \<Rightarrow> files \<Rightarrow> bool" where
  "form_ok lib cfg env fs0 ps fm fs \<longleftrightarrow>
     length (fm_pending fm) = length ps \<and>
     (\<forall>n < length ps. staged_part lib cfg env fs n (ps ! n) (fm_pending fm ! n)) \<and>
     length ps \<le> ac_max_attachments cfg \<and>
     fm_total fm = int (length (fm_text fm)) + (\<Sum>a\<leftarrow>fm_pending fm. pa_size a) \<and>
     (\<not> fm_seen_text fm \<longrightarrow> fm_text fm = []) \<and> utf8_valid (fm_text fm) \<and>
     (\<forall>x. (\<forall>n < length ps. x \<noteq> Temp (se_name env n)) \<longrightarrow> fs x = fs0 x)"

definition fresh_names :: "stage_env \<Rightarrow> files \<Rightarrow> bool" where
  "fresh_names env fs \<longleftrightarrow> inj (se_name env) \<and> (\<forall>n. fs (Temp (se_name env n)) = None)"

lemma form_ok_empty: "form_ok lib cfg env fs [] empty_form fs"
  by (simp add: form_ok_def empty_form_def utf8_valid_def)

lemma form_ok_text:
  assumes "form_ok lib cfg env fs0 ps fm fs" "\<not> fm_seen_text fm" "utf8_valid c"
  shows "form_ok lib cfg env fs0 ps
           (fm\<lparr>fm_seen_text := True, fm_text := c, fm_total := fm_total fm + int (length c)\<rparr>) fs"
  using assms by (simp add: form_ok_def)

lemma form_ok_file:
  assumes "form_ok lib cfg env fs0 ps fm fs" and "fresh_names env fs0"
    and "length ps < ac_max_attachments cfg" "0 \<le> ac_max_attachment cfg"
    and "stage_attachment lib cfg env (length ps) p fs = (Inr a, fs1)"
  shows "form_ok lib cfg env fs0 (ps @ [p]) (fm\<lparr>fm_pending := fm_pending fm @ [a], fm_total := fm_total fm + pa_size a\<rparr>) fs1"
proof -
  have s: "staged_part lib cfg env fs1 (length ps) p a" "fs1 = fs(Temp (se_name env (length ps)) \<mapsto> pt_content p)"
    using stage_attachment_Inr [OF assms(5,4)] by auto
  have inj: "inj (se_name env)" using assms(2) by (simp add: fresh_names_def)
  have len: "length (fm_pending fm) = length ps" using assms(1) by (simp add: form_ok_def)
  have old: "staged_part lib cfg env fs1 n (ps ! n) (fm_pending fm ! n)" if "n < length ps" for n
  proof -
    have "staged_part lib cfg env fs n (ps ! n) (fm_pending fm ! n)"
      using assms(1) that by (simp add: form_ok_def)
    moreover have "se_name env n \<noteq> se_name env (length ps)" using injD [OF inj, of n "length ps"] that by auto
    ultimately show ?thesis by (auto simp: staged_part_def s(2))
  qed
  have "staged_part lib cfg env fs1 n ((ps @ [p]) ! n) ((fm_pending fm @ [a]) ! n)" if "n < Suc (length ps)" for n
    using old s(1) that len by (cases "n = length ps") (simp_all add: nth_append)
  then show ?thesis
    using assms(1,3) len s(2) by (auto simp: form_ok_def less_Suc_eq)
qed

lemma read_part_Inr:
  assumes "read_part lib cfg env p fm fs = (Inr fm1, fs1)"
    and "form_ok lib cfg env fs0 ps fm fs" and "fresh_names env fs0" "0 \<le> ac_max_attachment cfg"
  shows "form_ok lib cfg env fs0 (ps @ (if pt_form p = ''files'' \<and> pt_file p \<noteq> [] then [p] else [])) fm1 fs1"
proof -
  have len: "length (fm_pending fm) = length ps" using assms(2) by (simp add: form_ok_def)
  consider (txt_part) "pt_form p = ''text'' \<and> pt_file p = [] \<and> \<not> fm_seen_text fm"
    | (ttl_part) "\<not> (pt_form p = ''text'' \<and> pt_file p = [] \<and> \<not> fm_seen_text fm)"
        "pt_form p = ''ttl_days'' \<and> pt_file p = [] \<and> \<not> fm_seen_ttl fm"
    | (upload) "\<not> (pt_form p = ''text'' \<and> pt_file p = [] \<and> \<not> fm_seen_text fm)"
        "\<not> (pt_form p = ''ttl_days'' \<and> pt_file p = [] \<and> \<not> fm_seen_ttl fm)"
        "pt_form p = ''files'' \<and> pt_file p \<noteq> []"
    | (other) "\<not> (pt_form p = ''text'' \<and> pt_file p = [] \<and> \<not> fm_seen_text fm)"
        "\<not> (pt_form p = ''ttl_days'' \<and> pt_file p = [] \<and> \<not> fm_seen_ttl fm)"
        "\<not> (pt_form p = ''files'' \<and> pt_file p \<noteq> [])"
    by blast
  then show ?thesis
  proof cases
    case txt_part
    then have no: "\<not> (pt_form p = ''files'' \<and> pt_file p \<noteq> [])" by simp
    obtain c where "utf8_valid c" "fs1 = fs"
      "fm1 = fm\<lparr>fm_seen_text := True, fm_text := c, fm_total := fm_total fm + int (length c)\<rparr>"
      using assms(1) unfolding read_part_def if_P [OF txt_part] by (auto simp: Let_def split: prod.split_asm if_split_asm)
    with form_ok_text [OF assms(2)] txt_part no show ?thesis by simp
  next
    case ttl_part
    then have no: "\<not> (pt_form p = ''files'' \<and> pt_file p \<noteq> [])" by simp
    obtain t where "fs1 = fs" "fm1 = fm\<lparr>fm_seen_ttl := True, fm_ttl := t\<rparr>"
      using assms(1) unfolding read_part_def if_not_P [OF ttl_part(1)] if_P [OF ttl_part(2)] by (auto split: option.split_asm)
    with assms(2) no show ?thesis by (simp add: form_ok_def)
  next
    case upload
    then obtain a where "length (fm_pending fm) < ac_max_attachments cfg"
      "stage_attachment lib cfg env (length ps) p fs = (Inr a, fs1)"
      "fm1 = fm\<lparr>fm_pending := fm_pending fm @ [a], fm_total := fm_total fm + pa_size a\<rparr>"
      using assms(1) unfolding read_part_def if_not_P [OF upload(1)] if_not_P [OF upload(2)] if_P [OF upload(3)] len
      by (auto split: if_split_asm prod.split_asm sum.split_asm)
    with form_ok_file [OF assms(2,3) _ assms(4)] len upload(3) show ?thesis by simp
  next
    case other
    with assms(1) show ?thesis
      unfolding read_part_def if_not_P [OF other(1)] if_not_P [OF other(2)] if_not_P [OF other(3)] by simp
  qed
qed

lemma read_part_Inl:
  assumes "read_part lib cfg env p fm fs = (Inl e, fs1)"
    and "form_ok lib cfg env fs0 ps fm fs" and "fresh_names env fs0" and "\<forall>n. \<not> se_remove env n"
  shows "fs1 = fs"
proof -
  have len: "length (fm_pending fm) = length ps" using assms(2) by (simp add: form_ok_def)
  have "fs (Temp (se_name env (length ps))) = None"
  proof -
    have "\<forall>n < length ps. Temp (se_name env (length ps)) \<noteq> Temp (se_name env n)"
      using assms(3) by (auto simp: fresh_names_def dest: injD)
    then have "fs (Temp (se_name env (length ps))) = fs0 (Temp (se_name env (length ps)))"
      using assms(2) unfolding form_ok_def by blast
    with assms(3) show ?thesis by (simp add: fresh_names_def)
  qed
  then have st: "fs' = fs" if "stage_attachment lib cfg env (length ps) p fs = (Inl e', fs')" for e' fs'
    using stage_attachment_Inl [OF that] assms(4) by blast
  show ?thesis
    using assms(1) unfolding read_part_def len
    by (auto simp: Let_def split: if_split_asm prod.split_asm option.split_asm sum.split_asm dest: st)
qed

lemma read_parts_ok:
  assumes "read_parts lib cfg env evs fm fs = (err, fm', fs')"
    and "form_ok lib cfg env fs0 ps fm fs" and "fresh_names env fs0" "0 \<le> ac_max_attachment cfg"
    and "err = None \<or> (\<forall>n. \<not> se_remove env n)"
  shows "(\<exists>ps'. form_ok lib cfg env fs0 ps' fm' fs') \<and>
         (err = None \<longrightarrow> form_ok lib cfg env fs0 (ps @ file_parts evs) fm' fs' \<and>
            (fm_total fm \<le> ac_max_item cfg \<longrightarrow> fm_total fm' \<le> ac_max_item cfg))"
  using assms(1,2)
proof (induction evs arbitrary: ps fm fs)
  case Nil
  then show ?case by auto
next
  case (Cons ev evs)
  show ?case
  proof (cases ev)
    case Part_error
    with Cons.prems show ?thesis by auto
  next
    case (Part p)
    obtain r fs1 where r: "read_part lib cfg env p fm fs = (r, fs1)" by fastforce
    show ?thesis
    proof (cases r)
      case (Inl e)
      with Cons.prems(1) Part r have "err = Some e" "fm' = fm" "fs' = fs1" by auto
      with read_part_Inl [OF r [unfolded Inl] Cons.prems(2) assms(3)] assms(5) Cons.prems(2) show ?thesis by auto
    next
      case (Inr fm1)
      note ok = read_part_Inr [OF r [unfolded Inr] Cons.prems(2) assms(3,4)]
      show ?thesis
      proof (cases "fm_total fm1 > ac_max_item cfg")
        case True
        with Cons.prems(1) Part r Inr ok show ?thesis by auto
      next
        case False
        with Cons.prems(1) Part r Inr have "read_parts lib cfg env evs fm1 fs1 = (err, fm', fs')" by simp
        from Cons.IH [OF this ok] False Part show ?thesis by auto
      qed
    qed
  qed
qed

section \<open>Temporary files\<close>

lemma move_uploads_temp:
  "move_uploads fault rid now iid n ps moved fs = (m, fs', ok) \<Longrightarrow>
     fs' (Temp x) = fs (Temp x) \<or> (x \<in> pa_path ` set ps \<and> fs' (Temp x) = None)"
proof (induction ps arbitrary: n moved fs)
  case (Cons p ps)
  define a where "a = new_attachment rid now iid n p"
  show ?case
  proof (cases "if fault n then None else rename_file (Temp (pa_path p)) (Blob (at_storage a)) fs")
    case None
    with Cons.prems show ?thesis unfolding move_uploads_step a_def [symmetric] by simp
  next
    case (Some fs1)
    then have "move_uploads fault rid now iid (Suc n) ps (moved @ [a]) fs1 = (m, fs', ok)"
      using Cons.prems unfolding move_uploads_step a_def [symmetric] by simp
    note IH = Cons.IH [OF this]
    have "rename_file (Temp (pa_path p)) (Blob (at_storage a)) fs = Some fs1"
      using Some by (simp split: if_split_asm)
    then have "fs1 (Temp x) = (if x = pa_path p then None else fs (Temp x))"
      by (auto simp: rename_file_def split: option.split_asm)
    with IH show ?thesis by (auto split: if_split_asm)
  qed
qed simp

lemma create_temp:
  assumes "create coll f now dbnow rid st inp = (r, st')"
  shows "st_files st' (Temp x) = st_files st (Temp x) \<or>
         (x \<in> pa_path ` set (ci_attachments inp) \<and> st_files st' (Temp x) = None)"
  using assms
proof (cases rule: create_cases)
  case (fresh tot)
  obtain m fs ok where mv:
    "move_uploads (cf_rename f) rid now (rid 0) 0 (ci_attachments inp) [] (st_files st) = (m, fs, ok)"
    by (rule prod_cases3)
  have clean: "cleanup_moved g n as c (Temp x) = c (Temp x)" for g n as c
    by (induction as arbitrary: n c) (auto simp: remove_file_def)
  define i where "i = (new_item rid now tot inp)\<lparr>it_attachments := m\<rparr>"
  define st0 where "st0 = st\<lparr>st_files := cleanup_moved (cf_remove f) 0 m fs\<rparr>"
  have "st_files st0 (Temp x) = fs (Temp x)" by (simp add: st0_def clean)
  then have "st_files st' (Temp x) = fs (Temp x)"
    using fresh(6) unfolding create_new_eq [OF mv st0_def i_def]
    by (auto split: if_split_asm option.split_asm commit_outcome.split_asm)
  with move_uploads_temp [OF mv, of x] show ?thesis by auto
qed simp_all

lemma remove_pending_spec:
  "remove_pending (\<lambda>_. False) n ps fs x = (if \<exists>a \<in> set ps. x = Temp (pa_path a) then None else fs x)"
  by (induction ps arbitrary: n fs) (auto simp: remove_file_def)

definition unstage :: "(nat \<Rightarrow> bool) \<Rightarrow> form \<Rightarrow> store \<Rightarrow> store" where
  "unstage fault fm s = s\<lparr>st_files := remove_pending fault 0 (fm_pending fm) (st_files s)\<rparr>"

lemma unstage_view: "same_view s (unstage (\<lambda>_. False) fm s)"
  by (auto simp: same_view_def unstage_def remove_pending_spec)

text \<open>The cases of \<open>create_item\<close>.\<close>

lemma create_item_cases:
  assumes "create_item lib cfg coll env c len parts key w = (resp, w')"
  obtains (early) "w' = w" "status resp \<noteq> 201"
  | (read_error) ps err fm fs where "parts = Some ps"
      "read_parts lib cfg (ce_stage env) ps empty_form (st_files (wo_store w)) = (Some err, fm, fs)"
      "wo_store w' = unstage (ce_unstage env) fm ((wo_store w)\<lparr>st_files := fs\<rparr>)" "resp = write_error (fst err) (snd err)"
  | (form_error) ps fm fs err where "parts = Some ps"
      "read_parts lib cfg (ce_stage env) ps empty_form (st_files (wo_store w)) = (None, fm, fs)"
      "finish_form lib c key fm = Inl err"
      "wo_store w' = unstage (ce_unstage env) fm ((wo_store w)\<lparr>st_files := fs\<rparr>)" "resp = write_error (fst err) (snd err)"
  | (tried) ps fm fs inp r st1 where "parts = Some ps"
      "read_parts lib cfg (ce_stage env) ps empty_form (st_files (wo_store w)) = (None, fm, fs)"
      "finish_form lib c key fm = Inr inp"
      "create coll (ce_create env) (ce_now env) (ce_dbnow env) (ce_rid env) ((wo_store w)\<lparr>st_files := fs\<rparr>) inp = (r, st1)"
      "wo_store w' = unstage (ce_unstage env) fm st1"
      "resp = (case r of Inl e \<Rightarrow> write_store_error e | Inr i \<Rightarrow> write_json 201 (Drop_item (item_response i)))"
proof (cases "len > ac_max_item cfg + multipart_overhead \<or> parts = None")
  case True
  with assms have "w' = w" "status resp \<noteq> 201"
    by (auto simp: create_item_def write_error_def write_json_def split: if_split_asm)
  then show ?thesis by (rule early)
next
  case False
  then obtain ps where ps: "parts = Some ps" by blast
  obtain err fm fs where rp: "read_parts lib cfg (ce_stage env) ps empty_form (st_files (wo_store w)) = (err, fm, fs)"
    by (rule prod_cases3)
  show ?thesis
  proof (cases err)
    case (Some e)
    with False ps rp assms show ?thesis
      by (intro read_error [OF ps rp [unfolded Some]])
        (auto simp: create_item_def Let_def unstage_def split: prod.split_asm)
  next
    case None
    show ?thesis
    proof (cases "finish_form lib c key fm")
      case (Inl e)
      with None False ps rp assms show ?thesis
        by (intro form_error [OF ps rp [unfolded None] Inl])
          (auto simp: create_item_def Let_def unstage_def split: prod.split_asm)
    next
      case (Inr inp)
      obtain r st1 where cr: "create coll (ce_create env) (ce_now env) (ce_dbnow env) (ce_rid env)
          ((wo_store w)\<lparr>st_files := fs\<rparr>) inp = (r, st1)" by fastforce
      with None Inr False ps rp assms show ?thesis
        by (intro tried [OF ps rp [unfolded None] Inr cr])
          (cases r; simp add: create_item_def Let_def unstage_def; auto)+
    qed
  qed
qed

lemma form_ok_paths:
  assumes "form_ok lib cfg env fs0 ps fm fs"
  shows "pa_path ` set (fm_pending fm) = se_name env ` {..<length ps}"
proof -
  have "pa_path (fm_pending fm ! n) = se_name env n" if "n < length ps" for n
    using assms that by (simp add: form_ok_def staged_part_def)
  moreover have len: "length (fm_pending fm) = length ps" using assms by (simp add: form_ok_def)
  ultimately have "map pa_path (fm_pending fm) = map (se_name env) [0..<length ps]"
    by (intro nth_equalityI) simp_all
  then have "set (map pa_path (fm_pending fm)) = set (map (se_name env) [0..<length ps])" by (rule arg_cong)
  then show ?thesis by (simp add: atLeast0LessThan)
qed

lemma unstage_temp:
  assumes "form_ok lib cfg env fs0 ps fm fs" and "fresh_names env fs0"
    and "s (Temp x) = fs (Temp x) \<or> (x \<in> pa_path ` set (fm_pending fm) \<and> s (Temp x) = None)"
  shows "remove_pending (\<lambda>_. False) 0 (fm_pending fm) s (Temp x) = fs0 (Temp x)"
proof (cases "x \<in> se_name env ` {..<length ps}")
  case True
  then have "fs0 (Temp x) = None" using assms(2) by (auto simp: fresh_names_def)
  moreover have "\<exists>a \<in> set (fm_pending fm). x = pa_path a" using True form_ok_paths [OF assms(1)] by blast
  ultimately show ?thesis by (simp add: remove_pending_spec)
next
  case False
  then have "\<forall>n < length ps. Temp x \<noteq> Temp (se_name env n)" by auto
  then have "fs (Temp x) = fs0 (Temp x)" using assms(1) unfolding form_ok_def by blast
  moreover have "x \<notin> pa_path ` set (fm_pending fm)" using False form_ok_paths [OF assms(1)] by simp
  ultimately show ?thesis using assms(3) by (auto simp: remove_pending_spec)
qed

text \<open>
  C36. An upload leaves nothing behind in the temporary directory: after \<open>createItem\<close>,
  whatever it answers, every temporary name holds what it held before.
\<close>

theorem create_item_no_leftovers:
  assumes "fresh_names (ce_stage env) (st_files (wo_store w))" and "\<forall>n. \<not> se_remove (ce_stage env) n"
    and "ce_unstage env = (\<lambda>_. False)" and "0 \<le> ac_max_attachment cfg"
    and "create_item lib cfg coll env c len parts key w = (resp, w')"
  shows "st_files (wo_store w') (Temp x) = st_files (wo_store w) (Temp x)"
  using assms(5)
proof (cases rule: create_item_cases)
  case early
  then show ?thesis by simp
next
  case (read_error ps err fm fs)
  from read_parts_ok [OF read_error(2) form_ok_empty assms(1,4)] assms(2) obtain ps' where
    "form_ok lib cfg (ce_stage env) (st_files (wo_store w)) ps' fm fs" by blast
  from unstage_temp [OF this assms(1), of fs x] show ?thesis by (simp add: read_error(3) unstage_def assms(3))
next
  case (form_error ps fm fs err)
  from read_parts_ok [OF form_error(2) form_ok_empty assms(1,4)] obtain ps' where
    "form_ok lib cfg (ce_stage env) (st_files (wo_store w)) ps' fm fs" by blast
  from unstage_temp [OF this assms(1), of fs x] show ?thesis by (simp add: form_error(4) unstage_def assms(3))
next
  case (tried ps fm fs inp r st1)
  from read_parts_ok [OF tried(2) form_ok_empty assms(1,4)] obtain ps' where
    ok: "form_ok lib cfg (ce_stage env) (st_files (wo_store w)) ps' fm fs" by blast
  have "ci_attachments inp = fm_pending fm"
    using tried(3) by (auto simp: finish_form_def Let_def split: if_split_asm)
  with create_temp [OF tried(4), of x] unstage_temp [OF ok assms(1), of "st_files st1" x] show ?thesis
    by (simp add: tried(5) unstage_def assms(3))
qed

section \<open>Limits\<close>

lemma finish_form_Inr:
  assumes "finish_form lib c key fm = Inr inp"
  shows "ci_text inp = fm_text fm" "ci_attachments inp = fm_pending fm" "ci_ttl inp = fm_ttl fm * day"
    "fm_ttl fm = 1 \<or> fm_ttl fm = 3 \<or> fm_ttl fm = 7" "day \<le> ci_ttl inp"
    "ci_key inp = [] \<or> ci_key inp = idempotency_hash lib c (trim_space key)"
  using assms by (auto simp: finish_form_def Let_def split: if_split_asm)

text \<open>
  What reaches the store respects the limits of the configuration: the text is valid
  UTF-8, the text and the files together have at most the bytes of one item, every file at
  most those of one attachment, there are no more files than allowed, each has a usable name
  and its true size, and the lifetime is one, three or seven days.
\<close>

theorem create_item_within_limits:
  assumes "fresh_names env fs0" "0 \<le> ac_max_attachment cfg" "0 \<le> ac_max_item cfg"
    and "read_parts lib cfg env evs empty_form fs0 = (None, fm, fs)"
    and "finish_form lib c key fm = Inr inp"
  shows "utf8_valid (ci_text inp) \<and>
         int (length (ci_text inp)) + (\<Sum>a\<leftarrow>ci_attachments inp. pa_size a) \<le> ac_max_item cfg \<and>
         length (ci_attachments inp) \<le> ac_max_attachments cfg \<and>
         map pa_size (ci_attachments inp) = map (\<lambda>p. int (length (pt_content p))) (file_parts evs) \<and>
         (\<forall>a \<in> set (ci_attachments inp). pa_size a \<le> ac_max_attachment cfg \<and> pa_name a \<noteq> [] \<and> length (pa_name a) \<le> 255) \<and>
         ci_ttl inp \<in> {day, 3 * day, 7 * day}"
proof -
  have ok: "form_ok lib cfg env fs0 (file_parts evs) fm fs" "fm_total fm \<le> ac_max_item cfg"
    using read_parts_ok [OF assms(4) form_ok_empty assms(1,2)] assms(3) by (auto simp: empty_form_def)
  note inp = finish_form_Inr [OF assms(5)]
  have len: "length (fm_pending fm) = length (file_parts evs)" using ok(1) by (simp add: form_ok_def)
  have st: "pa_size (fm_pending fm ! n) = int (length (pt_content (file_parts evs ! n)))"
    "pa_size (fm_pending fm ! n) \<le> ac_max_attachment cfg"
    "pa_name (fm_pending fm ! n) = sanitize_filename (pt_file (file_parts evs ! n))"
    if "n < length (file_parts evs)" for n
  proof -
    have "staged_part lib cfg env fs n (file_parts evs ! n) (fm_pending fm ! n)"
      using ok(1) that by (simp add: form_ok_def)
    then show "pa_size (fm_pending fm ! n) = int (length (pt_content (file_parts evs ! n)))"
      "pa_size (fm_pending fm ! n) \<le> ac_max_attachment cfg"
      "pa_name (fm_pending fm ! n) = sanitize_filename (pt_file (file_parts evs ! n))"
      by (simp_all add: staged_part_def)
  qed
  have sizes: "map pa_size (fm_pending fm) = map (\<lambda>p. int (length (pt_content p))) (file_parts evs)"
    using len st(1) by (intro nth_equalityI) simp_all
  have each: "\<forall>a \<in> set (fm_pending fm). pa_size a \<le> ac_max_attachment cfg \<and> pa_name a \<noteq> [] \<and> length (pa_name a) \<le> 255"
    unfolding all_set_conv_all_nth len
  proof (intro allI impI)
    fix n assume "n < length (file_parts evs)"
    from st(2,3) [OF this] sanitize_filename_bounds [of "pt_file (file_parts evs ! n)"]
    show "pa_size (fm_pending fm ! n) \<le> ac_max_attachment cfg \<and> pa_name (fm_pending fm ! n) \<noteq> [] \<and>
        length (pa_name (fm_pending fm ! n)) \<le> 255" by simp
  qed
  have count: "length (fm_pending fm) \<le> ac_max_attachments cfg" using ok(1) len by (simp add: form_ok_def)
  have fits: "utf8_valid (fm_text fm)"
    "int (length (fm_text fm)) + (\<Sum>a\<leftarrow>fm_pending fm. pa_size a) \<le> ac_max_item cfg"
    using ok by (simp_all add: form_ok_def)
  have ttl: "fm_ttl fm * day \<in> {day, 3 * day, 7 * day}" using inp(4) by (elim disjE) simp_all
  show ?thesis unfolding inp(1-3) by (intro conjI fits sizes each count ttl)
qed

section \<open>Uploading and downloading\<close>

lemma open_attachment_view:
  assumes "same_view st st'"
  shows "open_attachment f t st' aid = open_attachment f t st aid"
  using assms by (simp add: open_attachment_def same_view_def split: option.split)

lemma db_time_mono: "t \<le> t' \<Longrightarrow> db_time t \<le> db_time t'"
  by (simp add: db_time_def zdiv_mono1)

lemma form_uploads:
  assumes "form_ok lib cfg env fs0 ps fm fs" and "inj (se_name env)"
  shows "list_all (upload_ok (digest lib) fs) (fm_pending fm)" "distinct (map pa_path (fm_pending fm))"
proof -
  have len: "length (fm_pending fm) = length ps" using assms(1) by (simp add: form_ok_def)
  have st: "staged_part lib cfg env fs n (ps ! n) (fm_pending fm ! n)" if "n < length ps" for n
    using assms(1) that by (simp add: form_ok_def)
  have "upload_ok (digest lib) fs (fm_pending fm ! n)" if "n < length ps" for n
    using st [OF that] by (auto simp: upload_ok_def staged_part_def)
  then show "list_all (upload_ok (digest lib) fs) (fm_pending fm)"
    unfolding list_all_length len by blast
  have "map pa_path (fm_pending fm) = map (se_name env) [0..<length ps]"
    using st len by (intro nth_equalityI) (simp_all add: staged_part_def)
  then show "distinct (map pa_path (fm_pending fm))"
    using assms(2) by (simp add: distinct_map inj_on_def)
qed


text \<open>
  A browser does not run what was uploaded: a served attachment has none of the media
  types that carry scripts, comes with a sandbox policy, and is shown inline only when its
  stored type is an image other than SVG.
\<close>

theorem attachment_inert:
  assumes "get_attachment_api lib env aid download w = resp" and "status resp = 200"
  shows "\<exists>ct cd. map_of (headers resp) ''Content-Type'' = Some ct \<and> ct \<notin> set scriptable \<and>
           map_of (headers resp) ''Content-Security-Policy'' = Some (''sandbox; default-src '' @ [CHR 0x27] @ ''none'' @ [CHR 0x27]) \<and>
           map_of (headers resp) ''Content-Disposition'' = Some cd \<and>
           (has_prefix ''inline'' cd \<longrightarrow>
              (\<exists>a \<in> set (db_atts (st_db (wo_store w))). at_id a = aid \<and> has_prefix ''image/'' (at_media a) \<and>
                 at_media a \<noteq> ''image/svg+xml''))"
proof (cases "open_attachment (ce_read env) (ce_dbnow env) (wo_store w) aid")
  case (Inl e)
  with assms show ?thesis
    by (cases e) (auto simp: get_attachment_api_def write_error_def write_json_def)
next
  case (Inr ca)
  obtain content a where ca: "ca = (content, a)" by fastforce
  have a: "a \<in> set (db_atts (st_db (wo_store w)))" "at_id a = aid"
    using Inr unfolding ca open_attachment_def
    by (auto split: if_split_asm option.split_asm dest: find_Some_mem)
  define kind where "kind = (if download \<noteq> ''1'' \<and> has_prefix ''image/'' (at_media a) \<and> at_media a \<noteq> ''image/svg+xml''
      then ''inline'' else ''attachment'')"
  have resp: "resp = \<lparr>status = 200,
           headers = [(''Content-Type'', safe_media_type (dl_uni lib) (dl_media lib) (at_media a)),
                      (''Content-Disposition'', content_disposition kind (at_name a)),
                      (''Content-Security-Policy'', ''sandbox; default-src '' @ [CHR 0x27] @ ''none'' @ [CHR 0x27]),
                      (''Digest'', ''sha-256='' @ b64_padded (at_sha a)),
                      (''Cache-Control'', ''private, no-cache''), (''Vary'', ''Authorization'')],
           body = Some (Drop_bytes content)\<rparr>"
    using assms(1) Inr unfolding ca get_attachment_api_def kind_def Let_def by simp
  have "\<not> has_prefix ''inline'' (content_disposition ''attachment'' x)" for x
    by (simp add: content_disposition_def Let_def has_prefix_iff)
  then have inl: "has_prefix ''inline'' (content_disposition kind (at_name a)) \<longrightarrow>
      has_prefix ''image/'' (at_media a) \<and> at_media a \<noteq> ''image/svg+xml''"
    unfolding kind_def by (simp only: split: if_split) blast
  show ?thesis
    by (rule exI [of _ "safe_media_type (dl_uni lib) (dl_media lib) (at_media a)"],
        rule exI [of _ "content_disposition kind (at_name a)"])
      (use inl a safe_media_type_inert in \<open>auto simp: resp\<close>)
qed

end
