(* ===== verification/Drop_Api_Examples.thy ===== *)
theory Drop_Api_Examples
  imports Token Drop_Service Drop_Examples
begin

text \<open>
  A concrete request to the Drop API: a multipart body with a text and one file, sent with
  the token of the example issuer, and the download of the file.
\<close>

definition ex_drop_lib :: drop_lib where
  "ex_drop_lib = \<lparr>dl_sha = (\<lambda>_. replicate 32 CHR ''s''), dl_sniff = (\<lambda>_. ''text/plain''), dl_media = Some, dl_uni = id,
     dl_cursor = snd, dl_cursor_parse = (\<lambda>s. Some (1, s))\<rparr>"

definition ex_stage :: stage_env where
  "ex_stage = \<lparr>se_name = (\<lambda>n. replicate (Suc n) CHR ''u''), se_create = (\<lambda>_. False), se_write = (\<lambda>_. False),
     se_remove = (\<lambda>_. False)\<rparr>"

definition ex_env :: call_env where
  "ex_env = \<lparr>ce_now = 2000, ce_dbnow = 2000, ce_rid = ex_rid, ce_read = False, ce_exec = False,
     ce_create = no_create_faults, ce_delete = no_delete_faults, ce_stage = ex_stage, ce_unstage = (\<lambda>_. False)\<rparr>"

definition ex_world :: world where
  "ex_world = \<lparr>wo_store = empty_store 1000, wo_hub = [(1, False)]\<rparr>"

definition ex_text_part :: part where
  "ex_text_part = \<lparr>pt_form = ''text'', pt_file = [], pt_type = [], pt_content = ''hi'', pt_broken = False\<rparr>"

definition ex_file_part :: part where
  "ex_file_part = \<lparr>pt_form = ''files'', pt_file = ''a.txt'', pt_type = ''image/png'', pt_content = ''abc'', pt_broken = False\<rparr>"

definition ex_parts :: "part_event list" where
  "ex_parts = [Part ex_text_part, Part ex_file_part]"

definition ex_form :: form where
  "ex_form = \<lparr>fm_text = ''hi'', fm_ttl = 1, fm_seen_text = True, fm_seen_ttl = False,
     fm_pending = [\<lparr>pa_path = ''u'', pa_name = ''a.txt'', pa_media = ''image/png'', pa_size = 3,
                    pa_sha = replicate 32 CHR ''s''\<rparr>], fm_total = 5\<rparr>"

definition ex_files :: files where
  "ex_files = [Temp ''u'' \<mapsto> ''abc'']"

lemma ex_digest [simp]: "digest ex_drop_lib s = replicate 32 CHR ''s''"
  by (simp add: digest_def ex_drop_lib_def)

lemma ex_name: "sanitize_filename ''a.txt'' = ''a.txt''"
proof -
  have "path_base (replace_char (CHR 0x5C) CHR ''/'' ''a.txt'') = ''a.txt''"
    by (simp add: path_base_def replace_char_def trim_right_char_def after_last_def)
  moreover have "map_runes mask_control ''a.txt'' = ''a.txt''"
    by (simp add: map_runes_def runes_Cons mask_control_def is_control_def encode_rune_def
        char_eq_byte byte_char_of)
  moreover have "trim_space ''a.txt'' = ''a.txt''"
    by (rule trim_space_graphic) (simp_all add: graphic_def in_range_def)
  ultimately show ?thesis by (simp add: sanitize_filename_def Let_def shorten.simps)
qed

lemma ex_media: "media_of_part ex_drop_lib ex_file_part ''abc'' = ''image/png''"
proof -
  have "trim_space ''image/png'' = ''image/png''"
    by (rule trim_space_graphic) (simp_all add: graphic_def in_range_def)
  then show ?thesis
    by (simp add: media_of_part_def ex_file_part_def octet_stream_def safe_media_type_def ex_drop_lib_def
        to_lower_def ascii_lower_def char_class_defs scriptable_def is_ascii_def)
qed

lemma ex_read: "read_parts ex_drop_lib default_config ex_stage ex_parts empty_form Map.empty = (None, ex_form, ex_files)"
proof -
  have "read_part ex_drop_lib default_config ex_stage ex_text_part empty_form Map.empty =
      (Inr (empty_form\<lparr>fm_seen_text := True, fm_text := ''hi'', fm_total := 2\<rparr>), Map.empty)"
    by (simp add: read_part_def ex_text_part_def empty_form_def read_limited_def default_config_def utf8_valid_def runes_Cons)
  moreover have "stage_attachment ex_drop_lib default_config ex_stage 0 ex_file_part Map.empty =
      (Inr \<lparr>pa_path = ''u'', pa_name = ''a.txt'', pa_media = ''image/png'', pa_size = 3,
            pa_sha = replicate 32 CHR ''s''\<rparr>, ex_files)"
    using ex_name ex_media
    by (simp add: stage_attachment_def ex_stage_def read_limited_def default_config_def ex_file_part_def ex_files_def Let_def)
  then have "read_part ex_drop_lib default_config ex_stage ex_file_part
        (empty_form\<lparr>fm_seen_text := True, fm_text := ''hi'', fm_total := 2\<rparr>) Map.empty = (Inr ex_form, ex_files)"
    by (simp add: read_part_def empty_form_def ex_form_def) (simp add: ex_file_part_def default_config_def)
  ultimately show ?thesis
    by (simp add: ex_parts_def) (simp add: empty_form_def ex_form_def default_config_def)
qed

definition ex_item_input :: create_input where
  "ex_item_input = \<lparr>ci_text = ''hi'', ci_creator = ''human:luna'', ci_actor = ''human:luna'', ci_ttl = day, ci_key = [],
     ci_attachments = fm_pending ex_form\<rparr>"

lemma ex_finish: "finish_form ex_drop_lib ex_claims [] ex_form = Inr ex_item_input"
  by (simp add: finish_form_def ex_form_def ex_item_input_def ex_claims_def build_claims_def ex_request_def effective_actor_def)

definition ex_drop_item :: item where
  "ex_drop_item = created_item ex_rid 2000 5 ex_item_input"

definition ex_new_store :: store where
  "ex_new_store = \<lparr>st_db = \<lparr>db_items = [row_of_item ex_drop_item], db_atts = map stored (it_attachments ex_drop_item),
       db_keys = []\<rparr>, st_files = [Blob ''blob-rrr'' \<mapsto> ''abc''], st_quota = 1000\<rparr>"

lemma ex_luna: "pg_text ''human:luna''" "pg_text ''image/png''"
  by (simp_all add: pg_text_def utf8_valid_def runes_Cons)

lemma ex_item_create:
  "create id no_create_faults 2000 2000 ex_rid ((empty_store 1000)\<lparr>st_files := ex_files\<rparr>) ex_item_input =
     (Inr ex_drop_item, ex_new_store)"
  by (simp add: create_eq valid_input_def ex_item_input_def empty_store_def ex_files_def wrap64_def existing_item_def
      no_create_faults_def used_bytes_def create_new_def ex_text ex_luna ex_form_def new_item_def move_uploads_step
      new_attachment_def rename_file_def write_rows_def insert_item_def row_of_item_def item_ids_def db_time_def
      insert_attachment_def ex_new_store_def ex_drop_item_def created_item_def stored_def ex_rid_def
      eval_nat_numeral Let_def fun_upd_twist)

lemma ex_unstage: "remove_pending (\<lambda>_. False) 0 (fm_pending ex_form) (st_files ex_new_store) = st_files ex_new_store"
  by (simp add: ex_form_def remove_file_def ex_new_store_def)

lemma ex_create_item:
  "create_item ex_drop_lib default_config id ex_env ex_claims 100 (Some ex_parts) [] ex_world =
     (write_json 201 (Drop_item (item_response ex_drop_item)), \<lparr>wo_store = ex_new_store, wo_hub = [(1, True)]\<rparr>)"
proof -
  have env: "ce_stage ex_env = ex_stage" "ce_create ex_env = no_create_faults" "ce_now ex_env = 2000"
    "ce_dbnow ex_env = 2000" "ce_rid ex_env = ex_rid" "ce_unstage ex_env = (\<lambda>_. False)"
    "wo_store ex_world = empty_store 1000" "st_files (empty_store 1000) = Map.empty"
    "(100 > ac_max_item default_config + multipart_overhead) = False"
    by (simp_all add: ex_env_def ex_world_def empty_store_def default_config_def multipart_overhead_def)
  show ?thesis
    unfolding create_item_def env ex_read prod.case Let_def option.case if_False ex_finish sum.case ex_item_create
      ex_unstage
    by (simp add: ex_world_def publish_def)
qed

lemma ex_world_ok: "store_ok (digest ex_drop_lib) (wo_store ex_world)"
  by (simp add: ex_world_def ex_empty_ok)

lemma ex_names: "fresh_names ex_stage Map.empty"
  by (auto simp: fresh_names_def ex_stage_def inj_def dest: arg_cong [of _ _ length])

lemma ex_env_facts:
  "fresh_ids (ce_rid ex_env) (wo_store ex_world)" "calm_create (ce_create ex_env)" "ce_unstage ex_env = (\<lambda>_. False)"
  "fresh_names (ce_stage ex_env) (st_files (wo_store ex_world))" "0 < st_quota (wo_store ex_world)"
  "st_quota (wo_store ex_world) < 2 ^ 63"
  using ex_names ex_calm(1)
  by (simp_all add: fresh_ids_def ex_env_def ex_rid_inj ex_world_def empty_store_def)

lemma ex_limits: "0 \<le> ac_max_attachment default_config" "0 \<le> ac_max_item default_config" "ac_max_item default_config < 2 ^ 63"
  by (simp_all add: default_config_def)

lemma ex_bearer: "bearer_token ex_http = Inr ex_token"
  using issued_token_graphic [OF ex_issue] by (intro bearer_token_graphic) (auto simp: ex_http_def)

lemma ex_allows: "allows ex_claims ''drop.item.create''"
  by (simp add: allows_iff ex_claims_def build_claims_def)

definition ex_drop_verifier :: "(string \<Rightarrow> identity_error + claims) option" where
  "ex_drop_verifier = Some (verify ex_lib ex_verifier (1050 * second))"

lemma ex_serve:
  "serve_drop ex_drop_lib default_config id ex_drop_verifier ex_env ex_http (Post_items 100 (Some ex_parts) []) ex_world =
     (write_json 201 (Drop_item (item_response ex_drop_item)), \<lparr>wo_store = ex_new_store, wo_hub = [(1, True)]\<rparr>)"
  using ex_bearer ex_verify ex_allows ex_create_item
  by (simp add: serve_drop_def authenticate_drop_def ex_drop_verifier_def)


theorem create_item_no_leftovers_witness: "st_files ex_new_store (Temp ''u'') = None"
  using create_item_no_leftovers [OF ex_env_facts(4) _ ex_env_facts(3) ex_limits(1) ex_create_item, of "''u''"]
  by (simp add: ex_env_def ex_stage_def ex_world_def empty_store_def)

theorem create_item_within_limits_witness: "length (ci_attachments ex_item_input) \<le> 10"
  using create_item_within_limits [OF ex_names ex_limits(1,2) ex_read ex_finish] by (simp add: default_config_def)


lemma ex_serve_file:
  "status (get_attachment_api ex_drop_lib ex_env ''rr'' [] \<lparr>wo_store = ex_new_store, wo_hub = []\<rparr>) = 200"
proof -
  have "open_attachment False 2000 ex_new_store ''rr'' = Inr (''abc'', stored (it_attachments ex_drop_item ! 0))"
    by (simp add: open_attachment_def find_active_def ex_new_store_def ex_drop_item_def ex_item_input_def ex_form_def
        new_attachment_def ex_rid_def row_of_item_def created_item_def new_item_def db_time_def stored_def eval_nat_numeral)
  then show ?thesis by (simp add: get_attachment_api_def ex_env_def Let_def)
qed

theorem attachment_inert_witness:
  "\<exists>ct. map_of (headers (get_attachment_api ex_drop_lib ex_env ''rr'' [] \<lparr>wo_store = ex_new_store, wo_hub = []\<rparr>))
           ''Content-Type'' = Some ct \<and> ct \<notin> set scriptable"
  using attachment_inert [OF refl ex_serve_file] by blast

end
