(* ===== verification/Bridge.thy ===== *)
theory Bridge
  imports Go_Encoding
begin

text \<open>
  \<open>services/telegram-bridge\<close>: the Telegram message types, the configuration with its allow
  list, and the bridge that turns an update into at most one item of Drop.

  The clients of Telegram are a record of their answers to one update (\<open>tg_env\<close>), the Drop
  client is an argument \<open>put\<close> on a state of its own, and the calls made are recorded in
  order (\<open>tg_call\<close>).
\<close>

section \<open>Messages\<close>

record tg_user =
  us_id :: int
  us_bot :: bool
  us_first :: string
  us_last :: string
  us_name :: string

record tg_chat =
  ch_id :: int
  ch_type :: string
  ch_title :: string
  ch_name :: string
  ch_first :: string
  ch_last :: string

record photo_size =
  ph_file :: string
  ph_width :: int
  ph_height :: int
  ph_size :: int

record file_media =
  fi_file :: string
  fi_name :: string
  fi_mime :: string
  fi_size :: int

record sticker =
  sk_file :: string
  sk_animated :: bool
  sk_video :: bool
  sk_size :: int

record message =
  ms_id :: int
  ms_from :: "tg_user option"
  ms_sender_chat :: "tg_chat option"
  ms_chat :: tg_chat
  ms_text :: string
  ms_caption :: string
  ms_photo :: "photo_size list"
  ms_animation :: "file_media option"
  ms_audio :: "file_media option"
  ms_document :: "file_media option"
  ms_video :: "file_media option"
  ms_voice :: "file_media option"
  ms_video_note :: "file_media option"
  ms_sticker :: "sticker option"

record update =
  up_id :: int
  up_message :: "message option"
  up_channel_post :: "message option"

definition content :: "update \<Rightarrow> message option" where
  "content u = (case up_message u of Some m \<Rightarrow> Some m | None \<Rightarrow> up_channel_post u)"

section \<open>Configuration\<close>

record bridge_config =
  bc_users :: "int list"
  bc_chats :: "int list"
  bc_ttl :: int
  bc_ack :: string
  bc_max_file :: int

definition allowed :: "bridge_config \<Rightarrow> int \<Rightarrow> int \<Rightarrow> bool" where
  "allowed cfg user chat \<longleftrightarrow> chat \<in> set (bc_chats cfg) \<or> user \<in> set (bc_users cfg)"

fun parse_id_list :: "string list \<Rightarrow> int list \<Rightarrow> int list option" where
  "parse_id_list [] acc = Some acc"
| "parse_id_list (raw # rest) acc =
     (let r = trim_space raw in
      if r = [] then parse_id_list rest acc
      else case parse_int r of
        None \<Rightarrow> None
      | Some n \<Rightarrow> if n = 0 then None else parse_id_list rest (List.insert n acc))"

definition parse_ids :: "string \<Rightarrow> int list option" where
  "parse_ids v = parse_id_list (split_on CHR '','' v) []"

definition env_or :: "(string \<Rightarrow> string) \<Rightarrow> string \<Rightarrow> string \<Rightarrow> string" where
  "env_or env name fallback = (let v = trim_space (env name) in if v \<noteq> [] then v else fallback)"

definition read_secret :: "(string \<Rightarrow> string option) \<Rightarrow> string \<Rightarrow> string option" where
  "read_secret file p =
     (case file p of
        None \<Rightarrow> None
      | Some v \<Rightarrow> let s = trim_space v in if s = [] then None else Some s)"

text \<open>\<open>Load\<close> without the addresses; \<open>env\<close> is the environment and \<open>file\<close> the secret files.\<close>

definition load_config :: "(string \<Rightarrow> string) \<Rightarrow> (string \<Rightarrow> string option) \<Rightarrow> bridge_config option" where
  "load_config env file =
     (case read_secret file (env_or env ''TELEGRAM_BRIDGE_BOT_TOKEN_FILE'' ''/run/secrets/telegram_bot_token'') of
        None \<Rightarrow> None
      | Some _ \<Rightarrow>
     (case read_secret file (env_or env ''TELEGRAM_BRIDGE_IAM_CREDENTIAL_FILE'' ''/run/secrets/iam_machine_credential'') of
        None \<Rightarrow> None
      | Some _ \<Rightarrow>
     (case parse_ids (env ''TELEGRAM_BRIDGE_ALLOWED_USER_IDS'') of
        None \<Rightarrow> None
      | Some users \<Rightarrow>
     (case parse_ids (env ''TELEGRAM_BRIDGE_ALLOWED_CHAT_IDS'') of
        None \<Rightarrow> None
      | Some chats \<Rightarrow>
     (case parse_int (env_or env ''TELEGRAM_BRIDGE_TTL_DAYS'' ''1'') of
        None \<Rightarrow> None
      | Some ttl \<Rightarrow>
          if ttl \<noteq> 1 \<and> ttl \<noteq> 3 \<and> ttl \<noteq> 7 then None
          else let ack = env_or env ''TELEGRAM_BRIDGE_ACK_MODE'' ''private'' in
            if ack \<noteq> ''none'' \<and> ack \<noteq> ''private'' \<and> ack \<noteq> ''all'' then None
            else Some \<lparr>bc_users = users, bc_chats = chats, bc_ttl = ttl, bc_ack = ack,
                       bc_max_file = 20 * 2 ^ 20\<rparr>)))))"

section \<open>From a message to an item\<close>

definition parse_command :: "(string \<Rightarrow> string) \<Rightarrow> string \<Rightarrow> string" where
  "parse_command uni t =
     (let first = fst (cut_at CHR '' '' (trim_space t)) in
      if \<not> has_prefix ''/'' first then []
      else to_lower uni (fst (cut_at CHR ''@'' (trim_prefix ''/'' first))))"

definition chat_name :: "tg_chat \<Rightarrow> string" where
  "chat_name c =
     (if ch_title c \<noteq> [] then ch_title c
      else if ch_name c \<noteq> [] then ''@'' @ ch_name c
      else trim_space (ch_first c @ '' '' @ ch_last c))"

definition sender_name :: "message \<Rightarrow> string" where
  "sender_name m =
     (case ms_from m of
        Some u \<Rightarrow> if us_name u \<noteq> [] then ''@'' @ us_name u else trim_space (us_first u @ '' '' @ us_last u)
      | None \<Rightarrow> (case ms_sender_chat m of Some c \<Rightarrow> chat_name c | None \<Rightarrow> []))"

text \<open>The middle dot of the prefix is two bytes of UTF-8.\<close>

definition dot_separator :: string where "dot_separator = '' '' @ [CHR 0xC2, CHR 0xB7] @ '' ''"

definition format_text :: "message \<Rightarrow> string" where
  "format_text m =
     (let t = trim_space (if ms_text m = [] then ms_caption m else ms_text m) in
      if ch_type (ms_chat m) = ''private'' then t
      else
        let chat = chat_name (ms_chat m); sender = sender_name m;
            prefix = ''Telegram'' @ (if chat \<noteq> [] then dot_separator @ chat else []) @
                     (if sender \<noteq> [] then dot_separator @ sender else [])
        in if t = [] then prefix else prefix @ [CHR 0x0A, CHR 0x0A] @ t)"

record media =
  md_file :: string
  md_size :: int
  md_name :: string
  md_type :: string

text \<open>The photo loop: 64-bit products, the later of equals loses.\<close>

definition better_photo :: "photo_size \<Rightarrow> photo_size \<Rightarrow> bool" where
  "better_photo c p \<longleftrightarrow>
     ph_size c > ph_size p \<or>
     (ph_size c = ph_size p \<and> wrap64 (ph_width c * ph_height c) > wrap64 (ph_width p * ph_height p))"

fun best_photo :: "photo_size \<Rightarrow> photo_size list \<Rightarrow> photo_size" where
  "best_photo p [] = p"
| "best_photo p (c # cs) = best_photo (if better_photo c p then c else p) cs"

definition file_base :: "string \<Rightarrow> string" where "file_base = path_base"

definition media_of_file :: "file_media \<Rightarrow> string \<Rightarrow> string \<Rightarrow> media" where
  "media_of_file f fallback_name fallback_type =
     (let base = file_base (trim_space (fi_name f));
          mime = trim_space (fi_mime f)
      in \<lparr>md_file = fi_file f, md_size = fi_size f,
          md_name = (if base = ''.'' \<or> base = [] then fallback_name else base),
          md_type = (if mime = [] then fallback_type else mime)\<rparr>)"

definition select_media :: "message \<Rightarrow> media option" where
  "select_media m =
     (let n = itoa (ms_id m) in
      case ms_photo m of
        p # ps \<Rightarrow>
          let best = best_photo p ps in
          Some \<lparr>md_file = ph_file best, md_size = ph_size best, md_name = ''telegram-photo-'' @ n @ ''.jpg'',
                md_type = ''image/jpeg''\<rparr>
      | [] \<Rightarrow>
      (case ms_animation m of Some f \<Rightarrow> Some (media_of_file f (''animation-'' @ n @ ''.mp4'') ''video/mp4'') | None \<Rightarrow>
      (case ms_document m of Some f \<Rightarrow> Some (media_of_file f (''document-'' @ n) ''application/octet-stream'') | None \<Rightarrow>
      (case ms_video m of Some f \<Rightarrow> Some (media_of_file f (''video-'' @ n @ ''.mp4'') ''video/mp4'') | None \<Rightarrow>
      (case ms_audio m of Some f \<Rightarrow> Some (media_of_file f (''audio-'' @ n @ ''.mp3'') ''audio/mpeg'') | None \<Rightarrow>
      (case ms_voice m of Some f \<Rightarrow> Some (media_of_file f (''voice-'' @ n @ ''.ogg'') ''audio/ogg'') | None \<Rightarrow>
      (case ms_video_note m of Some f \<Rightarrow> Some (media_of_file f (''video-note-'' @ n @ ''.mp4'') ''video/mp4'') | None \<Rightarrow>
      (case ms_sticker m of
         Some s \<Rightarrow>
           Some \<lparr>md_file = sk_file s, md_size = sk_size s,
                 md_name = ''sticker-'' @ n @
                   (if sk_animated s then ''.tgs'' else if sk_video s then ''.webm'' else ''.webp''),
                 md_type = (if sk_animated s then ''application/x-tgsticker''
                            else if sk_video s then ''video/webm'' else ''image/webp'')\<rparr>
       | None \<Rightarrow> None))))))))"

record drop_attachment =
  da_name :: string
  da_type :: string
  da_content :: string
  da_broken :: bool

record drop_input =
  di_text :: string
  di_ttl :: int
  di_key :: string
  di_attachment :: "drop_attachment option"

definition idempotency_key :: "int \<Rightarrow> int \<Rightarrow> int \<Rightarrow> string" where
  "idempotency_key botid chat msg = ''telegram:'' @ itoa botid @ '':'' @ itoa chat @ '':'' @ itoa msg"

section \<open>Handling an update\<close>

datatype tg_call =
    Call_get_file string
  | Call_download string
  | Call_create drop_input
  | Call_send int int string

text \<open>
  The answers to one update: the size and path of a file, the bytes of a download and whether
  it breaks off, and which of the (at most one) messages can be sent. Replies are named, their
  text is not modelled.
\<close>

record tg_env =
  te_file :: "string \<Rightarrow> (int \<times> string) option"
  te_download :: "string \<Rightarrow> (string \<times> bool) option"
  te_send :: bool

type_synonym 's outcome = "bool \<times> tg_call list \<times> 's"

definition send_message :: "tg_env \<Rightarrow> message \<Rightarrow> string \<Rightarrow> tg_call list \<Rightarrow> 's \<Rightarrow> 's outcome" where
  "send_message env m t calls s = (te_send env, calls @ [Call_send (ch_id (ms_chat m)) (ms_id m) t], s)"

definition reply :: "bridge_config \<Rightarrow> tg_env \<Rightarrow> message \<Rightarrow> string \<Rightarrow> bool \<Rightarrow> tg_call list \<Rightarrow> 's \<Rightarrow> 's outcome" where
  "reply cfg env m t force calls s =
     (if \<not> force \<and> (bc_ack cfg = ''none'' \<or> (bc_ack cfg = ''private'' \<and> ch_type (ms_chat m) \<noteq> ''private''))
      then (True, calls, s)
      else send_message env m t calls s)"

definition from_id :: "message \<Rightarrow> int" where
  "from_id m = (case ms_from m of None \<Rightarrow> 0 | Some u \<Rightarrow> us_id u)"

definition handle_command :: "tg_env \<Rightarrow> message \<Rightarrow> string \<Rightarrow> 's \<Rightarrow> 's outcome" where
  "handle_command env m cmd s =
     (if cmd = ''start'' \<or> cmd = ''help'' then send_message env m ''help'' [] s
      else if cmd = ''whoami'' then
        send_message env m (''user_id: '' @ itoa (from_id m) @ [CHR 0x0A] @ ''chat_id: '' @ itoa (ch_id (ms_chat m)) @
          [CHR 0x0A] @ ''chat_type: '' @ ch_type (ms_chat m)) [] s
      else (True, [], s))"

text \<open>The item for a message and the attachment fetched for it.\<close>

definition message_input :: "bridge_config \<Rightarrow> int \<Rightarrow> message \<Rightarrow> drop_attachment option \<Rightarrow> drop_input" where
  "message_input cfg botid m att =
     \<lparr>di_text = format_text m, di_ttl = bc_ttl cfg,
      di_key = idempotency_key botid (ch_id (ms_chat m)) (ms_id m), di_attachment = att\<rparr>"

definition forward ::
  "bridge_config \<Rightarrow> int \<Rightarrow> tg_env \<Rightarrow> (drop_input \<Rightarrow> 's \<Rightarrow> string option \<times> 's) \<Rightarrow> message \<Rightarrow>
   drop_attachment option \<Rightarrow> tg_call list \<Rightarrow> 's \<Rightarrow> 's outcome" where
  "forward cfg botid env put m att calls s =
     (let inp = message_input cfg botid m att in
      case put inp s of
        (None, s') \<Rightarrow> (False, calls @ [Call_create inp], s')
      | (Some _, s') \<Rightarrow> reply cfg env m ''forwarded'' False (calls @ [Call_create inp]) s')"

definition handle_update ::
  "(string \<Rightarrow> string) \<Rightarrow> bridge_config \<Rightarrow> int \<Rightarrow> tg_env \<Rightarrow> (drop_input \<Rightarrow> 's \<Rightarrow> string option \<times> 's) \<Rightarrow>
   update \<Rightarrow> 's \<Rightarrow> 's outcome" where
  "handle_update uni cfg botid env put u s =
     (case content u of
        None \<Rightarrow> (True, [], s)
      | Some m \<Rightarrow>
          if parse_command uni (ms_text m) \<noteq> [] then handle_command env m (parse_command uni (ms_text m)) s
          else if \<not> allowed cfg (from_id m) (ch_id (ms_chat m)) then (True, [], s)
          else
            (case select_media m of
               None \<Rightarrow>
                 if trim_space (ms_text m) = [] \<and> trim_space (ms_caption m) = []
                 then reply cfg env m ''unsupported'' True [] s
                 else forward cfg botid env put m None [] s
             | Some md \<Rightarrow>
                 if md_size md > bc_max_file cfg then reply cfg env m ''too large'' True [] s
                 else
                   (case te_file env (md_file md) of
                      None \<Rightarrow> (False, [Call_get_file (md_file md)], s)
                    | Some (len, path) \<Rightarrow>
                        if len > bc_max_file cfg then reply cfg env m ''too large'' True [Call_get_file (md_file md)] s
                        else
                          (case te_download env path of
                             None \<Rightarrow> (False, [Call_get_file (md_file md), Call_download path], s)
                           | Some (bytes, broken) \<Rightarrow>
                               forward cfg botid env put m
                                 (Some \<lparr>da_name = md_name md, da_type = md_type md, da_content = bytes, da_broken = broken\<rparr>)
                                 [Call_get_file (md_file md), Call_download path] s))))"

section \<open>The polling loop\<close>

text \<open>
  Iteration \<open>n\<close> of the loop polls with the current offset and handles the updates it gets;
  \<open>poll\<close> and \<open>handle\<close> are the two as functions of the iteration. The loop ends when the
  context is cancelled, here after \<open>fuel\<close> iterations. The pauses are listed.
\<close>

record run_state =
  rs_offset :: int
  rs_backoff :: duration
  rs_pauses :: "duration list"
  rs_handled :: "(update \<times> bool) list"

definition double_backoff :: "duration \<Rightarrow> duration" where
  "double_backoff b = min (b * 2) (30 * second)"

fun run_batch ::
  "(update \<Rightarrow> 's \<Rightarrow> bool \<times> 's) \<Rightarrow> update list \<Rightarrow> run_state \<Rightarrow> 's \<Rightarrow> run_state \<times> 's" where
  "run_batch handle [] r s = (r, s)"
| "run_batch handle (u # us) r s =
     (case handle u s of
        (False, s') \<Rightarrow>
          (r\<lparr>rs_handled := rs_handled r @ [(u, False)], rs_pauses := rs_pauses r @ [rs_backoff r],
             rs_backoff := double_backoff (rs_backoff r)\<rparr>, s')
      | (True, s') \<Rightarrow>
          run_batch handle us
            (r\<lparr>rs_handled := rs_handled r @ [(u, True)],
               rs_offset := (if up_id u \<ge> rs_offset r then wrap64 (up_id u + 1) else rs_offset r)\<rparr>) s')"

fun run ::
  "(nat \<Rightarrow> int \<Rightarrow> update list option) \<Rightarrow> (nat \<Rightarrow> update \<Rightarrow> 's \<Rightarrow> bool \<times> 's) \<Rightarrow> nat \<Rightarrow> nat \<Rightarrow>
   run_state \<Rightarrow> 's \<Rightarrow> run_state \<times> 's" where
  "run poll handle n 0 r s = (r, s)"
| "run poll handle n (Suc fuel) r s =
     (case poll n (rs_offset r) of
        None \<Rightarrow>
          run poll handle (Suc n) fuel
            (r\<lparr>rs_pauses := rs_pauses r @ [rs_backoff r], rs_backoff := double_backoff (rs_backoff r)\<rparr>) s
      | Some us \<Rightarrow>
          (case run_batch (handle n) us (r\<lparr>rs_backoff := second\<rparr>) s of
             (r', s') \<Rightarrow> run poll handle (Suc n) fuel r' s'))"

definition start_state :: run_state where
  "start_state = \<lparr>rs_offset = 0, rs_backoff = second, rs_pauses = [], rs_handled = []\<rparr>"

end
