(* ===== verification/Bridge_Safety.thy ===== *)
theory Bridge_Safety
  imports Bridge
begin

text \<open>
  What the Telegram bridge guarantees: only allowed users and chats reach Drop, an update is
  acknowledged only after it was handled, and, for any Drop that recognises idempotency keys
  (locale \<open>item_sink\<close>), a message delivered again does not make a second item.
\<close>

section \<open>The allow list\<close>

lemma reply_state: "reply cfg env m t force calls s = (ok, calls', s') \<Longrightarrow> s' = s \<and>
    (\<forall>inp. Call_create inp \<in> set calls' \<longrightarrow> Call_create inp \<in> set calls)"
  by (auto simp: reply_def send_message_def split: if_split_asm)

lemma handle_command_state: "handle_command env m cmd s = (ok, calls, s') \<Longrightarrow> s' = s \<and>
    (\<forall>inp. Call_create inp \<notin> set calls)"
  by (auto simp: handle_command_def send_message_def split: if_split_asm)

lemma forward_state:
  assumes "forward cfg bid env put m att calls s = (ok, calls', s')"
    and "\<forall>inp. Call_create inp \<notin> set calls"
  shows "s' = snd (put (message_input cfg bid m att) s) \<and>
         (\<forall>inp. Call_create inp \<in> set calls' \<longrightarrow> inp = message_input cfg bid m att) \<and>
         (ok \<longrightarrow> fst (put (message_input cfg bid m att) s) \<noteq> None)"
proof -
  obtain r s1 where p: "put (message_input cfg bid m att) s = (r, s1)" by fastforce
  show ?thesis
  proof (cases r)
    case None
    with assms p show ?thesis by (auto simp: forward_def)
  next
    case (Some i)
    with assms p reply_state show ?thesis
      by (fastforce simp: forward_def dest: reply_state)
  qed
qed

text \<open>The three ways an update is handled.\<close>

lemma handle_update_cases:
  assumes "handle_update uni cfg bid env put u s = (ok, calls, s')"
  obtains (quiet) "s' = s" "\<forall>inp. Call_create inp \<notin> set calls"
      "\<And>m. content u = Some m \<Longrightarrow> parse_command uni (ms_text m) = [] \<Longrightarrow>
         \<not> allowed cfg (from_id m) (ch_id (ms_chat m)) \<Longrightarrow> calls = [] \<and> ok"
  | (forwarded) m att where "content u = Some m" "parse_command uni (ms_text m) = []"
      "allowed cfg (from_id m) (ch_id (ms_chat m))" "s' = snd (put (message_input cfg bid m att) s)"
      "\<forall>inp. Call_create inp \<in> set calls \<longrightarrow> inp = message_input cfg bid m att"
      "ok \<Longrightarrow> fst (put (message_input cfg bid m att) s) \<noteq> None"
proof (cases "content u")
  case None
  with assms show ?thesis by (intro quiet) (auto simp: handle_update_def)
next
  case m: (Some m)
  show ?thesis
  proof (cases "parse_command uni (ms_text m) \<noteq> []")
    case True
    with assms m have "handle_command env m (parse_command uni (ms_text m)) s = (ok, calls, s')"
      by (simp add: handle_update_def)
    with handle_command_state [OF this] m True show ?thesis by (intro quiet) auto
  next
    case cmd: False
    show ?thesis
    proof (cases "allowed cfg (from_id m) (ch_id (ms_chat m))")
      case False
      with assms m cmd show ?thesis by (intro quiet) (auto simp: handle_update_def)
    next
      case al: True
      have q: thesis if "s' = s" "\<forall>inp. Call_create inp \<notin> set calls"
        using that m al by (intro quiet) auto
      have r: thesis if "reply cfg env m t force cs s = (ok, calls, s')" "\<forall>inp. Call_create inp \<notin> set cs"
        for t force cs using reply_state [OF that(1)] that(2) by (intro q) auto
      have f: thesis if "forward cfg bid env put m att cs s = (ok, calls, s')" "\<forall>inp. Call_create inp \<notin> set cs"
        for att cs using forward_state [OF that] m cmd al by (intro forwarded [of m att]) auto
      have nal: "\<not> \<not> allowed cfg (from_id m) (ch_id (ms_chat m))" using al by simp
      note body = assms [unfolded handle_update_def m option.case if_not_P [OF cmd] if_not_P [OF nal]]
      show ?thesis
      proof (cases "select_media m")
        case None
        with body r f show ?thesis by (simp split: if_split_asm)
      next
        case (Some md)
        note body = body [unfolded Some option.case]
        show ?thesis
        proof (cases "md_size md > bc_max_file cfg")
          case True
          with body r show ?thesis by simp
        next
          case False
          note body = body [unfolded if_not_P [OF False]]
          show ?thesis
          proof (cases "te_file env (md_file md)")
            case None
            with body show ?thesis by (intro q) auto
          next
            case (Some sp)
            obtain len path where sp: "sp = (len, path)" by fastforce
            note body = body [unfolded Some sp option.case prod.case]
            show ?thesis
            proof (cases "len > bc_max_file cfg")
              case True
              with body r show ?thesis by simp
            next
              case len: False
              show ?thesis
              proof (cases "te_download env path")
                case None
                with body len show ?thesis by (intro q) auto
              next
                case (Some d)
                with body len f show ?thesis by (cases d) simp
              qed
            qed
          qed
        qed
      qed
    qed
  qed
qed


section \<open>Idempotency keys\<close>

lemma itoa_colon: "CHR '':'' \<notin> set (itoa n)"
proof
  assume "CHR '':'' \<in> set (itoa n)"
  from itoa_chars [OF this] show False by (auto simp: char_class_defs)
qed

text \<open>
  The idempotency key of a message identifies it: two messages of 64-bit identifiers have
  the same key only if bot, chat and message are the same.
\<close>

theorem idempotency_key_unique:
  assumes "in_int64 b" "in_int64 b'" "in_int64 c" "in_int64 c'" "in_int64 m" "in_int64 m'"
    and "idempotency_key b c m = idempotency_key b' c' m'"
  shows "b = b' \<and> c = c' \<and> m = m'"
proof -
  have "itoa b @ CHR '':'' # itoa c @ CHR '':'' # itoa m = itoa b' @ CHR '':'' # itoa c' @ CHR '':'' # itoa m'"
    using assms(7) by (simp add: idempotency_key_def)
  then have "split_on CHR '':'' (itoa b @ CHR '':'' # itoa c @ CHR '':'' # itoa m) =
      split_on CHR '':'' (itoa b' @ CHR '':'' # itoa c' @ CHR '':'' # itoa m')" by (rule arg_cong)
  then have "itoa b = itoa b'" "itoa c = itoa c'" "itoa m = itoa m'"
    by (simp_all add: split_on_append split_on_none itoa_colon)
  with assms(1-6) itoa_inj show ?thesis by blast
qed

section \<open>Acknowledging\<close>

text \<open>
  One batch: the offset moves only past handled updates, and of a batch in increasing order
  every update before the last handled one was handled.
\<close>

lemma run_batch_spec:
  assumes "run_batch handle us r s = (r', s')" and "\<forall>u \<in> set us. in_int64 (up_id u + 1)"
    and "sorted_wrt (<) (map up_id us)"
  shows "\<exists>hs. rs_handled r' = rs_handled r @ hs \<and> (\<forall>h \<in> set hs. fst h \<in> set us) \<and>
           (rs_offset r' = rs_offset r \<or> (\<exists>u. (u, True) \<in> set hs \<and> rs_offset r' = up_id u + 1)) \<and>
           (\<forall>x \<in> set us. \<forall>u. (u, True) \<in> set hs \<longrightarrow> up_id x \<le> up_id u \<longrightarrow> (x, True) \<in> set hs)"
  using assms
proof (induction us arbitrary: r s)
  case Nil
  then show ?case by auto
next
  case (Cons u us)
  obtain ok s1 where h: "handle u s = (ok, s1)" by fastforce
  have wr: "wrap64 (up_id u + 1) = up_id u + 1" using Cons.prems(2) by (simp add: wrap64_id)
  show ?case
  proof (cases ok)
    case False
    with Cons.prems(1) h have r': "rs_offset r' = rs_offset r" "rs_handled r' = rs_handled r @ [(u, False)]" by auto
    show ?thesis
      by (intro exI [of _ "[(u, False)]"]) (auto simp: r')
  next
    case True
    let ?r = "r\<lparr>rs_handled := rs_handled r @ [(u, True)],
       rs_offset := (if up_id u \<ge> rs_offset r then wrap64 (up_id u + 1) else rs_offset r)\<rparr>"
    have "run_batch handle us ?r s1 = (r', s')" using Cons.prems(1) h True by simp
    from Cons.IH [OF this] Cons.prems(2,3) obtain hs where hs:
      "rs_handled r' = rs_handled ?r @ hs" "\<forall>h \<in> set hs. fst h \<in> set us"
      "rs_offset r' = rs_offset ?r \<or> (\<exists>u. (u, True) \<in> set hs \<and> rs_offset r' = up_id u + 1)"
      "\<forall>x \<in> set us. \<forall>u. (u, True) \<in> set hs \<longrightarrow> up_id x \<le> up_id u \<longrightarrow> (x, True) \<in> set hs"
      by auto
    have off: "rs_offset ?r = (if up_id u \<ge> rs_offset r then up_id u + 1 else rs_offset r)"
      by (simp add: wr)
    have later: "up_id u < up_id x" if "x \<in> set us" for x using Cons.prems(3) that by auto
    show ?thesis
    proof (intro exI [of _ "(u, True) # hs"] conjI)
      show "rs_handled r' = rs_handled r @ (u, True) # hs" using hs(1) by simp
      show "\<forall>h \<in> set ((u, True) # hs). fst h \<in> set (u # us)" using hs(2) by auto
      show "rs_offset r' = rs_offset r \<or> (\<exists>v. (v, True) \<in> set ((u, True) # hs) \<and> rs_offset r' = up_id v + 1)"
        using hs(3) unfolding off by (auto split: if_split_asm)
      show "\<forall>x \<in> set (u # us). \<forall>v. (v, True) \<in> set ((u, True) # hs) \<longrightarrow> up_id x \<le> up_id v \<longrightarrow>
          (x, True) \<in> set ((u, True) # hs)"
        using hs(4) later by force
    qed
  qed
qed

text \<open>
  \<open>poll_law\<close> is what \<open>getUpdates\<close> documents: a poll returns the first updates at or after the
  offset, in the order of their identifiers. \<open>arrived n\<close> are the updates that arrived by the
  \<open>n\<close>-th poll (an update unconfirmed for 24 hours, which Telegram drops, is not modelled).
\<close>

definition poll_law :: "(nat \<Rightarrow> int \<Rightarrow> update list option) \<Rightarrow> (nat \<Rightarrow> update list) \<Rightarrow> bool" where
  "poll_law poll arrived \<longleftrightarrow>
     (\<forall>n off us. poll n off = Some us \<longrightarrow> (\<exists>k. us = take k (filter (\<lambda>u. off \<le> up_id u) (arrived n)))) \<and>
     (\<forall>n. sorted_wrt (<) (map up_id (arrived n)) \<and> (\<exists>new. arrived (Suc n) = arrived n @ new) \<and>
        (\<forall>u \<in> set (arrived n). 0 \<le> up_id u \<and> in_int64 (up_id u + 1)))"

definition acked :: "update list \<Rightarrow> run_state \<Rightarrow> bool" where
  "acked seen r \<longleftrightarrow>
     (rs_offset r = 0 \<or> (\<exists>v \<in> set seen. rs_offset r = up_id v + 1)) \<and>
     (\<forall>u \<in> set seen. up_id u < rs_offset r \<longrightarrow> (u, True) \<in> set (rs_handled r))"

lemma acked_more:
  assumes "acked seen r" and "sorted_wrt (<) (map up_id (seen @ new))" and "\<forall>u \<in> set new. 0 \<le> up_id u"
  shows "acked (seen @ new) r"
proof -
  have "\<not> up_id u < rs_offset r" if "u \<in> set new" for u
  proof (cases "rs_offset r = 0")
    case True
    with assms(3) that show ?thesis by auto
  next
    case False
    with assms(1) obtain v where "v \<in> set seen" "rs_offset r = up_id v + 1" by (auto simp: acked_def)
    moreover have "up_id v < up_id u" if "v \<in> set seen" for v
      using assms(2) that \<open>u \<in> set new\<close> by (auto simp: sorted_wrt_append)
    ultimately show ?thesis by fastforce
  qed
  then show ?thesis using assms(1) by (auto simp: acked_def)
qed

lemma acked_batch:
  assumes "acked seen r" and "run_batch handle us (r\<lparr>rs_backoff := b\<rparr>) s = (r', s')"
    and "us = take k (filter (\<lambda>u. rs_offset r \<le> up_id u) seen)"
    and "sorted_wrt (<) (map up_id seen)" and "\<forall>u \<in> set seen. in_int64 (up_id u + 1)"
  shows "acked seen r'"
proof -
  let ?f = "filter (\<lambda>u. rs_offset r \<le> up_id u) seen"
  have sf: "sorted_wrt (<) (map up_id ?f)"
    using assms(4) by (simp add: sorted_wrt_map sorted_wrt_filter)
  then have su: "sorted_wrt (<) (map up_id us)"
    unfolding assms(3) by (simp add: take_map [symmetric] sorted_wrt_take)
  have sub: "set us \<subseteq> set seen" unfolding assms(3) using set_take_subset by fastforce
  with assms(5) have "\<forall>u \<in> set us. in_int64 (up_id u + 1)" by blast
  from run_batch_spec [OF assms(2) this su] obtain hs where hs:
    "rs_handled r' = rs_handled r @ hs" "\<forall>h \<in> set hs. fst h \<in> set us"
    "rs_offset r' = rs_offset r \<or> (\<exists>u. (u, True) \<in> set hs \<and> rs_offset r' = up_id u + 1)"
    "\<forall>x \<in> set us. \<forall>u. (u, True) \<in> set hs \<longrightarrow> up_id x \<le> up_id u \<longrightarrow> (x, True) \<in> set hs"
    by auto
  have "(x, True) \<in> set (rs_handled r')" if x: "x \<in> set seen" "up_id x < rs_offset r'" for x
  proof (cases "up_id x < rs_offset r")
    case True
    with assms(1) x(1) hs(1) show ?thesis by (simp add: acked_def)
  next
    case False
    with x(2) hs(3) obtain u where u: "(u, True) \<in> set hs" "rs_offset r' = up_id u + 1" by auto
    have "x \<in> set ?f" using False x(1) by simp
    moreover have "u \<in> set (take k ?f)" using hs(2) u(1) unfolding assms(3) by auto
    moreover have "up_id x \<le> up_id u" using x(2) u(2) by simp
    moreover have "?f = take k ?f @ drop k ?f" by simp
    moreover have "\<forall>a \<in> set (take k ?f). \<forall>c \<in> set (drop k ?f). up_id a < up_id c"
    proof -
      have "sorted_wrt (<) (map up_id (take k ?f @ drop k ?f))" using sf by simp
      then show ?thesis by (simp only: map_append sorted_wrt_append set_map) blast
    qed
    ultimately have "x \<in> set us"
      unfolding assms(3) by (metis Un_iff leD set_append)
    with hs(4) u(1) \<open>up_id x \<le> up_id u\<close> hs(1) show ?thesis by auto
  qed
  moreover have "rs_offset r' = 0 \<or> (\<exists>v \<in> set seen. rs_offset r' = up_id v + 1)"
    using hs(2,3) sub assms(1) unfolding acked_def by fastforce
  ultimately show ?thesis by (simp add: acked_def)
qed

lemma run_acked:
  assumes "run poll handle n fuel r s = (r', s')" and "poll_law poll arrived" and "acked (arrived n) r"
  shows "\<exists>m \<ge> n. acked (arrived m) r'"
  using assms(1,3)
proof (induction fuel arbitrary: n r s)
  case 0
  then show ?case by auto
next
  case (Suc fuel)
  have law: "sorted_wrt (<) (map up_id (arrived k))" "\<forall>u \<in> set (arrived k). 0 \<le> up_id u \<and> in_int64 (up_id u + 1)"
    for k using assms(2) by (simp_all add: poll_law_def)
  obtain new where new: "arrived (Suc n) = arrived n @ new" using assms(2) unfolding poll_law_def by blast
  have up: "acked (arrived (Suc n)) q" if "acked (arrived n) q" for q
    unfolding new using law [of "Suc n"] by (intro acked_more [OF that]) (simp_all add: new)
  show ?case
  proof (cases "poll n (rs_offset r)")
    case None
    have "acked (arrived (Suc n)) (r\<lparr>rs_pauses := rs_pauses r @ [rs_backoff r], rs_backoff := double_backoff (rs_backoff r)\<rparr>)"
      using up [OF Suc.prems(2)] by (simp add: acked_def)
    with Suc.IH [of "Suc n"] Suc.prems(1) None show ?thesis by (force dest: Suc_leD)
  next
    case (Some us)
    obtain r1 s1 where b: "run_batch (handle n) us (r\<lparr>rs_backoff := second\<rparr>) s = (r1, s1)" by fastforce
    obtain k where "us = take k (filter (\<lambda>u. rs_offset r \<le> up_id u) (arrived n))"
      using assms(2) Some unfolding poll_law_def by blast
    from acked_batch [OF Suc.prems(2) b this law(1)] law(2) have "acked (arrived n) r1" by blast
    from up [OF this] Suc.IH [of "Suc n" r1 s1] Suc.prems(1) Some b show ?thesis by (force dest: Suc_leD)
  qed
qed

lemma arrived_mono:
  assumes "poll_law poll arrived" and "n \<le> m"
  shows "\<exists>new. arrived m = arrived n @ new"
  using assms(2)
proof (induction m rule: dec_induct)
  case (step k)
  then obtain a b where "arrived k = arrived n @ a" "arrived (Suc k) = arrived k @ b"
    using assms(1) unfolding poll_law_def by blast
  then show ?case by auto
qed simp


section \<open>A sink that recognises idempotency keys\<close>

text \<open>Updates handled one after the other, each with its own circumstances.\<close>

fun deliver ::
  "(string \<Rightarrow> string) \<Rightarrow> bridge_config \<Rightarrow> int \<Rightarrow> ('e \<Rightarrow> drop_input \<Rightarrow> 's \<Rightarrow> string option \<times> 's) \<Rightarrow>
   (tg_env \<times> 'e \<times> update) list \<Rightarrow> 's \<Rightarrow> 's" where
  "deliver uni cfg bid put [] s = s"
| "deliver uni cfg bid put ((te, e, u) # xs) s =
     deliver uni cfg bid put xs (snd (snd (handle_update uni cfg bid te (put e) u s)))"

text \<open>The keys of the messages that may be forwarded.\<close>

definition update_key :: "int \<Rightarrow> update \<Rightarrow> string option" where
  "update_key bid u = map_option (\<lambda>m. idempotency_key bid (ch_id (ms_chat m)) (ms_id m)) (content u)"

definition allowed_update :: "bridge_config \<Rightarrow> update \<Rightarrow> bool" where
  "allowed_update cfg u = (case content u of None \<Rightarrow> False | Some m \<Rightarrow> allowed cfg (from_id m) (ch_id (ms_chat m)))"

definition delivered_keys :: "bridge_config \<Rightarrow> int \<Rightarrow> update list \<Rightarrow> string set" where
  "delivered_keys cfg bid us = {k. \<exists>u \<in> set us. allowed_update cfg u \<and> update_key bid u = Some k}"

lemma delivered_keys_finite: "finite (delivered_keys cfg bid us)"
proof -
  have "delivered_keys cfg bid us \<subseteq> the ` update_key bid ` set us"
    by (force simp: delivered_keys_def image_iff)
  then show ?thesis by (rule finite_subset) simp
qed

lemma idempotency_key_trim: "trim_space (idempotency_key b c m) = idempotency_key b c m"
proof (rule trim_space_graphic)
  have "last (idempotency_key b c m) \<in> set (itoa m)"
    by (simp add: idempotency_key_def) 
  then have "is_digit (last (idempotency_key b c m)) \<or> last (idempotency_key b c m) = CHR ''-''" by (rule itoa_chars)
  then show "graphic (last (idempotency_key b c m))" by (auto simp: char_class_defs graphic_def)
qed (simp_all add: idempotency_key_def graphic_def in_range_def)

text \<open>
  What the bridge relies on at Drop. A call carries what it meets on its way (\<open>'e\<close>: clocks,
  faults, a lost answer); \<open>made s k\<close> is the item made under the key \<open>k\<close>, if any.
\<close>

locale item_sink =
  fixes put :: "'e \<Rightarrow> drop_input \<Rightarrow> 's \<Rightarrow> string option \<times> 's"
    and made :: "'s \<Rightarrow> string \<Rightarrow> string option"
    and items :: "'s \<Rightarrow> nat"
    and usable :: "string \<Rightarrow> bool"
  assumes made_stays: "made s k = Some i \<Longrightarrow> made (snd (put e inp s)) k = Some i"
    and made_put: "usable (di_key inp) \<Longrightarrow> put e inp s = (Some i, s') \<Longrightarrow> made s' (di_key inp) = Some i"
    and put_replay: "usable (di_key inp) \<Longrightarrow> made s (di_key inp) = Some i \<Longrightarrow> items (snd (put e inp s)) = items s"
    and put_adds: "usable (di_key inp) \<Longrightarrow>
       items (snd (put e inp s)) = items s \<or>
       (items (snd (put e inp s)) = Suc (items s) \<and> made (snd (put e inp s)) (di_key inp) \<noteq> None)"
begin

definition made_keys :: "string set \<Rightarrow> 's \<Rightarrow> nat" where
  "made_keys K s = card {k \<in> K. made s k \<noteq> None}"

lemma made_keys_step:
  assumes "finite K" "di_key inp \<in> K" "usable (di_key inp)"
  shows "items (snd (put e inp s)) + made_keys K s \<le> items s + made_keys K (snd (put e inp s))"
proof -
  let ?s = "snd (put e inp s)"
  have fin: "finite {k \<in> K. made ?s k \<noteq> None}" using assms(1) by simp
  have sub: "{k \<in> K. made s k \<noteq> None} \<subseteq> {k \<in> K. made ?s k \<noteq> None}"
    using made_stays by fastforce
  then have mono: "made_keys K s \<le> made_keys K ?s" unfolding made_keys_def by (intro card_mono fin)
  show ?thesis
  proof (cases "items ?s = items s")
    case True
    with mono show ?thesis by simp
  next
    case False
    with put_adds [OF assms(3)] have new: "items ?s = Suc (items s)" "made ?s (di_key inp) \<noteq> None" by blast+
    have "made s (di_key inp) = None" using put_replay [OF assms(3)] False by fastforce
    with sub new(2) assms(2) have "{k \<in> K. made s k \<noteq> None} \<subset> {k \<in> K. made ?s k \<noteq> None}" by blast
    then have "made_keys K s < made_keys K ?s" unfolding made_keys_def by (intro psubset_card_mono fin)
    with new(1) show ?thesis by simp
  qed
qed

lemma deliver_at_most_once:
  assumes "finite K" "delivered_keys cfg bid (map (\<lambda>(te, e, u). u) xs) \<subseteq> K" "\<And>b c m. usable (idempotency_key b c m)"
  shows "items (deliver uni cfg bid put xs s) + made_keys K s \<le> items s + made_keys K (deliver uni cfg bid put xs s)"
  using assms(2)
proof (induction xs arbitrary: s)
  case (Cons x xs)
  obtain te e u where x: "x = (te, e, u)" by (rule prod_cases3)
  obtain ok calls s1 where h: "handle_update uni cfg bid te (put e) u s = (ok, calls, s1)" by (rule prod_cases3)
  have step: "items s1 + made_keys K s \<le> items s + made_keys K s1"
    using h
  proof (cases rule: handle_update_cases)
    case quiet
    then show ?thesis by simp
  next
    case (forwarded m att)
    have "di_key (message_input cfg bid m att) \<in> K"
      using Cons.prems forwarded(1,3)
      by (force simp: x delivered_keys_def allowed_update_def update_key_def message_input_def)
    then show ?thesis
      using made_keys_step [OF assms(1), of "message_input cfg bid m att" e s] assms(3) forwarded(4)
      by (simp add: message_input_def)
  qed
  have "delivered_keys cfg bid (map (\<lambda>(te, e, u). u) xs) \<subseteq> K"
    by (rule order_trans [OF _ Cons.prems]) (unfold delivered_keys_def list.map list.set, blast)
  from Cons.IH [OF this, of s1] step show ?case by (simp add: x h)
qed simp

lemma deliver_bound:
  assumes "\<And>b c m. usable (idempotency_key b c m)"
  shows "items (deliver uni cfg bid put xs s) \<le> items s + card (delivered_keys cfg bid (map (\<lambda>(te, e, u). u) xs))"
proof -
  let ?K = "delivered_keys cfg bid (map (\<lambda>(te, e, u). u) xs)"
  have "items (deliver uni cfg bid put xs s) + made_keys ?K s \<le> items s + made_keys ?K (deliver uni cfg bid put xs s)"
    using assms by (intro deliver_at_most_once delivered_keys_finite) auto
  moreover have "made_keys ?K (deliver uni cfg bid put xs s) \<le> card ?K"
    unfolding made_keys_def by (intro card_mono delivered_keys_finite) auto
  ultimately show ?thesis by linarith
qed

end

end
