(* ===== verification/Bridge_Drop.thy ===== *)
theory Bridge_Drop
  imports Bridge_Safety Drop_Service
begin

text \<open>
  The bridge in front of Drop: the Drop client of the bridge
  (\<open>services/telegram-bridge/internal/drop\<close>) writes an item as a multipart request to the
  handler \<open>createItem\<close>, and that handler over the Drop store recognises idempotency keys in
  the sense of the interface \<open>item_sink\<close>.
\<close>

section \<open>The Drop client\<close>

definition escape_filename :: "string \<Rightarrow> string" where
  "escape_filename v =
     replace_char (CHR 0x0A) CHR ''_'' (replace_char (CHR 0x0D) CHR ''_''
       (replace_char (CHR 0x22) CHR ''_'' (replace_char (CHR 0x5C) CHR ''_'' v)))"

text \<open>
  \<open>writeMultipart\<close> as the reader of the other side sees it; \<open>Part.FileName\<close> is the base name
  of what was written.
\<close>

definition client_parts :: "drop_input \<Rightarrow> part_event list" where
  "client_parts inp =
     (if di_text inp \<noteq> []
      then [Part \<lparr>pt_form = ''text'', pt_file = [], pt_type = [], pt_content = di_text inp, pt_broken = False\<rparr>] else []) @
     [Part \<lparr>pt_form = ''ttl_days'', pt_file = [], pt_type = [], pt_content = itoa (di_ttl inp), pt_broken = False\<rparr>] @
     (case di_attachment inp of
        None \<Rightarrow> []
      | Some a \<Rightarrow>
          [Part \<lparr>pt_form = ''files'',
                 pt_file = (if escape_filename (da_name a) = [] then [] else path_base (escape_filename (da_name a))),
                 pt_type = da_type a, pt_content = da_content a, pt_broken = da_broken a\<rparr>])"

text \<open>
  \<open>Create\<close>: the request is refused before the handler (no token, no connection), or handled
  with an answer that may get lost.
\<close>

datatype transport = Refused | Answered | Answer_lost

definition client_result :: "drop_input \<Rightarrow> drop_response \<Rightarrow> string option" where
  "client_result inp resp =
     (if (case di_attachment inp of None \<Rightarrow> False | Some a \<Rightarrow> da_broken a) then None
      else if status resp \<noteq> 201 then None
      else case body resp of
        Some (Drop_item v) \<Rightarrow> if iv_id v = [] then None else Some (iv_id v)
      | _ \<Rightarrow> None)"

definition drop_put ::
  "drop_lib \<Rightarrow> api_config \<Rightarrow> (string \<Rightarrow> string) \<Rightarrow> claims \<Rightarrow> call_env \<times> transport \<Rightarrow> drop_input \<Rightarrow> world \<Rightarrow>
   string option \<times> world" where
  "drop_put lib cfg coll c e inp w =
     (case snd e of
        Refused \<Rightarrow> (None, w)
      | t \<Rightarrow>
          (case create_item lib cfg coll (fst e) c (-1) (Some (client_parts inp)) (di_key inp) w of
             (resp, w') \<Rightarrow> (if t = Answered then client_result inp resp else None, w')))"

section \<open>Rows and keys of a creation, under any fault\<close>

lemma insert_attachments_keys: "insert_attachments f n as d = Some d' \<Longrightarrow> db_keys d' = db_keys d"
proof (induction as arbitrary: n d)
  case (Cons a as)
  then obtain d1 where "insert_attachment a d = Some d1" "insert_attachments f (Suc n) as d1 = Some d'"
    by (auto split: if_splits bind_splits)
  with Cons.IH [OF this(2)] insert_attachment_spec(1) [OF this(1)] show ?case by simp
qed simp

lemma write_rows_keys:
  assumes "write_rows f i key d = Some d'"
  shows "db_keys d' = db_keys d @ (if length key = 32 then [(key, it_id i)] else [])"
    "length key = 32 \<Longrightarrow> key \<notin> fst ` set (db_keys d)"
proof -
  from assms obtain d1 d2 where d1: "insert_item (row_of_item i) d = Some d1"
    and d2: "insert_attachments (cf_insert_att f) 0 (it_attachments i) d1 = Some d2"
    and d': "(if length key = 32 then (if cf_insert_key f then None else insert_key key (it_id i) d2)
              else Some d2) = Some d'"
    unfolding write_rows_def by (auto simp del: insert_attachments.simps split: if_split_asm bind_splits)
  have k: "db_keys d2 = db_keys d"
    using insert_attachments_keys [OF d2] d1 by (simp add: insert_item_spec)
  show "db_keys d' = db_keys d @ (if length key = 32 then [(key, it_id i)] else [])"
    "length key = 32 \<Longrightarrow> key \<notin> fst ` set (db_keys d)"
    using d' k by (auto simp: insert_key_spec split: if_split_asm)
qed

lemma create_new_result:
  assumes "create_new f now rid st inp tot = (r, st')"
  shows "(st_db st' = st_db st \<and> \<not> is_ok r) \<or>
         (\<exists>i. write_rows f i (ci_key inp) (st_db st) = Some (st_db st') \<and> (\<forall>j. r = Inr j \<longrightarrow> it_id j = it_id i))"
proof -
  obtain m fs ok where mv:
    "move_uploads (cf_rename f) rid now (rid 0) 0 (ci_attachments inp) [] (st_files st) = (m, fs, ok)"
    by (rule prod_cases3)
  define i where "i = (new_item rid now tot inp)\<lparr>it_attachments := m\<rparr>"
  define st0 where "st0 = st\<lparr>st_files := cleanup_moved (cf_remove f) 0 m fs\<rparr>"
  have "st_db st0 = st_db st" by (simp add: st0_def)
  then show ?thesis
    using assms unfolding create_new_eq [OF mv st0_def i_def]
    by (auto split: if_split_asm option.split_asm commit_outcome.split_asm)
qed

lemma get_Inr_id: "get coll fault t st iid = Inr i \<Longrightarrow> it_id i = iid"
  using get_id [of coll t st iid i] by (cases fault) (simp add: get_def, simp)

lemma create_result:
  assumes "create coll f now dbnow rid st inp = (r, st')"
  shows "(st_db st' = st_db st \<and> (\<forall>i. r = Inr i \<longrightarrow> existing_item (st_db st) (ci_key inp) = Some (it_id i))) \<or>
         (existing_item (st_db st) (ci_key inp) = None \<and>
          (\<exists>i. write_rows f i (ci_key inp) (st_db st) = Some (st_db st') \<and> (\<forall>j. r = Inr j \<longrightarrow> it_id j = it_id i)))"
  using assms
proof (cases rule: create_cases)
  case (refused e)
  then show ?thesis by simp
next
  case (replay existing)
  then show ?thesis using get_Inr_id by force
next
  case (fresh tot)
  from create_new_result [OF fresh(6)] fresh(3) show ?thesis by (cases r) auto
qed

lemma existing_item_added:
  assumes "write_rows f i key d = Some d'"
  shows "existing_item d k = Some x \<Longrightarrow> existing_item d' k = Some x"
    "length key = 32 \<Longrightarrow> existing_item d' key = Some (it_id i)"
proof -
  note w = write_rows_keys [OF assms]
  show "existing_item d k = Some x \<Longrightarrow> existing_item d' k = Some x"
    by (auto simp: existing_item_def w(1) map_add_Some_iff split: if_split_asm)
  assume "length key = 32"
  moreover from w(2) [OF this] have "map_of (db_keys d) key = None" by (simp add: map_of_eq_None_iff)
  ultimately show "existing_item d' key = Some (it_id i)"
    by (simp add: existing_item_def w(1) map_add_def)
qed

section \<open>The handler as a sink\<close>

lemma unstage_db [simp]: "st_db (unstage g fm s) = st_db s"
  by (simp add: unstage_def)

definition made_item :: "drop_lib \<Rightarrow> claims \<Rightarrow> world \<Rightarrow> string \<Rightarrow> string option" where
  "made_item lib c w k = existing_item (st_db (wo_store w)) (idempotency_hash lib c (trim_space k))"

definition item_count :: "world \<Rightarrow> nat" where
  "item_count w = length (db_items (st_db (wo_store w)))"

definition usable_key :: "string \<Rightarrow> bool" where
  "usable_key k \<longleftrightarrow> trim_space k \<noteq> []"

lemma finish_form_key:
  "finish_form lib c key fm = Inr inp \<Longrightarrow> usable_key key \<Longrightarrow> ci_key inp = idempotency_hash lib c (trim_space key)"
  by (auto simp: finish_form_def usable_key_def Let_def split: if_split_asm)

text \<open>One call: nothing is added, or exactly the item of the key.\<close>

lemma create_item_rows:
  assumes "create_item lib cfg coll env c len parts key w = (resp, w')"
  shows "(st_db (wo_store w') = st_db (wo_store w) \<and>
          (usable_key key \<longrightarrow> status resp = 201 \<longrightarrow>
             (\<exists>i. body resp = Some (Drop_item (item_response i)) \<and> made_item lib c w key = Some (it_id i)))) \<or>
         (\<exists>f i inp. finish_form lib c key f = Inr inp \<and> existing_item (st_db (wo_store w)) (ci_key inp) = None \<and>
            write_rows (ce_create env) i (ci_key inp) (st_db (wo_store w)) = Some (st_db (wo_store w')) \<and>
            (status resp = 201 \<longrightarrow> (\<exists>j. it_id j = it_id i \<and> body resp = Some (Drop_item (item_response j)))))"
  using assms
proof (cases rule: create_item_cases)
  case early
  then show ?thesis by simp
next
  case (read_error ps err fm fs)
  have "fst err \<noteq> 201" if "read_parts lib cfg e evs f g = (Some err, fm, fs)" for e evs f g
    using that
  proof (induction evs arbitrary: f g)
    case (Cons ev evs)
    then show ?case
      by (cases ev) (auto simp: read_part_def stage_attachment_def Let_def
          split: prod.split_asm sum.split_asm if_split_asm option.split_asm)
  qed simp
  with read_error show ?thesis by (simp add: write_error_def write_json_def)
next
  case (form_error ps fm fs err)
  then have "fst err \<noteq> 201" by (auto simp: finish_form_def Let_def split: if_split_asm)
  with form_error show ?thesis by (simp add: write_error_def write_json_def)
next
  case (tried ps fm fs inp r st1)
  have resp: "status resp = 201 \<Longrightarrow> \<exists>i. r = Inr i \<and> body resp = Some (Drop_item (item_response i))"
  proof (cases r)
    case (Inl e)
    with tried(6) show "status resp = 201 \<Longrightarrow> ?thesis" by (cases e) (simp_all add: write_error_def write_json_def)
  qed (simp add: tried(6) write_json_def)
  have db: "st_db (wo_store w') = st_db st1" by (simp add: tried(5))
  from create_result [OF tried(4)] show ?thesis
  proof
    assume "st_db st1 = st_db ((wo_store w)\<lparr>st_files := fs\<rparr>) \<and>
      (\<forall>i. r = Inr i \<longrightarrow> existing_item (st_db ((wo_store w)\<lparr>st_files := fs\<rparr>)) (ci_key inp) = Some (it_id i))"
    then have same: "st_db st1 = st_db (wo_store w)"
      "\<And>i. r = Inr i \<Longrightarrow> existing_item (st_db (wo_store w)) (ci_key inp) = Some (it_id i)" by simp_all
    show ?thesis
    proof (intro disjI1 conjI impI)
      assume "usable_key key" "status resp = 201"
      with resp finish_form_key [OF tried(3)] same(2)
      show "\<exists>i. body resp = Some (Drop_item (item_response i)) \<and> made_item lib c w key = Some (it_id i)"
        unfolding made_item_def by metis
    qed (simp add: db same(1))
  next
    assume "existing_item (st_db ((wo_store w)\<lparr>st_files := fs\<rparr>)) (ci_key inp) = None \<and>
      (\<exists>i. write_rows (ce_create env) i (ci_key inp) (st_db ((wo_store w)\<lparr>st_files := fs\<rparr>)) = Some (st_db st1) \<and>
         (\<forall>j. r = Inr j \<longrightarrow> it_id j = it_id i))"
    then obtain i where i: "existing_item (st_db (wo_store w)) (ci_key inp) = None"
      "write_rows (ce_create env) i (ci_key inp) (st_db (wo_store w)) = Some (st_db st1)"
      "\<And>j. r = Inr j \<Longrightarrow> it_id j = it_id i" by auto
    with resp have "status resp = 201 \<longrightarrow> (\<exists>j. it_id j = it_id i \<and> body resp = Some (Drop_item (item_response j)))"
      by blast
    with i(1,2) tried(3) show ?thesis unfolding db by blast
  qed
qed

text \<open>Every call of the client leaves the world alone or is one call of the handler.\<close>

lemma drop_put_cases:
  assumes "drop_put lib cfg coll c e inp w = (r, w')"
  obtains (none) "r = None" "w' = w"
  | (call) resp where "create_item lib cfg coll (fst e) c (-1) (Some (client_parts inp)) (di_key inp) w = (resp, w')"
      "r = None \<or> r = client_result inp resp"
proof -
  obtain resp w1 where cr:
    "create_item lib cfg coll (fst e) c (-1) (Some (client_parts inp)) (di_key inp) w = (resp, w1)" by fastforce
  show ?thesis
  proof (cases "snd e")
    case Refused
    with assms show ?thesis by (intro none) (simp_all add: drop_put_def)
  next
    case Answered
    with assms cr show ?thesis by (intro call [of resp]) (simp_all add: drop_put_def)
  next
    case Answer_lost
    with assms cr show ?thesis by (intro call [of resp]) (simp_all add: drop_put_def)
  qed
qed

lemma client_result_Some:
  "client_result inp resp = Some i \<Longrightarrow> status resp = 201 \<and> (\<exists>v. body resp = Some (Drop_item v) \<and> iv_id v = i)"
  by (auto simp: client_result_def split: if_split_asm option.split_asm drop_body.split_asm)

lemma create_item_items:
  assumes "create_item lib cfg coll env c len parts key w = (resp, w')"
  shows "made_item lib c w k = Some x \<Longrightarrow> made_item lib c w' k = Some x"
    and "usable_key key \<Longrightarrow> status resp = 201 \<Longrightarrow>
           \<exists>v. body resp = Some (Drop_item v) \<and> made_item lib c w' key = Some (iv_id v)"
    and "usable_key key \<Longrightarrow> item_count w' = item_count w \<or>
           (item_count w' = Suc (item_count w) \<and> made_item lib c w key = None \<and> made_item lib c w' key \<noteq> None)"
proof -
  have len: "length (idempotency_hash lib c s) = 32" for s by (simp add: idempotency_hash_def)
  consider (same) "st_db (wo_store w') = st_db (wo_store w)"
      "usable_key key \<Longrightarrow> status resp = 201 \<Longrightarrow>
         \<exists>i. body resp = Some (Drop_item (item_response i)) \<and> made_item lib c w key = Some (it_id i)"
    | (added) f i inp where "finish_form lib c key f = Inr inp"
      "existing_item (st_db (wo_store w)) (ci_key inp) = None"
      "write_rows (ce_create env) i (ci_key inp) (st_db (wo_store w)) = Some (st_db (wo_store w'))"
      "status resp = 201 \<Longrightarrow> \<exists>j. it_id j = it_id i \<and> body resp = Some (Drop_item (item_response j))"
    using create_item_rows [OF assms] by blast
  then have "(made_item lib c w k = Some x \<longrightarrow> made_item lib c w' k = Some x) \<and>
      (usable_key key \<longrightarrow> status resp = 201 \<longrightarrow>
           (\<exists>v. body resp = Some (Drop_item v) \<and> made_item lib c w' key = Some (iv_id v))) \<and>
      (usable_key key \<longrightarrow> item_count w' = item_count w \<or>
           (item_count w' = Suc (item_count w) \<and> made_item lib c w key = None \<and> made_item lib c w' key \<noteq> None))"
  proof cases
    case same
    then show ?thesis by (auto simp: made_item_def item_count_def item_response_def)
  next
    case added
    note ex = existing_item_added [OF added(3)]
    have key: "usable_key key \<Longrightarrow> ci_key inp = idempotency_hash lib c (trim_space key)"
      using finish_form_key [OF added(1)] .
    have count: "item_count w' = Suc (item_count w)"
      using write_rows_items(1) [OF added(3)] by (simp add: item_count_def)
    have made: "usable_key key \<Longrightarrow> made_item lib c w' key = Some (it_id i)"
      using ex(2) key len by (simp add: made_item_def)
    have "usable_key key \<Longrightarrow> made_item lib c w key = None"
      using added(2) key by (simp add: made_item_def)
    with count made added(4) ex(1) show ?thesis by (auto simp: made_item_def item_response_def)
  qed
  then show "made_item lib c w k = Some x \<Longrightarrow> made_item lib c w' k = Some x"
    "usable_key key \<Longrightarrow> status resp = 201 \<Longrightarrow>
       \<exists>v. body resp = Some (Drop_item v) \<and> made_item lib c w' key = Some (iv_id v)"
    "usable_key key \<Longrightarrow> item_count w' = item_count w \<or>
       (item_count w' = Suc (item_count w) \<and> made_item lib c w key = None \<and> made_item lib c w' key \<noteq> None)"
    by blast+
qed

interpretation drop_sink: item_sink "drop_put lib cfg coll c" "made_item lib c" item_count usable_key
  for lib cfg coll c
proof unfold_locales
  fix w :: world and k i and e :: "call_env \<times> transport" and inp :: drop_input
  obtain r w' where p: "drop_put lib cfg coll c e inp w = (r, w')" by fastforce
  show "made_item lib c (snd (drop_put lib cfg coll c e inp w)) k = Some i" if "made_item lib c w k = Some i"
    using p
  proof (cases rule: drop_put_cases)
    case (call resp)
    from create_item_items(1) [OF call(1) that] p show ?thesis by simp
  qed (use that p in simp)
next
  fix w w' :: world and i and e :: "call_env \<times> transport" and inp :: drop_input
  assume u: "usable_key (di_key inp)" and p: "drop_put lib cfg coll c e inp w = (Some i, w')"
  from p show "made_item lib c w' (di_key inp) = Some i"
  proof (cases rule: drop_put_cases)
    case (call resp)
    then have "client_result inp resp = Some i" by simp
    with create_item_items(2) [OF call(1) u] client_result_Some show ?thesis by fastforce
  qed simp
next
  fix w :: world and i and e :: "call_env \<times> transport" and inp :: drop_input
  assume u: "usable_key (di_key inp)" and m: "made_item lib c w (di_key inp) = Some i"
  obtain r w' where p: "drop_put lib cfg coll c e inp w = (r, w')" by fastforce
  from p show "item_count (snd (drop_put lib cfg coll c e inp w)) = item_count w"
  proof (cases rule: drop_put_cases)
    case (call resp)
    from create_item_items(3) [OF call(1) u] m p show ?thesis by simp
  qed (use p in simp)
next
  fix w :: world and e :: "call_env \<times> transport" and inp :: drop_input
  assume u: "usable_key (di_key inp)"
  obtain r w' where p: "drop_put lib cfg coll c e inp w = (r, w')" by fastforce
  from p show "item_count (snd (drop_put lib cfg coll c e inp w)) = item_count w \<or>
      item_count (snd (drop_put lib cfg coll c e inp w)) = Suc (item_count w) \<and>
      made_item lib c (snd (drop_put lib cfg coll c e inp w)) (di_key inp) \<noteq> None"
  proof (cases rule: drop_put_cases)
    case (call resp)
    from create_item_items(3) [OF call(1) u] p show ?thesis by auto
  qed (use p in simp)
qed


end
