(* ===== verification/Bridge_Examples.thy ===== *)
theory Bridge_Examples
  imports Bridge_Drop
begin

text \<open>Concrete updates of the bridge: one refused by the allow list, and a run of two polls.\<close>

definition ex_chat :: tg_chat where
  "ex_chat = \<lparr>ch_id = 7, ch_type = ''private'', ch_title = [], ch_name = [], ch_first = ''L'', ch_last = []\<rparr>"

definition ex_message :: message where
  "ex_message = \<lparr>ms_id = 5, ms_from = None, ms_sender_chat = None, ms_chat = ex_chat, ms_text = ''hi'', ms_caption = [],
     ms_photo = [], ms_animation = None, ms_audio = None, ms_document = None, ms_video = None, ms_voice = None,
     ms_video_note = None, ms_sticker = None\<rparr>"

definition ex_update :: "int \<Rightarrow> update" where
  "ex_update n = \<lparr>up_id = n, up_message = Some ex_message, up_channel_post = None\<rparr>"

definition ex_bridge :: "int list \<Rightarrow> bridge_config" where
  "ex_bridge chats = \<lparr>bc_users = [], bc_chats = chats, bc_ttl = 1, bc_ack = ''none'', bc_max_file = 100\<rparr>"

definition ex_tg :: tg_env where
  "ex_tg = \<lparr>te_file = (\<lambda>_. None), te_download = (\<lambda>_. None), te_send = True\<rparr>"

lemma ex_trim: "trim_space ''hi'' = ''hi''"
  by (rule trim_space_graphic) (simp_all add: graphic_def in_range_def)

lemma ex_command: "parse_command id ''hi'' = []"
  by (simp add: parse_command_def ex_trim Let_def has_prefix_def)

lemma ex_refused: "handle_update id (ex_bridge []) 9 ex_tg (\<lambda>inp s. (Some ''x'', Suc s)) (ex_update 3) 0 = (True, [], 0)"
  by (simp add: handle_update_def content_def ex_update_def ex_command ex_message_def ex_bridge_def allowed_def)

lemma ex_forwarded:
  "handle_update id (ex_bridge [7]) 9 ex_tg (\<lambda>inp s. (Some ''x'', Suc s)) (ex_update 3) 0 =
     (True, [Call_create (message_input (ex_bridge [7]) 9 ex_message None)], 1)"
proof -
  have "select_media ex_message = None" by (simp add: select_media_def ex_message_def)
  then show ?thesis
    by (simp add: handle_update_def content_def ex_update_def forward_def reply_def)
      (simp add: ex_message_def ex_command ex_trim allowed_def ex_bridge_def ex_chat_def)
qed


theorem idempotency_key_unique_witness: "(1::int) = 1 \<and> (2::int) = 2 \<and> (3::int) = 3"
  using idempotency_key_unique [of 1 1 2 2 3 3] by (simp add: in_int64_def)

definition ex_arrived :: "nat \<Rightarrow> update list" where
  "ex_arrived n = [ex_update 3, ex_update 4]"

definition ex_poll :: "nat \<Rightarrow> int \<Rightarrow> update list option" where
  "ex_poll n off = (if n = 1 then None else Some (take 1 (filter (\<lambda>u. off \<le> up_id u) (ex_arrived n))))"

lemma ex_poll_law: "poll_law ex_poll ex_arrived"
proof -
  have "\<exists>k. us = take k (filter (\<lambda>u. off \<le> up_id u) (ex_arrived n))" if "ex_poll n off = Some us" for n off us
    using that unfolding ex_poll_def by (intro exI [of _ 1]) (simp split: if_split_asm)
  then show ?thesis by (auto simp: poll_law_def) (auto simp: ex_arrived_def ex_update_def in_int64_def)
qed

lemma ex_run:
  "run ex_poll (\<lambda>n u s. (True, Suc s)) 0 3 start_state 0 =
     (\<lparr>rs_offset = 5, rs_backoff = second, rs_pauses = [second], rs_handled = [(ex_update 3, True), (ex_update 4, True)]\<rparr>, 2)"
  by (simp add: eval_nat_numeral start_state_def ex_poll_def ex_arrived_def wrap64_def) (simp add: ex_update_def)


end
