(* ===== verification/Spec2Isabelle.thy ===== *)
theory Spec2Isabelle
  imports Passkey_Examples Gateway_Examples Control_Examples Drop_Examples Drop_Api_Examples Bridge_Examples Iam_Examples
begin

text \<open>
  HomeHub: a self-hosted identity provider and the services behind it. IAM (\<open>apps/iam\<close>) knows
  the one owner of the hub, logs the owner in and issues short-lived signed tokens; the services
  verify those tokens with the Go SDK (\<open>packages/go-sdk\<close>) and never ask IAM. Drop
  (\<open>services/drop\<close>) stores items with attachments that expire, the Telegram bridge
  (\<open>services/telegram-bridge\<close>) turns messages into items of Drop, the AI gateway
  (\<open>services/ai-gateway\<close>) forwards chat requests to providers, and Control (\<open>apps/control\<close>)
  shows which services answer. This development models the Go code of all of them.

  \<^bold>\<open>How the code is modelled.\<close> A struct is a \<open>record\<close>, an error a constructor of an error
  type, a result \<open>Inl\<close> of an error or \<open>Inr\<close> of a value, or an \<open>outcome\<close> where a panic is
  possible. A handler or an operation is a function from the state (tables, blobs, files) and
  what it meets (the clock, the random bytes, which statements or system calls fail) to its
  answer and the state it leaves. Strings are lists of bytes. Go's 64-bit integers are \<open>int\<close>
  with \<open>wrap64\<close> where a value can leave the range; instants and durations are nanoseconds, of
  which the databases keep microseconds (\<open>db_time\<close>). What is not under \<open>src/\<close> is an argument:
  Ed25519, SHA-256, HMAC-SHA1, AES-GCM, Argon2id, the WebAuthn library, the HTTP transport,
  \<open>url.Parse\<close>, PostgreSQL's \<open>inet\<close> and \<open>uuid\<close> texts. The laws a theorem needs of an argument
  are its hypotheses (\<open>sign_law\<close>, \<open>seal_law\<close>, \<open>argon_law\<close>, \<open>hmac_law\<close>, \<open>codec_ok\<close>,
  \<open>passkey_laws\<close>), and the theories named \<open>_Examples\<close> apply each theorem to a concrete run on
  which they hold.

  \<^bold>\<open>The standard library.\<close> \<open>Prelude\<close> has 64-bit wrap-around, time and facts on lists;
  \<open>Go_Text\<close> the functions of \<open>strings\<close> and \<open>strconv\<close>; \<open>Go_Encoding\<close> base64, hexadecimal, UTF-8
  and the regular expressions of the code; \<open>Go_Json\<close>, \<open>Go_Json_Facts\<close> and \<open>Go_Json_Text\<close> a
  parser and a printer of JSON with the proof that what is printed is read back; \<open>Http\<close> requests
  and responses. \<open>Webauthn\<close> is the interface of the WebAuthn library.

  \<^bold>\<open>The SDK.\<close> \<open>Identity\<close> is \<open>identity/identity.go\<close> and \<open>jwks.go\<close>: claims, the verifier, bearer
  tokens and the decision of the middleware. \<open>Sdk_Http\<close> is \<open>httpx\<close> and \<open>identity/remote.go\<close>.

  \<^bold>\<open>IAM.\<close> \<open>Token\<close> is \<open>internal/token/signer.go\<close>, with the round trip from issuing to verifying.
  \<open>Iam_Store\<close> has the tables and one function per statement of \<open>internal/store/postgres\<close>;
  \<open>Credentials\<close> the password records, base32 and one-time codes, \<open>Humanauth\<close> the operations of
  \<open>internal/humanauth/service.go\<close>, \<open>Passkeys\<close> those of \<open>passkey.go\<close>, \<open>Iam_Api\<close> the handlers of
  \<open>internal/httpapi\<close>. \<open>Iam_Rows\<close> states what the tables look like whatever was done
  (\<open>iam_inv\<close>, kept by \<open>store_step\<close>) and, as a locale with three interpretations, that revocation
  is final; \<open>Iam_Safety\<close> is the state machine of the service (\<open>iam_adding\<close>, every operation with
  every input and failure) and shows each operation to be a sequence of statements;
  \<open>Iam_Access\<close>, \<open>Iam_Login\<close> and \<open>Iam_Passkeys\<close> what sessions, keys, shares, passwords and
  passkeys are worth; \<open>Iam_Edge\<close> that the handlers refine the service, that the cookie-authenticated
  routes are guarded, and that a token of the edge is accepted by the service it is for.

  \<^bold>\<open>Drop.\<close> \<open>Drop_Store\<close> is \<open>internal/store\<close> over tables, blobs and temporary files.
  \<open>Drop_Files\<close> and \<open>Drop_Rows\<close> are the lemmas on the two halves, \<open>Drop_Invariant\<close> the
  consistency of tables and files under every failure, \<open>Drop_Safety\<close> the state machine with the
  quota, \<open>Drop_Reads\<close> what operations return: downloads, retries, pages, the clean-up.
  \<open>Drop_Names\<close> has file names, media types and \<open>Content-Disposition\<close>; \<open>Drop_Api\<close> and
  \<open>Drop_Service\<close> are \<open>internal/httpapi\<close> with the multipart reader and the event hub.

  \<^bold>\<open>The bridge.\<close> \<open>Bridge\<close> is \<open>internal/bridge\<close> with the polling loop; \<open>Bridge_Safety\<close> shows that
  it denies what is not on its lists and forgets no update it has not handled; \<open>Bridge_Drop\<close> is
  the client of Drop composed with Drop itself: at most one item per message.

  \<^bold>\<open>The gateway and Control.\<close> \<open>Gateway\<close> and \<open>Gateway_Api\<close> are the configuration, the router and
  the handlers of the AI gateway, \<open>Gateway_Safety\<close> what may reach a provider and what comes back;
  \<open>Control\<close> is the catalogue, its concurrent probe as a step relation, and the API,
  \<open>Control_Facts\<close> what they promise.

  \<^bold>\<open>Bounds and fuel.\<close> The polling loop of the bridge never ends by itself; \<open>run\<close> takes the number
  of polls, and its theorems hold for every number. Everything else terminates: the JSON parser
  on its tokens (nesting is bounded by ten thousand as in \<open>encoding/json\<close>), the clean-up of Drop
  on the expired items, a probe on the goroutines that still run.

  \<^bold>\<open>Not modelled.\<close> The JSON text of most bodies (their values are modelled; the gateway's are
  text), logging, graceful shutdown, the running of SQL migrations, the static pages, Rust, the
  React portal and deployment files. Concurrent requests are modelled as a sequence of operations,
  each of them atomic: the transactions of the code make them so, and the goroutines of a probe
  write disjoint elements.
\<close>

end
